(* ===== verification/Prelude.thy ===== *)
theory Prelude
  imports Main "HOL-Library.AList" "HOL-Library.Word" "HOL-Library.Multiset" "HOL-Library.Sublist"
begin

text \<open>
  Shared vocabulary of the development: Go errors, Go maps as association lists, the
  iteration order of a range statement over a map, and the contracts
  (\<open>once_registry\<close>, \<open>keyed_store\<close>) that the mutable registries of the program share.
\<close>

named_theorems store_simps \<open>lookup after update, for every registry of the program\<close>
named_theorems valid_simps \<open>unfolding of the Validate methods\<close>
named_theorems frame_simps \<open>fields an operation leaves alone\<close>

section \<open>Errors\<close>

text \<open>
  A Go error is a value with a text. \<open>New\<close> is \<^verbatim>\<open>errors.New\<close> and a \<^verbatim>\<open>fmt.Errorf\<close> that
  wraps nothing, \<open>Wrap p e s\<close> is a \<^verbatim>\<open>fmt.Errorf\<close> with one \<^verbatim>\<open>%w\<close> between the texts \<open>p\<close>
  and \<open>s\<close>, \<open>Joined\<close> is \<^verbatim>\<open>errors.Join\<close> of a list that is not empty, \<open>RPC\<close> the error
  object of a JSON-RPC response.
\<close>

datatype error =
    New string
  | Wrap string error string
  | Joined "error list"
  | RPC int string

type_synonym 'a res = "error + 'a"

fun is_ok :: "'a res \<Rightarrow> bool" where
  "is_ok (Inl _) = False"
| "is_ok (Inr _) = True"

text \<open>\<^verbatim>\<open>errors.Is\<close> against a sentinel: the chain of wrapped errors is searched.\<close>

fun errors_is :: "error \<Rightarrow> error \<Rightarrow> bool" where
  "errors_is (New s) t = (New s = t)"
| "errors_is (Wrap p e s) t = (Wrap p e s = t \<or> errors_is e t)"
| "errors_is (Joined es) t = (Joined es = t \<or> (\<exists>e \<in> set es. errors_is e t))"
| "errors_is (RPC c m) t = (RPC c m = t)"

definition errors_join :: "error option list \<Rightarrow> error option" where
  "errors_join es =
     (case [e. Some e \<leftarrow> es] of [] \<Rightarrow> None | e # es' \<Rightarrow> Some (Joined (e # es')))"

lemma errors_join_None [simp]: "errors_join es = None \<longleftrightarrow> (\<forall>e \<in> set es. e = None)"
proof -
  have "[e. Some e \<leftarrow> es] = [] \<longleftrightarrow> (\<forall>e \<in> set es. e = None)"
    by (induction es) (auto split: option.splits)
  then show ?thesis
    unfolding errors_join_def by (cases "[e. Some e \<leftarrow> es]") (simp_all del: concat_eq_Nil_conv)
qed

section \<open>Maps and their iteration order\<close>

text \<open>
  A Go map with string keys is an association list with distinct keys; a \<^verbatim>\<open>nil\<close> map is the
  empty list. \<^verbatim>\<open>m[k] = v\<close> is \<open>AList.update\<close>, \<^verbatim>\<open>delete(m, k)\<close> is \<open>AList.delete\<close>,
  \<^verbatim>\<open>v, ok := m[k]\<close> is \<open>map_of m k\<close>.
\<close>

type_synonym 'v gomap = "(string \<times> 'v) list"

definition wf_map :: "('k \<times> 'v) list \<Rightarrow> bool" where
  "wf_map m \<longleftrightarrow> distinct (map fst m)"

lemma wf_map_Nil [simp, intro]: "wf_map []"
  by (simp add: wf_map_def)

lemma wf_map_update [simp, intro]: "wf_map m \<Longrightarrow> wf_map (AList.update k v m)"
  by (simp add: wf_map_def distinct_update)

lemma wf_map_delete [simp, intro]: "wf_map m \<Longrightarrow> wf_map (AList.delete k m)"
  by (simp add: wf_map_def distinct_delete)

lemma map_of_update [simp, store_simps]:
  "map_of (AList.update k v m) j = (if j = k then Some v else map_of m j)"
  by (simp add: update_conv)

lemma map_of_delete [simp, store_simps]:
  "map_of (AList.delete k m) j = (if j = k then None else map_of m j)"
  by (simp add: delete_conv)

lemma update_fresh: "map_of m k = None \<Longrightarrow> AList.update k v m = m @ [(k, v)]"
  by (induction m) (auto split: if_splits)

lemma map_of_in_set: "map_of m k = Some v \<Longrightarrow> (k, v) \<in> set m"
  by (rule map_of_SomeD)

lemma wf_map_map_of: "wf_map m \<Longrightarrow> (k, v) \<in> set m \<longleftrightarrow> map_of m k = Some v"
  by (simp add: wf_map_def map_of_eq_Some_iff)

lemma set_values: "wf_map m \<Longrightarrow> set (map snd m) = {v. \<exists>k. map_of m k = Some v}"
  by (force simp: wf_map_map_of [symmetric])

text \<open>
  The order in which \<^verbatim>\<open>range\<close> visits a map is not determined by Go. It is an argument of
  every definition that ranges over one: \<open>p n\<close> is the order of the positions of a map with
  \<open>n\<close> entries.
\<close>

type_synonym iter_order = "nat \<Rightarrow> nat list"

definition valid_order :: "iter_order \<Rightarrow> bool" where
  "valid_order p \<longleftrightarrow> (\<forall>n. mset (p n) = mset [0..<n])"

definition ranged :: "iter_order \<Rightarrow> 'a list \<Rightarrow> 'a list" where
  "ranged p xs = map ((!) xs) (p (length xs))"

definition insertion_order :: iter_order where
  "insertion_order n = [0..<n]"

lemma valid_insertion_order [simp, intro]: "valid_order insertion_order"
  by (simp add: valid_order_def insertion_order_def)

definition reverse_order :: iter_order where
  "reverse_order n = rev [0..<n]"

lemma valid_reverse_order [simp, intro]: "valid_order reverse_order"
  by (simp add: valid_order_def reverse_order_def)

lemma ranged_insertion_order [simp]: "ranged insertion_order xs = xs"
  by (simp add: ranged_def insertion_order_def map_nth)

lemma mset_ranged [simp]: "valid_order p \<Longrightarrow> mset (ranged p xs) = mset xs"
proof -
  assume "valid_order p"
  then have "mset (ranged p xs) = image_mset ((!) xs) (mset [0..<length xs])"
    by (simp add: ranged_def valid_order_def)
  also have "\<dots> = mset (map ((!) xs) [0..<length xs])"
    by (simp only: mset_map)
  finally show ?thesis by (simp add: map_nth)
qed

lemma set_ranged [simp]: "valid_order p \<Longrightarrow> set (ranged p xs) = set xs"
  by (metis mset_ranged set_mset_mset)

lemma length_ranged [simp]: "valid_order p \<Longrightarrow> length (ranged p xs) = length xs"
  by (metis mset_ranged size_mset)

lemma ranged_Nil [simp]: "valid_order p \<Longrightarrow> ranged p [] = []"
  by (metis length_0_conv length_ranged list.size(3))

lemma wf_map_mset: "mset m = mset m' \<Longrightarrow> wf_map m \<longleftrightarrow> wf_map m'"
  unfolding wf_map_def by (rule mset_eq_imp_distinct_iff) (simp only: mset_map)

lemma wf_map_ranged [simp]: "valid_order p \<Longrightarrow> wf_map (ranged p m) = wf_map m"
  by (rule wf_map_mset) simp

lemma length_update_known: "map_of m k = Some w \<Longrightarrow> length (AList.update k v m) = length m"
  by (induction m) (auto split: if_splits)

text \<open>Listing a table whose entries are filed under their own key.\<close>

lemma ranged_values:
  assumes "valid_order p" and "wf_map m" and "\<And>k v. map_of m k = Some v \<Longrightarrow> key v = k"
  shows "v \<in> set (map snd (ranged p m)) \<longleftrightarrow> map_of m (key v) = Some v"
proof -
  have "set (map snd (ranged p m)) = set (map snd m)"
    using assms(1) by simp
  also have "\<dots> = {v. \<exists>k. map_of m k = Some v}"
    using assms(2) by (rule set_values)
  finally show ?thesis using assms(3) by auto
qed

lemma ranged_values_distinct:
  assumes "valid_order p" and "wf_map m" and "\<And>k v. map_of m k = Some v \<Longrightarrow> key v = k"
  shows "distinct (map key (map snd (ranged p m)))"
proof -
  have wf: "wf_map (ranged p m)" using assms by simp
  have "key (snd kv) = fst kv" if "kv \<in> set (ranged p m)" for kv
    using that assms wf_map_map_of [OF assms(2), of "fst kv" "snd kv"] by simp
  then have "map key (map snd (ranged p m)) = map fst (ranged p m)" by simp
  with wf show ?thesis by (simp only: wf_map_def)
qed

text \<open>Searching a list by a key that identifies its elements.\<close>

lemma find_unique: "distinct (map key xs) \<Longrightarrow> x \<in> set xs \<Longrightarrow> find (\<lambda>y. key y = key x) xs = Some x"
  by (induction xs) auto

lemma find_map_key:
  assumes "\<And>x. key (f x) = key x"
  shows "find (\<lambda>x. key x = k) (map f xs) = map_option f (find (\<lambda>x. key x = k) xs)"
  by (induction xs) (auto simp: assms)

section \<open>Contracts of the registries\<close>

text \<open>
  A register-once table: inserting under a key that is taken, or a value that is not
  acceptable, is an error and leaves the table alone. \<open>Registry.Register\<close> of workflows and
  of plugins, \<open>Manager.Create\<close>, \<open>Supervisor.Register\<close> and \<open>Router.RegisterCapability\<close>
  promise this.
\<close>

locale once_registry =
  fixes look :: "'s \<Rightarrow> string \<Rightarrow> 'v option"
    and register :: "'v \<Rightarrow> 's \<Rightarrow> 's res"
    and key :: "'v \<Rightarrow> string"
    and acceptable :: "'v \<Rightarrow> bool"
  assumes register_ok: "is_ok (register v s) \<longleftrightarrow> acceptable v \<and> look s (key v) = None"
    and register_look: "register v s = Inr s' \<Longrightarrow> look s' k = (if k = key v then Some v else look s k)"
begin

text \<open>A registered entry is never replaced.\<close>

lemma register_keeps:
  assumes "register v s = Inr s'" and "look s k = Some u"
  shows "look s' k = Some u"
proof -
  from assms(1) have "look s (key v) = None"
    using register_ok [of v s] by simp
  with assms show ?thesis by (auto simp: register_look)
qed

text \<open>The loop that registers a list and stops at the first error.\<close>

fun register_all :: "'v list \<Rightarrow> 's \<Rightarrow> 's res" where
  "register_all [] s = Inr s"
| "register_all (v # vs) s =
     (case register v s of Inl e \<Rightarrow> Inl e | Inr s' \<Rightarrow> register_all vs s')"

lemma register_all_ok:
  "is_ok (register_all vs s) \<longleftrightarrow>
     (\<forall>v \<in> set vs. acceptable v \<and> look s (key v) = None) \<and> distinct (map key vs)"
proof (induction vs arbitrary: s)
  case Nil
  then show ?case by simp
next
  case (Cons v vs)
  show ?case
  proof (cases "register v s")
    case (Inl e)
    with register_ok [of v s] show ?thesis by auto
  next
    case (Inr s')
    with register_ok [of v s] have "acceptable v" "look s (key v) = None" by auto
    moreover have "look s' k = (if k = key v then Some v else look s k)" for k
      using Inr by (rule register_look)
    ultimately show ?thesis using Inr Cons.IH [of s']
      by (simp split: if_splits) (force simp: image_iff)
  qed
qed

lemma register_all_look:
  "register_all vs s = Inr s' \<Longrightarrow>
     look s' k = (case find (\<lambda>v. key v = k) vs of Some v \<Rightarrow> Some v | None \<Rightarrow> look s k)"
proof (induction vs arbitrary: s)
  case Nil
  then show ?case by simp
next
  case (Cons v vs)
  then obtain t where t: "register v s = Inr t" "register_all vs t = Inr s'"
    by (auto split: sum.splits)
  from t(2) have "\<forall>u \<in> set vs. look t (key u) = None"
    using register_all_ok [of vs t] by simp
  moreover have "look t (key v) = Some v" using t(1) by (simp add: register_look)
  ultimately have "\<forall>u \<in> set vs. key u \<noteq> key v" by auto
  then have "k = key v \<Longrightarrow> find (\<lambda>u. key u = k) vs = None"
    by (auto simp: find_None_iff)
  with Cons.IH [OF t(2)] t(1) show ?case
    by (auto simp: register_look split: option.splits)
qed

text \<open>The loop that registers a list and ignores every error: the first entry of a key wins.\<close>

fun register_each :: "'v list \<Rightarrow> 's \<Rightarrow> 's" where
  "register_each [] s = s"
| "register_each (v # vs) s =
     register_each vs (case register v s of Inl _ \<Rightarrow> s | Inr s' \<Rightarrow> s')"

lemma register_each_look:
  "look (register_each vs s) k =
     (case look s k of Some v \<Rightarrow> Some v
      | None \<Rightarrow> find (\<lambda>v. key v = k \<and> acceptable v) vs)"
proof (induction vs arbitrary: s)
  case Nil
  then show ?case by (simp split: option.splits)
next
  case (Cons v vs)
  show ?case
  proof (cases "register v s")
    case (Inl e)
    then have "\<not> (acceptable v \<and> look s (key v) = None)"
      using register_ok [of v s] by simp
    with Inl Cons.IH [of s] show ?thesis by (auto split: option.splits)
  next
    case (Inr s')
    then have "acceptable v" "look s (key v) = None"
      using register_ok [of v s] by auto
    with Inr Cons.IH [of s'] show ?thesis
      by (auto simp: register_look [OF Inr] split: option.splits)
  qed
qed

end

text \<open>A table whose writes overwrite: \<open>Store.Save\<close> of actions, the database tables.\<close>

locale keyed_store =
  fixes look :: "'s \<Rightarrow> string \<Rightarrow> 'v option"
    and save :: "'v \<Rightarrow> 's \<Rightarrow> 's"
    and key :: "'v \<Rightarrow> string"
  assumes look_save: "look (save v s) k = (if k = key v then Some v else look s k)"
begin

lemma save_other: "k \<noteq> key v \<Longrightarrow> look (save v s) k = look s k"
  by (simp add: look_save)

lemma look_save_all:
  "look (fold save vs s) k =
     (case find (\<lambda>v. key v = k) (rev vs) of Some v \<Rightarrow> Some v | None \<Rightarrow> look s k)"
proof (induction vs rule: rev_induct)
  case Nil
  then show ?case by simp
next
  case (snoc v vs)
  then show ?case by (auto simp: look_save)
qed

end

end
