(* ===== verification/GoStrings.thy ===== *)
theory GoStrings
  imports Prelude
begin

text \<open>
  The functions of Go's \<^verbatim>\<open>strings\<close> and \<^verbatim>\<open>strconv\<close> packages that the program calls, on byte
  strings: a Go string is a sequence of bytes, here a list of 8-bit characters.
\<close>

section \<open>White space: strings.TrimSpace\<close>

text \<open>
  \<^verbatim>\<open>strings.TrimSpace\<close> removes the runes of Unicode's White_Space property from both ends.
  Their UTF-8 encodings, in the order of the code points.
\<close>

definition space_runes :: "string list" where
  "space_runes =
     [[CHR 0x09], [CHR 0x0A], [CHR 0x0B], [CHR 0x0C], [CHR 0x0D], [CHR 0x20],
      [CHR 0xC2, CHR 0x85], [CHR 0xC2, CHR 0xA0], [CHR 0xE1, CHR 0x9A, CHR 0x80],
      [CHR 0xE2, CHR 0x80, CHR 0x80], [CHR 0xE2, CHR 0x80, CHR 0x81],
      [CHR 0xE2, CHR 0x80, CHR 0x82], [CHR 0xE2, CHR 0x80, CHR 0x83],
      [CHR 0xE2, CHR 0x80, CHR 0x84], [CHR 0xE2, CHR 0x80, CHR 0x85],
      [CHR 0xE2, CHR 0x80, CHR 0x86], [CHR 0xE2, CHR 0x80, CHR 0x87],
      [CHR 0xE2, CHR 0x80, CHR 0x88], [CHR 0xE2, CHR 0x80, CHR 0x89],
      [CHR 0xE2, CHR 0x80, CHR 0x8A], [CHR 0xE2, CHR 0x80, CHR 0xA8],
      [CHR 0xE2, CHR 0x80, CHR 0xA9], [CHR 0xE2, CHR 0x80, CHR 0xAF],
      [CHR 0xE2, CHR 0x81, CHR 0x9F], [CHR 0xE3, CHR 0x80, CHR 0x80]]"

definition has_prefix :: "string \<Rightarrow> string \<Rightarrow> bool" where
  "has_prefix s p \<longleftrightarrow> take (length p) s = p"

definition has_suffix :: "string \<Rightarrow> string \<Rightarrow> bool" where
  "has_suffix s p \<longleftrightarrow> length p \<le> length s \<and> drop (length s - length p) s = p"

definition trim_prefix :: "string \<Rightarrow> string \<Rightarrow> string" where
  "trim_prefix s p = (if has_prefix s p then drop (length p) s else s)"

fun trim_runes :: "string list \<Rightarrow> nat \<Rightarrow> string \<Rightarrow> string" where
  "trim_runes rs 0 s = s"
| "trim_runes rs (Suc n) s =
     (case find (has_prefix s) rs of
        None \<Rightarrow> s
      | Some r \<Rightarrow> trim_runes rs n (drop (length r) s))"

definition trim_left :: "string \<Rightarrow> string" where
  "trim_left s = trim_runes space_runes (length s) s"

definition trim_right :: "string \<Rightarrow> string" where
  "trim_right s = rev (trim_runes (map rev space_runes) (length s) (rev s))"

definition trim_space :: "string \<Rightarrow> string" where
  "trim_space s = trim_right (trim_left s)"

text \<open>The test \<^verbatim>\<open>strings.TrimSpace(s) == ""\<close> of the Validate methods.\<close>

definition blank :: "string \<Rightarrow> bool" where
  "blank s \<longleftrightarrow> trim_space s = []"

lemma trim_runes_Nil [simp]: "[] \<notin> set rs \<Longrightarrow> trim_runes rs n [] = []"
proof (cases n)
  case (Suc m)
  moreover assume "[] \<notin> set rs"
  then have "find (has_prefix []) rs = None"
    by (auto simp: find_None_iff has_prefix_def)
  ultimately show ?thesis by simp
qed simp

lemma space_runes_nonempty [simp]: "[] \<notin> set space_runes" "[] \<notin> rev ` set space_runes"
  by (auto simp: space_runes_def)

lemma trim_left_Nil [simp]: "trim_left [] = []" and trim_right_Nil [simp]: "trim_right [] = []"
  by (simp_all add: trim_left_def trim_right_def)

lemma blank_Nil [simp]: "blank []"
  by (simp add: blank_def trim_space_def)

text \<open>Trimming removes only bytes of the trimmed runes.\<close>

lemma trim_runes_keeps:
  "c \<in> set t \<Longrightarrow> \<forall>r \<in> set rs. c \<notin> set r \<Longrightarrow> c \<in> set (trim_runes rs n t)"
proof (induction n arbitrary: t)
  case 0
  then show ?case by simp
next
  case (Suc n)
  show ?case
  proof (cases "find (has_prefix t) rs")
    case None
    with Suc.prems show ?thesis by simp
  next
    case (Some r)
    then have "r \<in> set rs" and "has_prefix t r"
      by (auto simp: find_Some_iff)
    then have "c \<notin> set r" and "t = r @ drop (length r) t"
      using Suc.prems(2) by (auto simp: has_prefix_def) (metis append_take_drop_id)
    with Suc.prems(1) have "c \<in> set (drop (length r) t)"
      by (metis Un_iff set_append)
    with Suc Some show ?thesis by simp
  qed
qed

text \<open>A string with a byte that occurs in no white space encoding is not blank.\<close>

lemma not_blank: "c \<in> set s \<Longrightarrow> \<forall>r \<in> set space_runes. c \<notin> set r \<Longrightarrow> \<not> blank s"
proof -
  assume c: "c \<in> set s" and r: "\<forall>r \<in> set space_runes. c \<notin> set r"
  then have "c \<in> set (trim_left s)"
    by (simp add: trim_left_def trim_runes_keeps)
  with r have "c \<in> set (trim_space s)"
    by (simp add: trim_space_def trim_right_def trim_runes_keeps)
  then show ?thesis by (auto simp: blank_def)
qed

section \<open>Searching and replacing\<close>

fun contains :: "string \<Rightarrow> string \<Rightarrow> bool" where
  "contains [] p = (p = [])"
| "contains (c # s) p = (has_prefix (c # s) p \<or> contains s p)"

text \<open>
  \<^verbatim>\<open>strings.ReplaceAll(s, old, new)\<close> for an \<open>old\<close> that is not empty (the program only passes
  placeholders in double braces): leftmost occurrences first, none overlapping, and the
  inserted text is not searched again.
\<close>

function replace_all :: "string \<Rightarrow> string \<Rightarrow> string \<Rightarrow> string" where
  "replace_all [] old new = []"
| "replace_all (c # s) old new =
     (if old \<noteq> [] \<and> has_prefix (c # s) old
      then new @ replace_all (drop (length old) (c # s)) old new
      else c # replace_all s old new)"
  by pat_completeness auto
termination
  by (relation "measure (\<lambda>(s, old, new). length s)") (auto simp: Suc_le_eq)

text \<open>\<^verbatim>\<open>strings.SplitN(s, sep, 2)\<close> and \<^verbatim>\<open>strings.Split(s, sep)\<close> for a separator of one byte.\<close>

definition split_n2 :: "char \<Rightarrow> string \<Rightarrow> string list" where
  "split_n2 c s =
     (if c \<in> set s then [takeWhile (\<lambda>x. x \<noteq> c) s, tl (dropWhile (\<lambda>x. x \<noteq> c) s)] else [s])"

fun split_on :: "char \<Rightarrow> string \<Rightarrow> string list" where
  "split_on c [] = [[]]"
| "split_on c (x # s) =
     (if x = c then [] # split_on c s
      else (x # hd (split_on c s)) # tl (split_on c s))"

lemma contains_iff: "contains s p \<longleftrightarrow> (\<exists>a b. s = a @ p @ b)"
proof (induction s)
  case Nil
  then show ?case by auto
next
  case (Cons c s)
  have "has_prefix (c # s) p \<longleftrightarrow> (\<exists>b. c # s = p @ b)"
    by (metis append_eq_conv_conj append_take_drop_id has_prefix_def)
  with Cons show ?case
    by (auto simp: Cons_eq_append_conv)
qed

lemma has_prefix_append [simp]: "has_prefix (p @ s) p"
  by (simp add: has_prefix_def)

lemma trim_prefix_append [simp]: "trim_prefix (p @ s) p = s"
  by (simp add: trim_prefix_def)

lemma has_prefix_iff: "has_prefix s p \<longleftrightarrow> (\<exists>b. s = p @ b)"
  by (metis append_eq_conv_conj append_take_drop_id has_prefix_def)

text \<open>Text in which the placeholder does not occur is left alone.\<close>

lemma replace_all_absent: "\<not> contains s old \<Longrightarrow> replace_all s old new = s"
  by (induction s old new rule: replace_all.induct) (auto simp: has_prefix_def)

lemma replace_all_here:
  "old \<noteq> [] \<Longrightarrow> replace_all (old @ s) old new = new @ replace_all s old new"
  using has_prefix_append [of old s]
  by (cases "old @ s") (simp_all, metis append_eq_conv_conj)

lemma split_n2_two: "c \<notin> set a \<Longrightarrow> split_n2 c (a @ c # b) = [a, b]"
  by (induction a) (auto simp: split_n2_def)

lemma split_on_nonempty [simp]: "split_on c s \<noteq> []"
  by (induction s) auto

lemma split_on_absent: "c \<notin> set a \<Longrightarrow> split_on c a = [a]"
  by (induction a) auto

lemma split_on_append: "c \<notin> set a \<Longrightarrow> split_on c (a @ c # b) = a # split_on c b"
  by (induction a) auto

section \<open>Decimal numbers: the verb %d\<close>

definition digit :: "nat \<Rightarrow> char" where
  "digit n = char_of (n + 48)"

fun itoa_nat :: "nat \<Rightarrow> string" where
  "itoa_nat n = (if n < 10 then [digit n] else itoa_nat (n div 10) @ [digit (n mod 10)])"

declare itoa_nat.simps [simp del]

definition itoa :: "int \<Rightarrow> string" where
  "itoa i = (if i < 0 then CHR ''-'' # itoa_nat (nat (- i)) else itoa_nat (nat i))"

lemma of_char_digit: "n < 10 \<Longrightarrow> of_char (digit n) = n + 48"
  by (simp add: digit_def of_char_of)

lemma digit_inj: "m < 10 \<Longrightarrow> n < 10 \<Longrightarrow> digit m = digit n \<Longrightarrow> m = n"
  by (metis add_right_cancel of_char_digit)

lemma digit_not_dash: "n < 10 \<Longrightarrow> digit n \<noteq> CHR ''-''"
proof
  assume "n < 10" "digit n = CHR ''-''"
  then have "of_char (CHR ''-'') = n + 48" by (metis of_char_digit)
  then show False by simp
qed

lemma itoa_nat_nonempty [simp]: "itoa_nat n \<noteq> []"
  by (subst itoa_nat.simps) simp

lemma itoa_nat_inj: "itoa_nat m = itoa_nat n \<Longrightarrow> m = n"
proof (induction m arbitrary: n rule: itoa_nat.induct)
  case (1 m)
  show ?case
  proof (cases "m < 10")
    case True
    then have "itoa_nat m = [digit m]" by (simp add: itoa_nat.simps)
    with "1.prems" True show ?thesis
      by (cases "n < 10") (auto simp: itoa_nat.simps [of n] dest: digit_inj, metis itoa_nat_nonempty)
  next
    case m: False
    then have m': "itoa_nat m = itoa_nat (m div 10) @ [digit (m mod 10)]"
      by (simp add: itoa_nat.simps)
    with "1.prems" have "\<not> n < 10" by (auto simp: itoa_nat.simps [of n])
    with m' "1.prems" have eq: "itoa_nat (m div 10) = itoa_nat (n div 10)"
      "digit (m mod 10) = digit (n mod 10)"
      by (auto simp: itoa_nat.simps [of n])
    from "1.IH" [OF m eq(1)] digit_inj [OF _ _ eq(2)] have "m div 10 = n div 10" "m mod 10 = n mod 10"
      by auto
    then show ?thesis by (metis div_mult_mod_eq)
  qed
qed

lemma itoa_nat_no_dash: "CHR ''-'' \<notin> set (itoa_nat n)"
proof (induction n rule: itoa_nat.induct)
  case (1 n)
  then show ?case
    using digit_not_dash [of n] digit_not_dash [of "n mod 10"]
    by (subst itoa_nat.simps) (auto dest: not_sym)
qed

text \<open>The last dash of an identifier separates its sequence number.\<close>

lemma dash_suffix_inj:
  assumes "a @ CHR ''-'' # itoa_nat m = b @ CHR ''-'' # itoa_nat n"
  shows "a = b \<and> m = n"
proof -
  have *: "takeWhile (\<lambda>c. c \<noteq> CHR ''-'') (rev (itoa_nat k) @ CHR ''-'' # rev x) = rev (itoa_nat k)" for x k
    using itoa_nat_no_dash [of k] by (subst takeWhile_append2) auto
  have "takeWhile (\<lambda>c. c \<noteq> CHR ''-'') (rev (x @ CHR ''-'' # itoa_nat k)) = rev (itoa_nat k)" for x k
    using * [of k x] by simp
  from this [of a m] this [of b n] assms have "rev (itoa_nat m) = rev (itoa_nat n)" by metis
  then have "m = n" by (auto dest: itoa_nat_inj)
  with assms show ?thesis by simp
qed

section \<open>strconv.ParseInt in base 10\<close>

definition is_digit :: "char \<Rightarrow> bool" where
  "is_digit c \<longleftrightarrow> 48 \<le> (of_char c :: nat) \<and> (of_char c :: nat) \<le> 57"

definition parse_nat :: "string \<Rightarrow> nat option" where
  "parse_nat s =
     (if s \<noteq> [] \<and> list_all is_digit s then Some (foldl (\<lambda>n c. 10 * n + (of_char c - 48)) 0 s) else None)"

text \<open>A sign is allowed; a value outside of 64 bits is an error.\<close>

definition parse_int64 :: "string \<Rightarrow> int option" where
  "parse_int64 s =
     (case s of
        [] \<Rightarrow> None
      | c # r \<Rightarrow>
          (let neg = (c = CHR ''-''); digits = (if neg \<or> c = CHR ''+'' then r else s)
           in (case parse_nat digits of
                 None \<Rightarrow> None
               | Some n \<Rightarrow>
                   (let i = (if neg then - int n else int n)
                    in if - (2 ^ 63) \<le> i \<and> i < 2 ^ 63 then Some i else None))))"

lemma is_digit_digit: "n < 10 \<Longrightarrow> is_digit (digit n)"
  by (simp add: is_digit_def of_char_digit)

lemma itoa_nat_digits: "list_all is_digit (itoa_nat n)"
proof (induction n rule: itoa_nat.induct)
  case (1 n)
  then show ?case by (subst itoa_nat.simps) (auto simp: is_digit_digit)
qed

lemma parse_nat_itoa [simp]: "parse_nat (itoa_nat n) = Some n"
proof -
  have "foldl (\<lambda>n c. 10 * n + (of_char c - 48)) 0 (itoa_nat n) = n"
  proof (induction n rule: itoa_nat.induct)
    case (1 n)
    show ?case
    proof (cases "n < 10")
      case True
      then show ?thesis by (simp add: itoa_nat.simps [of n] of_char_digit)
    next
      case False
      with 1 show ?thesis by (simp add: itoa_nat.simps [of n] of_char_digit)
    qed
  qed
  then show ?thesis by (simp add: parse_nat_def itoa_nat_digits)
qed

lemma parse_int64_itoa: "- (2 ^ 63) \<le> i \<Longrightarrow> i < 2 ^ 63 \<Longrightarrow> parse_int64 (itoa i) = Some i"
proof -
  assume range: "- (2 ^ 63) \<le> i" "i < 2 ^ 63"
  show ?thesis
  proof (cases "i < 0")
    case True
    with range show ?thesis by (simp add: itoa_def parse_int64_def)
  next
    case False
    obtain c r where c: "itoa_nat (nat i) = c # r" by (metis itoa_nat_nonempty neq_Nil_conv)
    have "is_digit c" using itoa_nat_digits [of "nat i"] c by simp
    then have "c \<noteq> CHR ''-''" "c \<noteq> CHR ''+''" by (auto simp: is_digit_def)
    with False range c parse_nat_itoa [of "nat i"] show ?thesis by (simp add: itoa_def parse_int64_def)
  qed
qed

lemma parse_int64_range: "parse_int64 s = Some i \<Longrightarrow> - (2 ^ 63) \<le> i \<and> i < 2 ^ 63"
  by (auto simp: parse_int64_def Let_def split: list.splits option.splits if_splits)

end
