(* ===== verification/GoValues.thy ===== *)
theory GoValues
  imports GoStrings
begin

text \<open>
  Dynamic values (\<^verbatim>\<open>any\<close>), the text \<^verbatim>\<open>fmt.Sprint\<close> gives them, instants of time, and the
  signed 64-bit arithmetic of \<^verbatim>\<open>int\<close>.
\<close>

section \<open>Values of type any\<close>

text \<open>
  A finite float64 is kept as the shortest decimal that denotes it, the one \<^verbatim>\<open>strconv\<close> prints:
  \<open>Dec neg ds p\<close> is \<open>0.d\<^sub>1d\<^sub>2\<dots> * 10^p\<close> with no zero at either end of \<open>ds\<close>, and no digits
  at all for zero. The program compares and prints such numbers and computes nothing with them.
\<close>

datatype f64 = Dec bool "nat list" int | Inf bool | NaN

text \<open>
  The values that reach a payload: what JSON decodes to (\<open>VNil\<close>, \<open>VBool\<close>, \<open>VStr\<close>, \<open>VFloat\<close>,
  \<open>VMap\<close>, \<open>VSlice\<close>), integers the core puts there (\<open>VInt\<close>), and values of the named string
  types \<^verbatim>\<open>ActionRisk\<close>, \<^verbatim>\<open>ActionStatus\<close> and \<^verbatim>\<open>ActionExecutionStatus\<close> (\<open>VNamed\<close>), which a type
  switch on \<^verbatim>\<open>string\<close> does not match.
\<close>

datatype val =
    VNil
  | VBool bool
  | VStr string
  | VNamed string
  | VInt int
  | VFloat f64
  | VMap "(string \<times> val) list"
  | VSlice "val list"

type_synonym vmap = "(string \<times> val) list"

section \<open>fmt.Sprint\<close>

definition digits :: "nat list \<Rightarrow> string" where
  "digits ds = map digit ds"

text \<open>The verb \<^verbatim>\<open>%e\<close>: one digit, the others after the point, an exponent of two digits or more.\<close>

definition fmt_e :: "nat list \<Rightarrow> int \<Rightarrow> string" where
  "fmt_e ds p =
     (let e = (if ds = [] then 0 else p - 1);
          a = itoa_nat (nat \<bar>e\<bar>)
      in (case ds of [] \<Rightarrow> ''0'' | d # ds' \<Rightarrow> digit d # (if ds' = [] then [] else CHR ''.'' # digits ds'))
         @ ''e'' @ (if e < 0 then ''-'' else ''+'') @ (if length a < 2 then CHR ''0'' # a else a))"

text \<open>The verb \<^verbatim>\<open>%f\<close> with as many decimals as the number has.\<close>

definition fmt_f :: "nat list \<Rightarrow> int \<Rightarrow> string" where
  "fmt_f ds p =
     (let n = length ds;
          whole = (if p > 0 then digits (take (nat p) ds) @ replicate (nat p - n) (CHR ''0'') else ''0'');
          frac = (if p > 0 then digits (drop (nat p) ds)
                  else if ds = [] then [] else replicate (nat (- p)) (CHR ''0'') @ digits ds)
      in whole @ (if frac = [] then [] else CHR ''.'' # frac))"

text \<open>
  \<^verbatim>\<open>%v\<close> of a float64 is \<^verbatim>\<open>%g\<close> with the shortest precision, for which \<^verbatim>\<open>strconv\<close> takes the
  exponent form when the exponent is below -4 or at least 6: one million is printed 1e+06.
\<close>

definition fmt_float :: "f64 \<Rightarrow> string" where
  "fmt_float x =
     (case x of
        NaN \<Rightarrow> ''NaN''
      | Inf neg \<Rightarrow> (if neg then ''-Inf'' else ''+Inf'')
      | Dec neg ds p \<Rightarrow>
          (if neg then ''-'' else '''') @
          (if p - 1 < - 4 \<or> 6 \<le> p - 1 then fmt_e ds p else fmt_f ds p))"

fun str_less :: "string \<Rightarrow> string \<Rightarrow> bool" where
  "str_less _ [] = False"
| "str_less [] (_ # _) = True"
| "str_less (a # s) (b # t) =
     (if a = b then str_less s t else (of_char a :: nat) < of_char b)"

fun insert_key :: "string \<times> 'a \<Rightarrow> (string \<times> 'a) list \<Rightarrow> (string \<times> 'a) list" where
  "insert_key kv [] = [kv]"
| "insert_key kv (x # xs) = (if str_less (fst x) (fst kv) then x # insert_key kv xs else kv # x # xs)"

text \<open>\<^verbatim>\<open>fmt\<close> prints the entries of a map in the order of their keys.\<close>

definition sort_keys :: "(string \<times> 'a) list \<Rightarrow> (string \<times> 'a) list" where
  "sort_keys xs = foldr insert_key xs []"

lemma str_less_irrefl [simp]: "\<not> str_less s s"
  by (induction s) auto

lemma str_less_trans: "str_less a b \<Longrightarrow> str_less b c \<Longrightarrow> str_less a c"
proof (induction a b arbitrary: c rule: str_less.induct)
  case (3 x s y t)
  then show ?case by (cases c) (auto split: if_splits)
qed (auto elim: str_less.elims)

lemma str_less_linear: "str_less a b \<or> a = b \<or> str_less b a"
proof (induction a b rule: str_less.induct)
  case (1 a)
  then show ?case by (cases a) auto
next
  case (3 x s y t)
  have "x \<noteq> y \<Longrightarrow> (of_char x :: nat) < of_char y \<or> (of_char y :: nat) < of_char x"
    by (metis char_of_char linorder_neqE_nat)
  with 3 show ?case by auto
qed simp

lemma mset_insert_key [simp]: "mset (insert_key kv xs) = add_mset kv (mset xs)"
  by (induction xs) auto

lemma mset_sort_keys [simp]: "mset (sort_keys xs) = mset xs"
  unfolding sort_keys_def by (induction xs) auto

lemma set_sort_keys [simp]: "set (sort_keys xs) = set xs"
  by (metis mset_sort_keys set_mset_mset)

lemma length_sort_keys [simp]: "length (sort_keys xs) = length xs"
  by (metis mset_sort_keys size_mset)

abbreviation key_sorted :: "(string \<times> 'a) list \<Rightarrow> bool" where
  "key_sorted xs \<equiv> sorted_wrt str_less (map fst xs)"

lemma set_insert_key [simp]: "set (insert_key kv xs) = insert kv (set xs)"
  by (metis mset_insert_key set_mset_add_mset_insert set_mset_mset)

lemma key_sorted_insert:
  assumes "key_sorted xs" "fst kv \<notin> fst ` set xs"
  shows "key_sorted (insert_key kv xs)"
  using assms
proof (induction xs)
  case (Cons x xs)
  then show ?case
    using str_less_linear [of "fst x" "fst kv"] by (auto intro: str_less_trans)
qed simp

lemma key_sorted_sort: "wf_map xs \<Longrightarrow> key_sorted (sort_keys xs)"
proof (induction xs)
  case (Cons x xs)
  then have "key_sorted (sort_keys xs)" "fst x \<notin> fst ` set (sort_keys xs)"
    by (auto simp: wf_map_def)
  then show ?case using key_sorted_insert [of "sort_keys xs" x] by (simp add: sort_keys_def)
qed (simp add: sort_keys_def)

text \<open>There is one list with given entries in the order of their keys.\<close>

lemma key_sorted_unique: "key_sorted xs \<Longrightarrow> key_sorted ys \<Longrightarrow> set xs = set ys \<Longrightarrow> xs = ys"
proof (induction xs arbitrary: ys)
  case (Cons x xs)
  then obtain y ys' where ys: "ys = y # ys'" by (cases ys) auto
  have first: "str_less (fst x) (fst z)" if "z \<in> set xs" for z using Cons.prems(1) that by auto
  have first': "str_less (fst y) (fst z)" if "z \<in> set ys'" for z using Cons.prems(2) ys that by auto
  have "x = y"
  proof (rule ccontr)
    assume "x \<noteq> y"
    with Cons.prems(3) ys have "x \<in> set ys'" "y \<in> set xs" by auto
    with first first' have "str_less (fst x) (fst x)" by (blast intro: str_less_trans)
    then show False by simp
  qed
  moreover have "x \<notin> set xs" "y \<notin> set ys'" using first first' str_less_irrefl by blast+
  ultimately have "set xs = set ys'" using Cons.prems(3) ys by auto
  with Cons ys \<open>x = y\<close> show ?case by auto
qed simp

fun joined :: "string \<Rightarrow> string list \<Rightarrow> string" where
  "joined sep [] = []"
| "joined sep [x] = x"
| "joined sep (x # y # xs) = x @ sep @ joined sep (y # xs)"

fun sprint :: "val \<Rightarrow> string" where
  "sprint VNil = ''<nil>''"
| "sprint (VBool b) = (if b then ''true'' else ''false'')"
| "sprint (VStr s) = s"
| "sprint (VNamed s) = s"
| "sprint (VInt i) = itoa i"
| "sprint (VFloat x) = fmt_float x"
| "sprint (VMap m) =
     ''map['' @ joined '' '' (map (\<lambda>kv. fst kv @ '':'' @ snd kv)
       (sort_keys (map (\<lambda>kv. (fst kv, sprint (snd kv))) m))) @ '']''"
| "sprint (VSlice xs) = ''['' @ joined '' '' (map sprint xs) @ '']''"

section \<open>The text of an error\<close>

fun error_text :: "error \<Rightarrow> string" where
  "error_text (New s) = s"
| "error_text (Wrap p e s) = p @ error_text e @ s"
| "error_text (Joined es) = joined [CHR 0x0A] (map error_text es)"
| "error_text (RPC c m) = ''jsonrpc error '' @ itoa c @ '': '' @ m"

section \<open>Instants\<close>

text \<open>
  A \<^verbatim>\<open>time.Time\<close> is the number of nanoseconds since 1 January of year 1, 00:00 UTC, and the
  offset in seconds of the zone it is displayed in. The zero value is the zero instant.
\<close>

record gotime =
  t_ns :: int
  t_off :: int

definition zero_time :: gotime where
  "zero_time = \<lparr>t_ns = 0, t_off = 0\<rparr>"

definition utc :: "int \<Rightarrow> gotime" where
  "utc n = \<lparr>t_ns = n, t_off = 0\<rparr>"

definition is_zero :: "gotime \<Rightarrow> bool" where
  "is_zero t \<longleftrightarrow> t_ns t = 0"

lemma is_zero_simps [simp]: "is_zero zero_time" "is_zero (utc n) \<longleftrightarrow> n = 0"
  by (simp_all add: is_zero_def zero_time_def utc_def)

section \<open>Signed 64-bit integers\<close>

definition wrap64 :: "int \<Rightarrow> int" where
  "wrap64 i = (i + 2 ^ 63) mod 2 ^ 64 - 2 ^ 63"

definition in_int64 :: "int \<Rightarrow> bool" where
  "in_int64 i \<longleftrightarrow> - (2 ^ 63) \<le> i \<and> i < 2 ^ 63"

lemma wrap64_id: "in_int64 i \<Longrightarrow> wrap64 i = i"
  by (simp add: wrap64_def in_int64_def)

lemma in_int64_wrap64 [simp]: "in_int64 (wrap64 i)"
proof -
  have "0 \<le> (i + 2 ^ 63) mod 2 ^ 64" and "(i + 2 ^ 63) mod 2 ^ 64 < (2 ^ 64 :: int)"
    by simp_all
  then show ?thesis by (simp add: wrap64_def in_int64_def)
qed

text \<open>\<^verbatim>\<open>t.UnixNano()\<close>.\<close>

definition unix_nano :: "gotime \<Rightarrow> int" where
  "unix_nano t = wrap64 (t_ns t - 62135596800 * 10 ^ 9)"

end
