(* ===== verification/Types.thy ===== *)
theory Types
  imports GoValues
begin

text \<open>
  The public domain types of \<^verbatim>\<open>pkg/types\<close> and their \<^verbatim>\<open>Validate\<close> methods: a method returns the
  error of the first check that fails, or nothing. The named string types (risk, status,
  direction, kind, mode) stay strings, since any text can be decoded into them and the
  methods are what rejects the texts that are no constant of the type.
\<close>

section \<open>event.go\<close>

record event =
  evID :: string
  evType :: string
  evSource :: string
  evSessionID :: string
  evTraceID :: string
  evDepth :: int
  evPayload :: vmap
  evCreatedAt :: gotime

definition event_validate :: "event \<Rightarrow> error option" where
  "event_validate e =
     (if blank (evID e) then Some (New ''event id is required'')
      else if blank (evType e) then Some (New ''event type is required'')
      else if blank (evSource e) then Some (New ''event source is required'')
      else if is_zero (evCreatedAt e) then Some (New ''event createdAt is required'')
      else None)"

lemma event_valid_iff [valid_simps]:
  "event_validate e = None \<longleftrightarrow>
     \<not> blank (evID e) \<and> \<not> blank (evType e) \<and> \<not> blank (evSource e) \<and> \<not> is_zero (evCreatedAt e)"
  by (simp add: event_validate_def)

section \<open>suggestion.go\<close>

record suggestion =
  sgID :: string
  sgSessionID :: string
  sgText :: string
  sgConfidence :: f64
  sgReason :: string
  sgTone :: string
  sgAction :: string
  sgMetadata :: vmap
  sgCreatedAt :: gotime

text \<open>
  The comparisons with 0 and 1 on the decimal form of a float64; both are false for NaN,
  which the range check therefore accepts.
\<close>

definition f64_neg :: "f64 \<Rightarrow> bool" where
  "f64_neg x = (case x of Dec neg ds p \<Rightarrow> neg \<and> ds \<noteq> [] | Inf neg \<Rightarrow> neg | NaN \<Rightarrow> False)"

definition f64_gt1 :: "f64 \<Rightarrow> bool" where
  "f64_gt1 x =
     (case x of
        Dec neg ds p \<Rightarrow> \<not> neg \<and> ds \<noteq> [] \<and> (p > 1 \<or> p = 1 \<and> ds \<noteq> [1])
      | Inf neg \<Rightarrow> \<not> neg
      | NaN \<Rightarrow> False)"

definition suggestion_actions :: "string list" where
  "suggestion_actions = [''respond'', ''wait'', ''ask_user'', ''ignore'']"

definition suggestion_validate :: "suggestion \<Rightarrow> error option" where
  "suggestion_validate s =
     (if blank (sgID s) then Some (New ''suggestion id is required'')
      else if blank (sgSessionID s) then Some (New ''suggestion sessionId is required'')
      else if f64_neg (sgConfidence s) \<or> f64_gt1 (sgConfidence s)
      then Some (New ''suggestion confidence must be between 0 and 1'')
      else if sgAction s \<notin> set suggestion_actions then Some (New ''suggestion action is invalid'')
      else if sgAction s = ''respond'' \<and> blank (sgText s)
      then Some (New ''suggestion text is required for respond action'')
      else if is_zero (sgCreatedAt s) then Some (New ''suggestion createdAt is required'')
      else None)"

section \<open>action.go\<close>

definition risks :: "string list" where
  "risks = [''low'', ''medium'', ''high'']"

definition action_statuses :: "string list" where
  "action_statuses = [''requested'', ''allowed'', ''confirmed'', ''denied'', ''executed'', ''failed'']"

record action =
  acID :: string
  acType :: string
  acRisk :: string
  acStatus :: string
  acSource :: string
  acSessionID :: string
  acTraceID :: string
  acDepth :: int
  acPayload :: vmap
  acCreatedAt :: gotime

definition action_validate :: "action \<Rightarrow> error option" where
  "action_validate a =
     (if blank (acID a) then Some (New ''action id is required'')
      else if blank (acType a) then Some (New ''action type is required'')
      else if blank (acSource a) then Some (New ''action source is required'')
      else if acRisk a \<notin> set risks then Some (New ''action risk is invalid'')
      else if acStatus a \<notin> set action_statuses then Some (New ''action status is invalid'')
      else if is_zero (acCreatedAt a) then Some (New ''action createdAt is required'')
      else None)"

lemma action_valid_iff [valid_simps]:
  "action_validate a = None \<longleftrightarrow>
     \<not> blank (acID a) \<and> \<not> blank (acType a) \<and> \<not> blank (acSource a) \<and> acRisk a \<in> set risks \<and>
     acStatus a \<in> set action_statuses \<and> \<not> is_zero (acCreatedAt a)"
  by (simp add: action_validate_def)

section \<open>action_execution.go\<close>

record execution =
  xcID :: string
  xcActionID :: string
  xcType :: string
  xcStatus :: string
  xcDryRun :: bool
  xcInput :: vmap
  xcResult :: vmap
  xcError :: string
  xcCreatedAt :: gotime
  xcCompletedAt :: gotime

definition zero_execution :: execution where
  "zero_execution =
     \<lparr>xcID = [], xcActionID = [], xcType = [], xcStatus = [], xcDryRun = False, xcInput = [],
      xcResult = [], xcError = [], xcCreatedAt = zero_time, xcCompletedAt = zero_time\<rparr>"

definition execution_statuses :: "string list" where
  "execution_statuses = [''completed'', ''failed'', ''skipped'']"

definition execution_validate :: "execution \<Rightarrow> error option" where
  "execution_validate x =
     (if blank (xcID x) then Some (New ''action execution id is required'')
      else if blank (xcActionID x) then Some (New ''action execution actionId is required'')
      else if blank (xcType x) then Some (New ''action execution type is required'')
      else if xcStatus x \<notin> set execution_statuses
      then Some (New ''action execution status is invalid'')
      else if is_zero (xcCreatedAt x) then Some (New ''action execution createdAt is required'')
      else None)"

lemma execution_valid_iff [valid_simps]:
  "execution_validate x = None \<longleftrightarrow>
     \<not> blank (xcID x) \<and> \<not> blank (xcActionID x) \<and> \<not> blank (xcType x) \<and>
     xcStatus x \<in> set execution_statuses \<and> \<not> is_zero (xcCreatedAt x)"
  by (simp add: execution_validate_def)

definition workflow_action_types :: "string list" where
  "workflow_action_types = [''send_message'', ''run_command'', ''call_plugin'', ''emit_event'']"

definition is_workflow_action_type :: "string \<Rightarrow> bool" where
  "is_workflow_action_type t \<longleftrightarrow> t \<in> set workflow_action_types"

section \<open>plugin.go\<close>

record capability =
  cpName :: string
  cpInputSchema :: vmap
  cpOutputSchema :: vmap

definition capability_validate :: "capability \<Rightarrow> error option" where
  "capability_validate c =
     (if blank (cpName c) then Some (New ''capability name is required'') else None)"

definition plugin_kinds :: "string list" where
  "plugin_kinds =
     [''input'', ''output'', ''ai'', ''memory'', ''ui'', ''policy'', ''tool'', ''profile'']"

record manifest =
  mfID :: string
  mfName :: string
  mfVersion :: string
  mfRuntime :: string
  mfEntry :: string
  mfKind :: string
  mfPermissions :: "string list"
  mfCapabilities :: "capability list"

text \<open>The loop over a slice that returns the first error.\<close>

fun first_error :: "('a \<Rightarrow> error option) \<Rightarrow> 'a list \<Rightarrow> error option" where
  "first_error f [] = None"
| "first_error f (x # xs) = (case f x of Some e \<Rightarrow> Some e | None \<Rightarrow> first_error f xs)"

lemma first_error_None: "first_error f xs = None \<longleftrightarrow> (\<forall>x \<in> set xs. f x = None)"
  by (induction xs) (auto split: option.splits)

definition manifest_validate :: "manifest \<Rightarrow> error option" where
  "manifest_validate m =
     (if blank (mfID m) then Some (New ''plugin id is required'')
      else if blank (mfName m) then Some (New ''plugin name is required'')
      else if blank (mfVersion m) then Some (New ''plugin version is required'')
      else if blank (mfRuntime m) then Some (New ''plugin runtime is required'')
      else if mfKind m \<notin> set plugin_kinds then Some (New ''plugin kind is invalid'')
      else case first_error capability_validate (mfCapabilities m) of
        Some e \<Rightarrow> Some e
      | None \<Rightarrow>
          first_error (\<lambda>p. if blank p then Some (New ''plugin permission cannot be empty'') else None)
            (mfPermissions m))"

lemma manifest_valid_iff [valid_simps]:
  "manifest_validate m = None \<longleftrightarrow>
     \<not> blank (mfID m) \<and> \<not> blank (mfName m) \<and> \<not> blank (mfVersion m) \<and> \<not> blank (mfRuntime m) \<and>
     mfKind m \<in> set plugin_kinds \<and> (\<forall>c \<in> set (mfCapabilities m). \<not> blank (cpName c)) \<and>
     (\<forall>p \<in> set (mfPermissions m). \<not> blank p)"
proof -
  have caps: "first_error capability_validate cs = None \<longleftrightarrow> (\<forall>c \<in> set cs. \<not> blank (cpName c))" for cs
    by (simp add: capability_validate_def first_error_None)
  have perms: "first_error (\<lambda>p. if blank p then Some (New t) else None) ps = None \<longleftrightarrow> (\<forall>p \<in> set ps. \<not> blank p)"
    for ps t by (simp add: first_error_None)
  show ?thesis
    by (simp add: manifest_validate_def caps [symmetric] perms split: option.splits)
qed

section \<open>session.go\<close>

record message =
  msID :: string
  msSessionID :: string
  msAuthorID :: string
  msText :: string
  msDirection :: string
  msSource :: string
  msMetadata :: vmap
  msCreatedAt :: gotime

definition message_validate :: "message \<Rightarrow> error option" where
  "message_validate m =
     (if blank (msID m) then Some (New ''message id is required'')
      else if blank (msSessionID m) then Some (New ''message sessionId is required'')
      else if blank (msAuthorID m) then Some (New ''message authorId is required'')
      else if blank (msSource m) then Some (New ''message source is required'')
      else if msDirection m \<noteq> ''inbound'' \<and> msDirection m \<noteq> ''outbound''
      then Some (New ''message direction is invalid'')
      else if is_zero (msCreatedAt m) then Some (New ''message createdAt is required'')
      else None)"

record participant =
  ptID :: string
  ptDisplayName :: string
  ptRole :: string
  ptMetadata :: vmap

record session =
  ssID :: string
  ssChannel :: string
  ssParticipants :: "participant list"
  ssMessages :: "message list"
  ssState :: string
  ssMetadata :: vmap
  ssCreatedAt :: gotime
  ssUpdatedAt :: gotime

definition zero_session :: session where
  "zero_session =
     \<lparr>ssID = [], ssChannel = [], ssParticipants = [], ssMessages = [], ssState = [],
      ssMetadata = [], ssCreatedAt = zero_time, ssUpdatedAt = zero_time\<rparr>"

definition session_validate :: "session \<Rightarrow> error option" where
  "session_validate s =
     (if blank (ssID s) then Some (New ''session id is required'')
      else if blank (ssChannel s) then Some (New ''session channel is required'')
      else if is_zero (ssCreatedAt s) then Some (New ''session createdAt is required'')
      else if is_zero (ssUpdatedAt s) then Some (New ''session updatedAt is required'')
      else None)"

lemma session_valid_iff [valid_simps]:
  "session_validate s = None \<longleftrightarrow>
     \<not> blank (ssID s) \<and> \<not> blank (ssChannel s) \<and> \<not> is_zero (ssCreatedAt s) \<and> \<not> is_zero (ssUpdatedAt s)"
  by (simp add: session_validate_def)

section \<open>workflow.go\<close>

record condition =
  cnField :: string
  cnOperator :: string
  cnValue :: string

record trigger =
  tgEventType :: string
  tgSource :: string
  tgConditions :: "condition list"

record wf_action =
  waType :: string
  waRisk :: string
  waPayload :: vmap

record rule =
  rlID :: string
  rlName :: string
  rlEnabled :: bool
  rlTrigger :: trigger
  rlAction :: "wf_action option"
  rlActions :: "wf_action list"

record workflow =
  wfID :: string
  wfName :: string
  wfEnabled :: bool
  wfRules :: "rule list"

definition get_actions :: "rule \<Rightarrow> wf_action list" where
  "get_actions r =
     (if length (rlActions r) > 0 then rlActions r
      else case rlAction r of Some a \<Rightarrow> [a] | None \<Rightarrow> [])"

definition wf_action_validate :: "wf_action \<Rightarrow> error option" where
  "wf_action_validate a =
     (if blank (waType a) then Some (New ''workflow action type is required'')
      else if waRisk a \<notin> set risks then Some (New ''workflow action risk is invalid'')
      else None)"

definition rule_validate :: "rule \<Rightarrow> error option" where
  "rule_validate r =
     (if blank (rlID r) then Some (New ''workflow rule id is required'')
      else if blank (tgEventType (rlTrigger r))
      then Some (New ''workflow trigger eventType is required'')
      else if length (get_actions r) = 0 then Some (New ''workflow requires at least one action'')
      else first_error wf_action_validate (get_actions r))"

lemma rule_valid_iff [valid_simps]:
  "rule_validate r = None \<longleftrightarrow>
     \<not> blank (rlID r) \<and> \<not> blank (tgEventType (rlTrigger r)) \<and> get_actions r \<noteq> [] \<and>
     (\<forall>a \<in> set (get_actions r). \<not> blank (waType a) \<and> waRisk a \<in> set risks)"
  by (auto simp: rule_validate_def wf_action_validate_def first_error_None split: if_splits)

text \<open>The loop of \<^verbatim>\<open>Workflow.Validate\<close>, with the set of identifiers seen so far.\<close>

fun rules_validate :: "string list \<Rightarrow> rule list \<Rightarrow> error option" where
  "rules_validate seen [] = None"
| "rules_validate seen (r # rs) =
     (case rule_validate r of
        Some e \<Rightarrow> Some e
      | None \<Rightarrow>
          if rlID r \<in> set seen then Some (New ''workflow rule id must be unique'')
          else rules_validate (rlID r # seen) rs)"

definition workflow_validate :: "workflow \<Rightarrow> error option" where
  "workflow_validate w =
     (if blank (wfID w) then Some (New ''workflow id is required'')
      else if length (wfRules w) = 0 then Some (New ''workflow requires at least one rule'')
      else rules_validate [] (wfRules w))"

lemma rules_validate_None:
  "rules_validate seen rs = None \<longleftrightarrow>
     (\<forall>r \<in> set rs. rule_validate r = None \<and> rlID r \<notin> set seen) \<and> distinct (map rlID rs)"
proof (induction rs arbitrary: seen)
  case Nil
  then show ?case by simp
next
  case (Cons r rs)
  show ?case
    by (simp add: Cons.IH split: option.splits) (auto simp: image_iff)
qed

lemma workflow_valid_iff [valid_simps]:
  "workflow_validate w = None \<longleftrightarrow>
     \<not> blank (wfID w) \<and> wfRules w \<noteq> [] \<and> (\<forall>r \<in> set (wfRules w). rule_validate r = None) \<and>
     distinct (map rlID (wfRules w))"
  by (auto simp: workflow_validate_def rules_validate_None)

text \<open>\<^verbatim>\<open>Workflow.EnabledRules\<close>.\<close>

definition enabled_rules :: "workflow \<Rightarrow> rule list" where
  "enabled_rules w = (if \<not> wfEnabled w then [] else filter rlEnabled (wfRules w))"

subsection \<open>Matching\<close>

text \<open>The text a condition looks at, or nothing when the field is not supported.\<close>

definition condition_actual :: "condition \<Rightarrow> event \<Rightarrow> session \<Rightarrow> string option" where
  "condition_actual c e s =
     (if cnField c = ''sessionId'' \<or> cnField c = ''session.id'' then Some (evSessionID e)
      else if cnField c = ''session.channel'' then Some (ssChannel s)
      else if cnField c = ''session.state'' then Some (ssState s)
      else if has_prefix (cnField c) ''session.metadata.'' then
        (let key = trim_prefix (cnField c) ''session.metadata.''
         in Some (case map_of (ssMetadata s) key of Some v \<Rightarrow> sprint v | None \<Rightarrow> []))
      else if has_prefix (cnField c) ''payload.'' then
        (let key = trim_prefix (cnField c) ''payload.''
         in Some (case map_of (evPayload e) key of Some v \<Rightarrow> sprint v | None \<Rightarrow> []))
      else None)"

definition condition_holds :: "string \<Rightarrow> string \<Rightarrow> string \<Rightarrow> bool" where
  "condition_holds operator actual v =
     (if operator = ''equals'' \<or> operator = ''=='' then actual = v
      else if operator = ''not_equals'' \<or> operator = ''!='' then actual \<noteq> v
      else if operator = ''contains'' then contains actual v
      else if operator = ''not_contains'' then \<not> contains actual v
      else if operator = ''starts_with'' then has_prefix actual v
      else if operator = ''ends_with'' then has_suffix actual v
      else False)"

definition condition_matches :: "condition \<Rightarrow> event \<Rightarrow> session \<Rightarrow> bool" where
  "condition_matches c e s =
     (case condition_actual c e s of
        None \<Rightarrow> False
      | Some actual \<Rightarrow> condition_holds (cnOperator c) actual (cnValue c))"

definition rule_matches :: "rule \<Rightarrow> event \<Rightarrow> session \<Rightarrow> bool" where
  "rule_matches r e s =
     (if \<not> rlEnabled r then False
      else if tgEventType (rlTrigger r) \<noteq> ''*'' \<and> tgEventType (rlTrigger r) \<noteq> evType e then False
      else if tgSource (rlTrigger r) \<noteq> [] \<and> tgSource (rlTrigger r) \<noteq> evSource e then False
      else list_all (\<lambda>c. condition_matches c e s) (tgConditions (rlTrigger r)))"

end
