(* ===== verification/Gate.thy ===== *)
theory Gate
  imports Types
begin

text \<open>
  The action gate of \<^verbatim>\<open>internal/actions/gate.go\<close>: the runtime mode and the risk of an action
  decide whether it is allowed at once, waits for a confirmation or is denied.
\<close>

type_synonym mode = string

definition mode_dev :: mode where "mode_dev = ''dev''"
definition mode_local :: mode where "mode_local = ''local''"
definition mode_strict :: mode where "mode_strict = ''strict''"

lemmas mode_defs = mode_dev_def mode_local_def mode_strict_def

definition err_action_denied :: error where
  "err_action_denied = New ''action denied by gate''"

definition decide_dev :: "action \<Rightarrow> string \<times> error option" where
  "decide_dev a = (''allowed'', None)"

definition decide_local :: "action \<Rightarrow> string \<times> error option" where
  "decide_local a =
     (if acRisk a = ''low'' then (''allowed'', None)
      else if acRisk a = ''medium'' then (''confirmed'', None)
      else if acRisk a = ''high'' then (''denied'', Some err_action_denied)
      else (''denied'', Some err_action_denied))"

definition decide_strict :: "action \<Rightarrow> string \<times> error option" where
  "decide_strict a =
     (if acRisk a = ''low'' then (''confirmed'', None)
      else if acRisk a = ''medium'' \<or> acRisk a = ''high'' then (''denied'', Some err_action_denied)
      else (''denied'', Some err_action_denied))"

definition gate_decide :: "mode \<Rightarrow> action \<Rightarrow> string \<times> error option" where
  "gate_decide m a =
     (case action_validate a of
        Some e \<Rightarrow> ([], Some (Wrap ''invalid action: '' e []))
      | None \<Rightarrow>
          if m = mode_dev then decide_dev a
          else if m = mode_local then decide_local a
          else if m = mode_strict then decide_strict a
          else ([], Some (New (''unknown runtime mode: '' @ m))))"

lemmas gate_defs = gate_decide_def decide_dev_def decide_local_def decide_strict_def mode_defs

section \<open>The policy as a table\<close>

text \<open>
  What the gate is meant to do, as the table of \<^verbatim>\<open>docs/architecture/action-gate.md\<close>: how
  permissive a decision is, how strict a mode, how risky a risk.
\<close>

definition permission :: "string \<Rightarrow> nat" where
  "permission status = (if status = ''allowed'' then 2 else if status = ''confirmed'' then 1 else 0)"

definition strictness :: "mode \<Rightarrow> nat" where
  "strictness m = (if m = mode_dev then 0 else if m = mode_local then 1 else 2)"

definition risk_level :: "string \<Rightarrow> nat" where
  "risk_level r = (if r = ''low'' then 0 else if r = ''medium'' then 1 else 2)"

definition policy :: "mode \<Rightarrow> string \<Rightarrow> nat" where
  "policy m r =
     (if strictness m = 0 then 2 else 3 - (strictness m + risk_level r))"

lemma risk_cases: "r \<in> set risks \<Longrightarrow> r = ''low'' \<or> r = ''medium'' \<or> r = ''high''"
  by (simp add: risks_def)

lemma policy_antimono:
  "strictness m \<le> strictness m' \<Longrightarrow> risk_level r \<le> risk_level r' \<Longrightarrow> policy m' r' \<le> policy m r"
  unfolding policy_def by (cases "strictness m") auto

lemma gate_policy:
  assumes "action_validate a = None" and "m \<in> {mode_dev, mode_local, mode_strict}"
  shows "permission (fst (gate_decide m a)) = policy m (acRisk a)"
proof -
  from assms(1) have "acRisk a = ''low'' \<or> acRisk a = ''medium'' \<or> acRisk a = ''high''"
    using risk_cases by (simp add: action_valid_iff)
  with assms show ?thesis
    by (auto simp: gate_defs permission_def policy_def strictness_def risk_level_def)
qed

text \<open>The gate rejects with no decision exactly the actions it cannot judge.\<close>

lemma gate_undecided:
  "fst (gate_decide m a) = [] \<longleftrightarrow>
     action_validate a \<noteq> None \<or> m \<notin> {mode_dev, mode_local, mode_strict}"
  by (auto simp: gate_defs split: option.splits)

lemma gate_status: "fst (gate_decide m a) \<in> {[], ''allowed'', ''confirmed'', ''denied''}"
  by (auto simp: gate_defs split: option.splits)

lemma gate_err_denied:
  "snd (gate_decide m a) \<noteq> None \<longleftrightarrow> fst (gate_decide m a) = [] \<or> fst (gate_decide m a) = ''denied''"
  by (auto simp: gate_defs split: option.splits)

lemma gate_allowed_valid: "fst (gate_decide m a) = ''allowed'' \<Longrightarrow> action_validate a = None"
  by (auto simp: gate_defs split: option.splits)

lemma gate_decided_valid: "fst (gate_decide m a) \<noteq> [] \<Longrightarrow> action_validate a = None"
  by (simp add: gate_undecided)

end
