(* ===== verification/Config.thy ===== *)
theory Config
  imports Gate
begin

text \<open>
  The configuration, \<^verbatim>\<open>internal/config/config.go\<close>: its types, the defaults, validation, loading
  and the environment variables in the settings of a plugin. Reading a file and decoding JSON
  into a configuration that already holds the defaults are arguments of \<open>load_config\<close>.
\<close>

text \<open>A \<^verbatim>\<open>Duration\<close> is a signed 64-bit number of nanoseconds.\<close>

definition seconds :: "int \<Rightarrow> int" where
  "seconds n = n * 10 ^ 9"

record runtime_config =
  rcRequestTimeout :: int
  rcHealthTimeout :: int
  rcMaxPayloadSize :: int
  rcMaxEventsPerSecond :: int
  rcLogPath :: string

record control_config =
  ccEnabled :: bool
  ccAddr :: string

record plugin_config =
  pcManifest :: string
  pcEnabled :: bool
  pcEnv :: "string gomap"
  pcConfig :: vmap
  pcInline :: "manifest option"

record config =
  cfMode :: mode
  cfRuntime :: runtime_config
  cfSQLitePath :: string
  cfControl :: control_config
  cfPlugins :: "plugin_config list"
  cfWorkflows :: "workflow list"

definition default_config :: config where
  "default_config =
     \<lparr>cfMode = mode_dev,
      cfRuntime = \<lparr>rcRequestTimeout = seconds 10, rcHealthTimeout = seconds 2,
                   rcMaxPayloadSize = 1024 * 1024, rcMaxEventsPerSecond = 50, rcLogPath = []\<rparr>,
      cfSQLitePath = [], cfControl = \<lparr>ccEnabled = False, ccAddr = []\<rparr>,
      cfPlugins = [], cfWorkflows = []\<rparr>"

section \<open>Validation\<close>

text \<open>
  The range over the environment stops at the first blank key; as every blank key gives the
  same error, the order of the range does not show.
\<close>

definition plugin_config_validate :: "plugin_config \<Rightarrow> error option" where
  "plugin_config_validate p =
     (if blank (pcManifest p) \<and> pcInline p = None
      then Some (New ''plugin manifest or inline manifest is required'')
      else if list_ex (\<lambda>kv. blank (fst kv)) (pcEnv p)
      then Some (New ''plugin env key cannot be empty'')
      else (case pcInline p of None \<Rightarrow> None | Some m \<Rightarrow> manifest_validate m))"

definition config_validate :: "config \<Rightarrow> error option" where
  "config_validate c =
     (if cfMode c \<notin> {mode_dev, mode_local, mode_strict} then Some (New ''config mode is invalid'')
      else if rcRequestTimeout (cfRuntime c) \<le> 0
      then Some (New ''runtime requestTimeout must be greater than zero'')
      else if rcHealthTimeout (cfRuntime c) \<le> 0
      then Some (New ''runtime healthTimeout must be greater than zero'')
      else if rcMaxPayloadSize (cfRuntime c) \<le> 0
      then Some (New ''runtime maxPayloadSize must be greater than zero'')
      else if rcMaxEventsPerSecond (cfRuntime c) \<le> 0
      then Some (New ''runtime maxEventsPerSecond must be greater than zero'')
      else (case first_error plugin_config_validate (cfPlugins c) of
              Some e \<Rightarrow> Some e
            | None \<Rightarrow> first_error workflow_validate (cfWorkflows c)))"

definition load_config ::
  "(string \<Rightarrow> string res) \<Rightarrow> (string \<Rightarrow> config \<Rightarrow> config res) \<Rightarrow> string \<Rightarrow> config res" where
  "load_config read_file decode path =
     (if blank path then
        (case config_validate default_config of Some e \<Rightarrow> Inl e | None \<Rightarrow> Inr default_config)
      else (case read_file path of
              Inl e \<Rightarrow> Inl (Wrap ''read config: '' e [])
            | Inr data \<Rightarrow>
                (case decode data default_config of
                   Inl e \<Rightarrow> Inl (Wrap ''parse config: '' e [])
                 | Inr cfg \<Rightarrow>
                     (case config_validate cfg of
                        Some e \<Rightarrow> Inl e
                      | None \<Rightarrow> Inr cfg))))"

lemma config_valid_iff [valid_simps]:
  "config_validate c = None \<longleftrightarrow>
     cfMode c \<in> {mode_dev, mode_local, mode_strict} \<and>
     0 < rcRequestTimeout (cfRuntime c) \<and> 0 < rcHealthTimeout (cfRuntime c) \<and>
     0 < rcMaxPayloadSize (cfRuntime c) \<and> 0 < rcMaxEventsPerSecond (cfRuntime c) \<and>
     (\<forall>p \<in> set (cfPlugins c). plugin_config_validate p = None) \<and>
     (\<forall>w \<in> set (cfWorkflows c). workflow_validate w = None)"
  by (simp add: config_validate_def first_error_None [symmetric] not_le split: option.split)

lemma default_config_valid: "config_validate default_config = None"
  by (simp add: config_valid_iff default_config_def seconds_def)

lemma load_config_valid: "load_config read_file decode path = Inr c \<Longrightarrow> config_validate c = None"
  by (auto simp: load_config_def default_config_valid split: if_splits sum.splits option.splits)

section \<open>Environment references\<close>

definition ident_start :: "char \<Rightarrow> bool" where
  "ident_start c \<longleftrightarrow>
     (let n = (of_char c :: nat) in 65 \<le> n \<and> n \<le> 90 \<or> 97 \<le> n \<and> n \<le> 122 \<or> n = 95)"

definition ident_char :: "char \<Rightarrow> bool" where
  "ident_char c \<longleftrightarrow> ident_start c \<or> (let n = (of_char c :: nat) in 48 \<le> n \<and> n \<le> 57)"

text \<open>
  A match of the pattern (dollar, brace, a name, brace) at the start of a string: the name
  and the text after the match.
\<close>

definition env_match :: "string \<Rightarrow> (string \<times> string) option" where
  "env_match s =
     (if has_prefix s ''${'' then
        (let name = takeWhile ident_char (drop 2 s); rest = dropWhile ident_char (drop 2 s)
         in (case name of
               [] \<Rightarrow> None
             | c # _ \<Rightarrow>
                 if \<not> ident_start c then None
                 else (case rest of
                         [] \<Rightarrow> None
                       | b # after \<Rightarrow> if b = CHR ''}'' then Some (name, after) else None)))
      else None)"

lemma env_match_shorter: "env_match s = Some (name, after) \<Longrightarrow> length after < length s"
proof -
  assume "env_match s = Some (name, after)"
  then have "dropWhile ident_char (drop 2 s) = CHR ''}'' # after"
    by (auto simp: env_match_def Let_def split: if_splits list.splits)
  then have "Suc (length after) \<le> length (drop 2 s)"
    by (metis length_Cons length_dropWhile_le)
  then show ?thesis by simp
qed

text \<open>
  \<^verbatim>\<open>envPattern.ReplaceAllStringFunc\<close>: every leftmost match becomes the variable's value, or
  nothing when the variable is not set.
\<close>

function expand_env :: "(string \<Rightarrow> string option) \<Rightarrow> string \<Rightarrow> string" where
  "expand_env lookup [] = []"
| "expand_env lookup (c # s) =
     (case env_match (c # s) of
        Some (name, after) \<Rightarrow>
          (case lookup name of Some v \<Rightarrow> v | None \<Rightarrow> []) @ expand_env lookup after
      | None \<Rightarrow> c # expand_env lookup s)"
  by pat_completeness auto
termination
  by (relation "measure (\<lambda>(lookup, s). length s)") (auto dest: env_match_shorter)

text \<open>\<^verbatim>\<open>ResolvedEnv\<close>, with \<open>p\<close> the order in which it ranges over the settings.\<close>

definition resolved_env :: "iter_order \<Rightarrow> (string \<Rightarrow> string option) \<Rightarrow> plugin_config \<Rightarrow> string list" where
  "resolved_env p lookup pc =
     map (\<lambda>kv. fst kv @ ''='' @ expand_env lookup (snd kv)) (ranged p (pcEnv pc))"

text \<open>A setting is literal text without a dollar, and references to variables.\<close>

datatype env_token = EnvLit string | EnvVar string

fun env_render :: "env_token \<Rightarrow> string" where
  "env_render (EnvLit t) = t"
| "env_render (EnvVar v) = ''${'' @ v @ ''}''"

fun env_token_ok :: "env_token \<Rightarrow> bool" where
  "env_token_ok (EnvLit t) = (CHR ''$'' \<notin> set t)"
| "env_token_ok (EnvVar v) = (v \<noteq> [] \<and> ident_start (hd v) \<and> list_all ident_char v)"

fun env_meaning :: "(string \<Rightarrow> string option) \<Rightarrow> env_token \<Rightarrow> string" where
  "env_meaning lookup (EnvLit t) = t"
| "env_meaning lookup (EnvVar v) = (case lookup v of Some x \<Rightarrow> x | None \<Rightarrow> [])"

lemma expand_env_lit: "CHR ''$'' \<notin> set t \<Longrightarrow> expand_env lookup (t @ s) = t @ expand_env lookup s"
  by (induction t) (auto simp: env_match_def has_prefix_def)

lemma env_match_var:
  assumes "v \<noteq> []" "ident_start (hd v)" "list_all ident_char v"
  shows "env_match (''${'' @ v @ ''}'' @ s) = Some (v, s)"
proof -
  have brace: "\<not> ident_char (CHR ''}'')"
    by (simp add: ident_char_def ident_start_def)
  have "takeWhile ident_char (v @ CHR ''}'' # s) = v" "dropWhile ident_char (v @ CHR ''}'' # s) = CHR ''}'' # s"
    using assms(3) brace by (simp_all add: takeWhile_append2 dropWhile_append2 list_all_iff)
  with assms(1,2) show ?thesis
    by (cases v) (simp_all add: env_match_def has_prefix_def)
qed

lemma expand_env_tokens:
  "list_all env_token_ok ts \<Longrightarrow>
     expand_env lookup (concat (map env_render ts)) = concat (map (env_meaning lookup) ts)"
proof (induction ts)
  case Nil
  then show ?case by simp
next
  case (Cons t ts)
  show ?case
  proof (cases t)
    case (EnvLit x)
    with Cons show ?thesis by (simp add: expand_env_lit)
  next
    case (EnvVar v)
    with Cons.prems have "env_match (''${'' @ v @ ''}'' @ concat (map env_render ts)) =
        Some (v, concat (map env_render ts))"
      by (intro env_match_var) simp_all
    with Cons EnvVar show ?thesis by simp
  qed
qed

end
