(* ===== verification/ActionStore.thy ===== *)
theory ActionStore
  imports Types
begin

text \<open>The in-memory store of actions, \<^verbatim>\<open>internal/actions/store.go\<close>.\<close>

definition err_action_not_found :: error where
  "err_action_not_found = New ''action not found''"

record action_store =
  as_actions :: "action gomap"

definition new_action_store :: action_store where
  "new_action_store = \<lparr>as_actions = []\<rparr>"

definition as_save :: "action \<Rightarrow> action_store \<Rightarrow> action_store" where
  "as_save a s = s\<lparr>as_actions := AList.update (acID a) a (as_actions s)\<rparr>"

definition as_get :: "action_store \<Rightarrow> string \<Rightarrow> action option" where
  "as_get s i = map_of (as_actions s) i"

definition as_update_status ::
  "string \<Rightarrow> string \<Rightarrow> action_store \<Rightarrow> action res \<times> action_store" where
  "as_update_status i status s =
     (case map_of (as_actions s) i of
        None \<Rightarrow> (Inl err_action_not_found, s)
      | Some a \<Rightarrow>
          (let a' = a\<lparr>acStatus := status\<rparr>
           in (Inr a', s\<lparr>as_actions := AList.update i a' (as_actions s)\<rparr>)))"

definition as_list :: "iter_order \<Rightarrow> action_store \<Rightarrow> action list" where
  "as_list p s = map snd (ranged p (as_actions s))"

definition is_pending :: "action \<Rightarrow> bool" where
  "is_pending a \<longleftrightarrow> acStatus a = ''requested'' \<or> acStatus a = ''confirmed''"

definition as_pending :: "iter_order \<Rightarrow> action_store \<Rightarrow> action list" where
  "as_pending p s = filter is_pending (map snd (ranged p (as_actions s)))"

section \<open>Invariant and behaviour\<close>

text \<open>Keys are distinct and every action is filed under its own identifier.\<close>

definition as_wf :: "action_store \<Rightarrow> bool" where
  "as_wf s \<longleftrightarrow> wf_map (as_actions s) \<and> (\<forall>i a. as_get s i = Some a \<longrightarrow> acID a = i)"

lemma as_wf_new [simp]: "as_wf new_action_store"
  by (simp add: as_wf_def new_action_store_def as_get_def)

lemma as_get_save [simp, store_simps]:
  "as_get (as_save a s) i = (if i = acID a then Some a else as_get s i)"
  by (simp add: as_get_def as_save_def)

lemma as_wf_save [simp]: "as_wf s \<Longrightarrow> as_wf (as_save a s)"
  by (simp add: as_wf_def) (simp add: as_save_def)

lemma as_update_status_miss:
  "as_get s i = None \<Longrightarrow> as_update_status i st s = (Inl err_action_not_found, s)"
  by (simp add: as_update_status_def as_get_def)

lemma as_update_status_hit:
  "as_get s i = Some a \<Longrightarrow> as_wf s \<Longrightarrow>
     as_update_status i st s = (Inr (a\<lparr>acStatus := st\<rparr>), as_save (a\<lparr>acStatus := st\<rparr>) s)"
  by (simp add: as_update_status_def as_get_def as_wf_def as_save_def Let_def)

lemma as_wf_update_status [simp]: "as_wf s \<Longrightarrow> as_wf (snd (as_update_status i st s))"
  by (cases "as_get s i") (simp_all add: as_update_status_miss as_update_status_hit)

lemma as_get_update_status:
  "as_wf s \<Longrightarrow> as_get (snd (as_update_status i st s)) j =
     (if j = i then map_option (\<lambda>a. a\<lparr>acStatus := st\<rparr>) (as_get s i) else as_get s j)"
  by (cases "as_get s i") (auto simp: as_update_status_miss as_update_status_hit as_wf_def)

lemma as_list_set:
  "valid_order p \<Longrightarrow> as_wf s \<Longrightarrow> a \<in> set (as_list p s) \<longleftrightarrow> as_get s (acID a) = Some a"
  unfolding as_list_def as_get_def
  by (rule ranged_values) (auto simp: as_wf_def as_get_def)

lemma as_list_distinct:
  "valid_order p \<Longrightarrow> as_wf s \<Longrightarrow> distinct (map acID (as_list p s))"
  unfolding as_list_def
  by (rule ranged_values_distinct) (auto simp: as_wf_def as_get_def)

lemma as_pending_list: "as_pending p s = filter is_pending (as_list p s)"
  by (simp add: as_pending_def as_list_def)

interpretation action_table: keyed_store as_get as_save acID
  by unfold_locales simp

end
