(* ===== verification/Sessions.thy ===== *)
theory Sessions
  imports Types
begin

text \<open>
  The session manager, \<^verbatim>\<open>internal/sessions/manager.go\<close>, and the context builder,
  \<^verbatim>\<open>internal/context/builder.go\<close>.
\<close>

section \<open>manager.go\<close>

definition err_session_not_found :: error where
  "err_session_not_found = New ''session not found''"

record session_manager =
  sm_sessions :: "session gomap"

definition new_session_manager :: session_manager where
  "new_session_manager = \<lparr>sm_sessions = []\<rparr>"

definition sm_create :: "session \<Rightarrow> session_manager \<Rightarrow> session_manager res" where
  "sm_create x m =
     (case session_validate x of
        Some e \<Rightarrow> Inl (Wrap ''invalid session: '' e [])
      | None \<Rightarrow>
          (case map_of (sm_sessions m) (ssID x) of
             Some _ \<Rightarrow> Inl (New (''session '' @ ssID x @ '' already exists''))
           | None \<Rightarrow> Inr (m\<lparr>sm_sessions := AList.update (ssID x) x (sm_sessions m)\<rparr>)))"

definition sm_get :: "session_manager \<Rightarrow> string \<Rightarrow> session res" where
  "sm_get m i =
     (case map_of (sm_sessions m) i of
        None \<Rightarrow> Inl err_session_not_found
      | Some x \<Rightarrow> Inr x)"

definition sm_update :: "session \<Rightarrow> session_manager \<Rightarrow> session_manager res" where
  "sm_update x m =
     (case session_validate x of
        Some e \<Rightarrow> Inl (Wrap ''invalid session: '' e [])
      | None \<Rightarrow>
          (case map_of (sm_sessions m) (ssID x) of
             None \<Rightarrow> Inl err_session_not_found
           | Some _ \<Rightarrow> Inr (m\<lparr>sm_sessions := AList.update (ssID x) x (sm_sessions m)\<rparr>)))"

definition sm_delete :: "string \<Rightarrow> session_manager \<Rightarrow> session_manager" where
  "sm_delete i m = m\<lparr>sm_sessions := AList.delete i (sm_sessions m)\<rparr>"

definition sm_list :: "iter_order \<Rightarrow> session_manager \<Rightarrow> session list" where
  "sm_list p m = map snd (ranged p (sm_sessions m))"

text \<open>\<open>now\<close> is the instant \<^verbatim>\<open>time.Now()\<close> returns.\<close>

definition sm_append_message ::
  "gotime \<Rightarrow> string \<Rightarrow> message \<Rightarrow> session_manager \<Rightarrow> session_manager res" where
  "sm_append_message now i msg m =
     (case message_validate msg of
        Some e \<Rightarrow> Inl (Wrap ''invalid message: '' e [])
      | None \<Rightarrow>
          (case map_of (sm_sessions m) i of
             None \<Rightarrow> Inl err_session_not_found
           | Some x \<Rightarrow>
               (let x' = x\<lparr>ssMessages := ssMessages x @ [msg], ssUpdatedAt := now\<rparr>
                in Inr (m\<lparr>sm_sessions := AList.update i x' (sm_sessions m)\<rparr>))))"

subsection \<open>Invariant and behaviour\<close>

definition sm_look :: "session_manager \<Rightarrow> string \<Rightarrow> session option" where
  "sm_look m i = map_of (sm_sessions m) i"

text \<open>Every session is valid, and filed once, under its own identifier.\<close>

definition sm_wf :: "session_manager \<Rightarrow> bool" where
  "sm_wf m \<longleftrightarrow> wf_map (sm_sessions m) \<and>
     (\<forall>i x. sm_look m i = Some x \<longrightarrow> ssID x = i \<and> session_validate x = None)"

lemma sm_get_look: "sm_get m i = (case sm_look m i of None \<Rightarrow> Inl err_session_not_found | Some x \<Rightarrow> Inr x)"
  by (simp add: sm_get_def sm_look_def)

lemma sm_get_Inr [simp]: "sm_get m i = Inr x \<longleftrightarrow> sm_look m i = Some x"
  by (simp add: sm_get_look split: option.splits)

lemma sm_wf_new [simp]: "sm_wf new_session_manager"
  by (simp add: sm_wf_def new_session_manager_def sm_look_def)

lemma sm_put_wf:
  "sm_wf m \<Longrightarrow> session_validate x = None \<Longrightarrow>
     sm_wf (m\<lparr>sm_sessions := AList.update (ssID x) x (sm_sessions m)\<rparr>)"
  by (simp add: sm_wf_def sm_look_def)

interpretation session_table: once_registry sm_look sm_create ssID "\<lambda>x. session_validate x = None"
  by unfold_locales (auto simp: sm_create_def sm_look_def split: option.splits if_splits)

lemma sm_create_wf: "sm_create x m = Inr m' \<Longrightarrow> sm_wf m \<Longrightarrow> sm_wf m'"
  by (auto simp: sm_create_def intro: sm_put_wf split: option.splits)

lemma sm_update_ok:
  "is_ok (sm_update x m) \<longleftrightarrow> session_validate x = None \<and> sm_look m (ssID x) \<noteq> None"
  by (auto simp: sm_update_def sm_look_def split: option.splits)

lemma sm_update_look [store_simps]:
  "sm_update x m = Inr m' \<Longrightarrow> sm_look m' i = (if i = ssID x then Some x else sm_look m i)"
  by (auto simp: sm_update_def sm_look_def split: option.splits)

lemma sm_update_wf: "sm_update x m = Inr m' \<Longrightarrow> sm_wf m \<Longrightarrow> sm_wf m'"
  by (auto simp: sm_update_def intro: sm_put_wf split: option.splits)

lemma sm_delete_look [simp, store_simps]:
  "sm_look (sm_delete i m) j = (if j = i then None else sm_look m j)"
  by (simp add: sm_look_def sm_delete_def)

lemma sm_delete_wf: "sm_wf m \<Longrightarrow> sm_wf (sm_delete i m)"
  by (simp add: sm_wf_def) (simp add: sm_delete_def)

lemma sm_append_message_cases:
  "sm_append_message now i msg m = Inr m' \<Longrightarrow>
     message_validate msg = None \<and>
     (\<exists>x. sm_look m i = Some x \<and>
       m' = m\<lparr>sm_sessions := AList.update i (x\<lparr>ssMessages := ssMessages x @ [msg], ssUpdatedAt := now\<rparr>)
                (sm_sessions m)\<rparr>)"
  by (auto simp: sm_append_message_def sm_look_def Let_def split: option.splits)

lemma sm_append_message_wf:
  assumes "sm_append_message now i msg m = Inr m'" and "sm_wf m" and "\<not> is_zero now"
  shows "sm_wf m'"
proof -
  from sm_append_message_cases [OF assms(1)] obtain x where
    x: "sm_look m i = Some x" and
    m': "m' = m\<lparr>sm_sessions := AList.update i (x\<lparr>ssMessages := ssMessages x @ [msg], ssUpdatedAt := now\<rparr>)
                (sm_sessions m)\<rparr>"
    by blast
  let ?y = "x\<lparr>ssMessages := ssMessages x @ [msg], ssUpdatedAt := now\<rparr>"
  from x assms(2) have "ssID x = i" "session_validate x = None" by (auto simp: sm_wf_def)
  with assms(3) have "ssID ?y = i" "session_validate ?y = None" by (auto simp: session_valid_iff)
  with sm_put_wf [OF assms(2), of ?y] m' show ?thesis by simp
qed

lemma sm_list_set:
  "valid_order p \<Longrightarrow> sm_wf m \<Longrightarrow> x \<in> set (sm_list p m) \<longleftrightarrow> sm_look m (ssID x) = Some x"
  unfolding sm_list_def sm_look_def
  by (rule ranged_values) (auto simp: sm_wf_def sm_look_def)

section \<open>builder.go\<close>

record builder =
  bdMaxMessages :: int

definition new_builder :: "int \<Rightarrow> builder" where
  "new_builder maxMessages =
     (let n = (if maxMessages \<le> 0 then 20 else maxMessages) in \<lparr>bdMaxMessages = n\<rparr>)"

definition message_line :: "message \<Rightarrow> string" where
  "message_line msg =
     (if msDirection msg = ''inbound'' then ''User: '' else ''Assistant: '') @ msText msg @ [CHR 0x0A]"

definition window :: "int \<Rightarrow> message list \<Rightarrow> message list" where
  "window n msgs =
     (if int (length msgs) > n then drop (nat (int (length msgs) - n)) msgs else msgs)"

definition build_context :: "builder \<Rightarrow> session \<Rightarrow> string" where
  "build_context b x =
     ''Session: '' @ ssID x @ '' ('' @ ssChannel x @ '')'' @ [CHR 0x0A] @
     concat (map message_line (window (bdMaxMessages b) (ssMessages x)))"

text \<open>The window is the last messages, as many as fit, in order.\<close>

lemma window_suffix: "0 \<le> n \<Longrightarrow>
    (\<exists>old. msgs = old @ window n msgs) \<and> int (length (window n msgs)) = min n (int (length msgs))"
  by (auto simp: window_def intro: exI [of _ "take (nat (int (length msgs) - n)) msgs"] exI [of _ "[]"])

end
