(* ===== verification/Router.thy ===== *)
theory Router
  imports Types
begin

text \<open>
  The capability router, \<^verbatim>\<open>internal/capabilities/router.go\<close>. The type of handlers is a
  parameter; calling one is the argument \<open>invoke\<close>, which passes the state of the program. A
  handler returns a value and an error, and either may be \<^verbatim>\<open>nil\<close> (\<open>None\<close>).
\<close>

definition err_capability_not_found :: error where
  "err_capability_not_found = New ''capability not found''"

definition err_permission_denied :: error where
  "err_permission_denied = New ''permission denied''"

record 'h cap_info =
  ciPluginID :: string
  ciManifest :: manifest
  ciHandler :: "'h option"

record 'h router =
  rt_capabilities :: "'h cap_info gomap"

definition new_router :: "'h router" where
  "new_router = \<lparr>rt_capabilities = []\<rparr>"

definition router_register_capability ::
  "string \<Rightarrow> manifest \<Rightarrow> string \<Rightarrow> 'h option \<Rightarrow> 'h router \<Rightarrow> 'h router res" where
  "router_register_capability pluginID m capability handler r =
     (case manifest_validate m of
        Some e \<Rightarrow> Inl (Wrap ''invalid manifest: '' e [])
      | None \<Rightarrow>
          (case map_of (rt_capabilities r) capability of
             Some _ \<Rightarrow> Inl (New (''capability '' @ capability @ '' already registered''))
           | None \<Rightarrow>
               Inr (r\<lparr>rt_capabilities :=
                  AList.update capability
                    \<lparr>ciPluginID = pluginID, ciManifest = m, ciHandler = handler\<rparr>
                    (rt_capabilities r)\<rparr>)))"

text \<open>
  The loop of \<^verbatim>\<open>Register\<close> stops at the first error; what it has registered by then stays.
\<close>

fun router_register_loop ::
  "string \<Rightarrow> manifest \<Rightarrow> 'h option \<Rightarrow> capability list \<Rightarrow> 'h router \<Rightarrow> error option \<times> 'h router" where
  "router_register_loop pluginID m handler [] r = (None, r)"
| "router_register_loop pluginID m handler (c # cs) r =
     (case router_register_capability pluginID m (cpName c) handler r of
        Inl e \<Rightarrow> (Some e, r)
      | Inr r' \<Rightarrow> router_register_loop pluginID m handler cs r')"

definition router_register ::
  "string \<Rightarrow> manifest \<Rightarrow> 'h option \<Rightarrow> 'h router \<Rightarrow> error option \<times> 'h router" where
  "router_register pluginID m handler r =
     (case manifest_validate m of
        Some e \<Rightarrow> (Some (Wrap ''invalid manifest: '' e []), r)
      | None \<Rightarrow> router_register_loop pluginID m handler (mfCapabilities m) r)"

definition router_call ::
  "('h \<Rightarrow> val \<Rightarrow> 's \<Rightarrow> ('r option \<times> error option) \<times> 's) \<Rightarrow> 'h router \<Rightarrow>
     string \<Rightarrow> string \<Rightarrow> val \<Rightarrow> 's \<Rightarrow> ('r option \<times> error option) \<times> 's" where
  "router_call invoke r pluginID capability params s =
     (case map_of (rt_capabilities r) capability of
        None \<Rightarrow> ((None, Some (Wrap [] err_capability_not_found ('': '' @ capability))), s)
      | Some info \<Rightarrow>
          if ciPluginID info \<noteq> pluginID then
            ((None, Some (Wrap [] err_permission_denied
                   ('': plugin '' @ pluginID @ '' does not own '' @ capability))), s)
          else (case ciHandler info of
                  None \<Rightarrow> ((None, Some (New (''capability '' @ capability @ '' has no handler''))), s)
                | Some h \<Rightarrow> invoke h params s))"

definition router_has_capability :: "'h router \<Rightarrow> string \<Rightarrow> bool" where
  "router_has_capability r capability \<longleftrightarrow> map_of (rt_capabilities r) capability \<noteq> None"

definition router_list :: "iter_order \<Rightarrow> 'h router \<Rightarrow> string list" where
  "router_list p r = map fst (ranged p (rt_capabilities r))"

section \<open>Behaviour\<close>

definition cap_look :: "'h router \<Rightarrow> string \<Rightarrow> (string \<times> 'h cap_info) option" where
  "cap_look r c = map_option (Pair c) (map_of (rt_capabilities r) c)"

definition cap_insert :: "string \<times> 'h cap_info \<Rightarrow> 'h router \<Rightarrow> 'h router res" where
  "cap_insert ci r =
     router_register_capability (ciPluginID (snd ci)) (ciManifest (snd ci)) (fst ci) (ciHandler (snd ci)) r"

interpretation cap_table: once_registry cap_look cap_insert fst "\<lambda>ci. manifest_validate (ciManifest (snd ci)) = None"
  by unfold_locales
     (auto simp: cap_insert_def cap_look_def router_register_capability_def
           split: option.splits if_splits)

text \<open>\<^verbatim>\<open>Register\<close> is the registration of the manifest's capabilities, one entry each.\<close>

definition cap_entries :: "string \<Rightarrow> manifest \<Rightarrow> 'h option \<Rightarrow> capability list \<Rightarrow> (string \<times> 'h cap_info) list" where
  "cap_entries pluginID m handler cs =
     map (\<lambda>c. (cpName c, \<lparr>ciPluginID = pluginID, ciManifest = m, ciHandler = handler\<rparr>)) cs"

lemma router_register_loop_all:
  "fst (router_register_loop pid m h cs r) = None \<longleftrightarrow>
     is_ok (cap_table.register_all (cap_entries pid m h cs) r)"
  "cap_table.register_all (cap_entries pid m h cs) r = Inr r' \<Longrightarrow>
     router_register_loop pid m h cs r = (None, r')"
  by (induction cs arbitrary: r)
     (auto simp: cap_entries_def cap_insert_def split: sum.splits)

lemma router_register_ok:
  "fst (router_register pid m h r) = None \<longleftrightarrow>
     manifest_validate m = None \<and> distinct (map cpName (mfCapabilities m)) \<and>
     (\<forall>c \<in> set (mfCapabilities m). \<not> router_has_capability r (cpName c))"
proof -
  have "map fst (cap_entries pid m h cs) = map cpName cs" for cs
    by (simp add: cap_entries_def comp_def)
  moreover have "(\<forall>v \<in> set (cap_entries pid m h cs).
      manifest_validate (ciManifest (snd v)) = None \<and> cap_look r (fst v) = None) \<longleftrightarrow>
      (cs = [] \<or> manifest_validate m = None) \<and> (\<forall>c \<in> set cs. \<not> router_has_capability r (cpName c))" for cs
    by (auto simp: cap_entries_def cap_look_def router_has_capability_def)
  ultimately show ?thesis
    by (auto simp: router_register_def router_register_loop_all cap_table.register_all_ok
             split: option.splits)
qed

lemma router_register_loop_keeps:
  "map_of (rt_capabilities r) c = Some i \<Longrightarrow>
     map_of (rt_capabilities (snd (router_register_loop pid m h cs r))) c = Some i"
proof (induction cs arbitrary: r)
  case Nil
  then show ?case by simp
next
  case (Cons d cs)
  show ?case
  proof (cases "router_register_capability pid m (cpName d) h r")
    case (Inl e)
    with Cons.prems show ?thesis by simp
  next
    case (Inr r')
    then have "map_of (rt_capabilities r') c = Some i"
      using Cons.prems by (auto simp: router_register_capability_def split: option.splits)
    with Cons.IH Inr show ?thesis by simp
  qed
qed

text \<open>What was registered before the first capability that is taken stays registered.\<close>

lemma router_register_loop_partial:
  assumes valid: "manifest_validate m = None"
  shows "router_has_capability r (cpName d) \<Longrightarrow> distinct (map cpName cs) \<Longrightarrow>
    \<forall>c \<in> set cs. \<not> router_has_capability r (cpName c) \<Longrightarrow>
    \<exists>e r'. router_register_loop pid m h (cs @ d # ds) r = (Some e, r') \<and>
      (\<forall>x. router_has_capability r' x \<longleftrightarrow> router_has_capability r x \<or> x \<in> cpName ` set cs)"
proof (induction cs arbitrary: r)
  case Nil
  then show ?case
    by (auto simp: router_register_capability_def valid router_has_capability_def)
next
  case (Cons c cs)
  let ?i = "\<lparr>ciPluginID = pid, ciManifest = m, ciHandler = h\<rparr>"
  let ?r = "r\<lparr>rt_capabilities := AList.update (cpName c) ?i (rt_capabilities r)\<rparr>"
  have reg: "router_register_capability pid m (cpName c) h r = Inr ?r"
    using Cons.prems valid by (simp add: router_register_capability_def router_has_capability_def)
  have has: "router_has_capability ?r x \<longleftrightarrow> x = cpName c \<or> router_has_capability r x" for x
    by (simp add: router_has_capability_def)
  obtain e r' where e: "router_register_loop pid m h (cs @ d # ds) ?r = (Some e, r')"
    "\<forall>x. router_has_capability r' x \<longleftrightarrow> router_has_capability ?r x \<or> x \<in> cpName ` set cs"
  proof -
    have "\<forall>x \<in> set cs. cpName x \<noteq> cpName c" using Cons.prems(2) by (auto simp: image_iff)
    with Cons.IH [of ?r] Cons.prems that show ?thesis by (auto simp only: has list.set distinct.simps list.map)
  qed
  then have "\<forall>x. router_has_capability r' x \<longleftrightarrow> router_has_capability r x \<or> x \<in> cpName ` set (c # cs)"
    using has by auto
  with e(1) reg show ?case by auto
qed

text \<open>A handler runs for a call exactly when the caller names the plugin that registered it.\<close>

lemma router_call_invokes:
  assumes "map_of (rt_capabilities r) c = Some i" and "ciPluginID i = pid" and "ciHandler i = Some h"
  shows "router_call invoke r pid c ps s = invoke h ps s"
  using assms by (simp add: router_call_def)

lemma router_call_refused:
  assumes "\<nexists>i h. map_of (rt_capabilities r) c = Some i \<and> ciPluginID i = pid \<and> ciHandler i = Some h"
  shows "\<exists>e. router_call invoke r pid c ps s = ((None, Some e), s)"
  using assms by (auto simp: router_call_def split: option.splits)

lemma router_call_not_found:
  "\<not> router_has_capability r c \<Longrightarrow>
     \<exists>e. router_call invoke r pid c ps s = ((None, Some e), s) \<and> errors_is e err_capability_not_found"
  by (simp add: router_call_def router_has_capability_def err_capability_not_found_def)

lemma router_call_not_owner:
  "map_of (rt_capabilities r) c = Some i \<Longrightarrow> ciPluginID i \<noteq> pid \<Longrightarrow>
     \<exists>e. router_call invoke r pid c ps s = ((None, Some e), s) \<and> errors_is e err_permission_denied"
  by (simp add: router_call_def err_permission_denied_def)

end
