(* ===== verification/WfRegistry.thy ===== *)
theory WfRegistry
  imports Types
begin

text \<open>The registry of workflows, \<^verbatim>\<open>internal/workflows/registry.go\<close>.\<close>

definition err_workflow_not_found :: error where
  "err_workflow_not_found = New ''workflow not found''"

definition err_workflow_already_exists :: error where
  "err_workflow_already_exists = New ''workflow already exists''"

record wf_registry =
  wr_workflows :: "workflow gomap"

definition new_wf_registry :: wf_registry where
  "new_wf_registry = \<lparr>wr_workflows = []\<rparr>"

definition wr_register :: "workflow \<Rightarrow> wf_registry \<Rightarrow> wf_registry res" where
  "wr_register w r =
     (case workflow_validate w of
        Some e \<Rightarrow> Inl e
      | None \<Rightarrow>
          (case map_of (wr_workflows r) (wfID w) of
             Some _ \<Rightarrow> Inl (Wrap [] err_workflow_already_exists ('': '' @ wfID w))
           | None \<Rightarrow> Inr (r\<lparr>wr_workflows := AList.update (wfID w) w (wr_workflows r)\<rparr>)))"

definition wr_list :: "iter_order \<Rightarrow> wf_registry \<Rightarrow> workflow list" where
  "wr_list p r = map snd (ranged p (wr_workflows r))"

definition wr_get :: "wf_registry \<Rightarrow> string \<Rightarrow> workflow option" where
  "wr_get r i = map_of (wr_workflows r) i"

definition wr_set_enabled :: "string \<Rightarrow> bool \<Rightarrow> wf_registry \<Rightarrow> workflow res \<times> wf_registry" where
  "wr_set_enabled i enabled r =
     (case map_of (wr_workflows r) i of
        None \<Rightarrow> (Inl (Wrap [] err_workflow_not_found ('': '' @ i)), r)
      | Some w \<Rightarrow>
          (let w' = w\<lparr>wfEnabled := enabled\<rparr>
           in (Inr w', r\<lparr>wr_workflows := AList.update i w' (wr_workflows r)\<rparr>)))"

definition wr_enable :: "string \<Rightarrow> wf_registry \<Rightarrow> workflow res \<times> wf_registry" where
  "wr_enable i r = wr_set_enabled i True r"

definition wr_disable :: "string \<Rightarrow> wf_registry \<Rightarrow> workflow res \<times> wf_registry" where
  "wr_disable i r = wr_set_enabled i False r"

definition wr_enabled_rules :: "iter_order \<Rightarrow> wf_registry \<Rightarrow> rule list" where
  "wr_enabled_rules p r = concat (map (\<lambda>kw. enabled_rules (snd kw)) (ranged p (wr_workflows r)))"

section \<open>Invariant and behaviour\<close>

text \<open>Only valid workflows are registered, once, under their own identifier.\<close>

definition wr_wf :: "wf_registry \<Rightarrow> bool" where
  "wr_wf r \<longleftrightarrow> wf_map (wr_workflows r) \<and>
     (\<forall>i w. wr_get r i = Some w \<longrightarrow> wfID w = i \<and> workflow_validate w = None)"

lemma wr_wf_new [simp]: "wr_wf new_wf_registry"
  by (simp add: wr_wf_def new_wf_registry_def wr_get_def)

interpretation wf_table: once_registry wr_get wr_register wfID "\<lambda>w. workflow_validate w = None"
  by unfold_locales (auto simp: wr_register_def wr_get_def split: option.splits if_splits)

lemma wr_register_wf: "wr_register w r = Inr r' \<Longrightarrow> wr_wf r \<Longrightarrow> wr_wf r'"
  by (auto simp: wr_register_def wr_wf_def wr_get_def split: option.splits if_splits)

lemma wr_register_all_wf: "wf_table.register_all ws r = Inr r' \<Longrightarrow> wr_wf r \<Longrightarrow> wr_wf r'"
  by (induction ws arbitrary: r) (auto split: sum.splits dest: wr_register_wf)

lemma wr_register_each_wf: "wr_wf r \<Longrightarrow> wr_wf (wf_table.register_each ws r)"
  by (induction ws arbitrary: r) (auto split: sum.splits dest: wr_register_wf)

lemma wr_set_enabled_wf: "wr_wf r \<Longrightarrow> wr_wf (snd (wr_set_enabled i b r))"
  by (auto simp: wr_set_enabled_def wr_wf_def wr_get_def Let_def workflow_valid_iff split: option.splits)

lemma wr_set_enabled_get:
  "wr_get (snd (wr_set_enabled i b r)) j =
     (if j = i then map_option (\<lambda>w. w\<lparr>wfEnabled := b\<rparr>) (wr_get r i) else wr_get r j)"
  by (auto simp: wr_set_enabled_def wr_get_def Let_def split: option.splits)

lemma wr_list_set:
  "valid_order p \<Longrightarrow> wr_wf r \<Longrightarrow> w \<in> set (wr_list p r) \<longleftrightarrow> wr_get r (wfID w) = Some w"
  unfolding wr_list_def wr_get_def
  by (rule ranged_values) (auto simp: wr_wf_def wr_get_def)

lemma wr_list_distinct: "valid_order p \<Longrightarrow> wr_wf r \<Longrightarrow> distinct (map wfID (wr_list p r))"
  unfolding wr_list_def
  by (rule ranged_values_distinct) (auto simp: wr_wf_def wr_get_def)

lemma wr_enabled_rules_list: "wr_enabled_rules p r = concat (map enabled_rules (wr_list p r))"
  by (simp add: wr_enabled_rules_def wr_list_def comp_def)

lemma wr_enabled_rules_set:
  assumes "valid_order p" and "wr_wf r"
  shows "rl \<in> set (wr_enabled_rules p r) \<longleftrightarrow>
     (\<exists>i w. wr_get r i = Some w \<and> wfEnabled w \<and> rl \<in> set (wfRules w) \<and> rlEnabled rl)"
proof -
  have "rl \<in> set (wr_enabled_rules p r) \<longleftrightarrow> (\<exists>w \<in> set (wr_list p r). rl \<in> set (enabled_rules w))"
    by (auto simp: wr_enabled_rules_list)
  also have "\<dots> \<longleftrightarrow> (\<exists>i w. wr_get r i = Some w \<and> rl \<in> set (enabled_rules w))"
    using assms by (metis wr_list_set wr_wf_def)
  finally show ?thesis by (auto simp: enabled_rules_def)
qed

lemma wr_enabled_rules_valid:
  "valid_order p \<Longrightarrow> wr_wf r \<Longrightarrow> rl \<in> set (wr_enabled_rules p r) \<Longrightarrow> rule_validate rl = None"
  using wr_enabled_rules_set [of p r rl] by (auto simp: wr_wf_def workflow_valid_iff)

end
