(* ===== verification/Interpolation.thy ===== *)
theory Interpolation
  imports Types
begin

text \<open>
  The templates of workflow action payloads: \<^verbatim>\<open>interpolate\<close> and \<^verbatim>\<open>interpolateString\<close> of
  \<^verbatim>\<open>internal/workflows/engine.go\<close>, and what they compute on a template whose placeholders
  are not nested.
\<close>

definition placeholder :: "string \<Rightarrow> string" where
  "placeholder k = ''{{'' @ k @ ''}}''"

lemma placeholder_nonempty [simp]: "placeholder k \<noteq> []"
  by (simp add: placeholder_def)

definition subst_payload :: "string \<times> val \<Rightarrow> string \<Rightarrow> string" where
  "subst_payload kv str =
     (let str1 = replace_all str (placeholder (''payload.'' @ fst kv)) (sprint (snd kv))
      in replace_all str1 (placeholder (''event.payload.'' @ fst kv)) (sprint (snd kv)))"

definition subst_metadata :: "string \<times> val \<Rightarrow> string \<Rightarrow> string" where
  "subst_metadata kv str =
     replace_all str (placeholder (''session.metadata.'' @ fst kv)) (sprint (snd kv))"

text \<open>\<open>p\<close> is the order in which the two \<^verbatim>\<open>range\<close> loops visit the payload and the metadata.\<close>

definition interpolate_string :: "iter_order \<Rightarrow> string \<Rightarrow> event \<Rightarrow> session \<Rightarrow> string" where
  "interpolate_string p str e s =
     (let str1 = replace_all str (placeholder ''event.id'') (evID e);
          str2 = replace_all str1 (placeholder ''event.type'') (evType e);
          str3 = replace_all str2 (placeholder ''event.source'') (evSource e);
          str4 = replace_all str3 (placeholder ''event.sessionId'') (evSessionID e);
          str5 = fold subst_payload (ranged p (evPayload e)) str4;
          str6 = replace_all str5 (placeholder ''session.id'') (ssID s);
          str7 = replace_all str6 (placeholder ''session.state'') (ssState s)
      in fold subst_metadata (ranged p (ssMetadata s)) str7)"

fun interpolate :: "iter_order \<Rightarrow> val \<Rightarrow> event \<Rightarrow> session \<Rightarrow> val" where
  "interpolate p (VStr v) e s = VStr (interpolate_string p v e s)"
| "interpolate p (VMap v) e s = VMap (map (\<lambda>kv. (fst kv, interpolate p (snd kv) e s)) v)"
| "interpolate p (VSlice v) e s = VSlice (map (\<lambda>item. interpolate p item e s) v)"
| "interpolate p value e s = value"

section \<open>Templates as tokens\<close>

text \<open>
  A flat template is a sequence of literal text without an opening brace and of placeholders
  whose names have no braces.
\<close>

datatype token = Lit string | Ph string

fun render1 :: "token \<Rightarrow> string" where
  "render1 (Lit t) = t"
| "render1 (Ph k) = placeholder k"

definition render :: "token list \<Rightarrow> string" where
  "render ts = concat (map render1 ts)"

definition no_open :: "string \<Rightarrow> bool" where
  "no_open t \<longleftrightarrow> CHR ''{'' \<notin> set t"

definition braceless :: "string \<Rightarrow> bool" where
  "braceless k \<longleftrightarrow> CHR ''{'' \<notin> set k \<and> CHR ''}'' \<notin> set k"

fun flat_token :: "token \<Rightarrow> bool" where
  "flat_token (Lit t) = no_open t"
| "flat_token (Ph k) = braceless k"

abbreviation flat :: "token list \<Rightarrow> bool" where
  "flat ts \<equiv> list_all flat_token ts"

fun fill :: "string \<Rightarrow> string \<Rightarrow> token \<Rightarrow> token" where
  "fill k v (Lit t) = Lit t"
| "fill k v (Ph j) = (if j = k then Lit v else Ph j)"

lemma render_simps [simp]: "render [] = []" "render (t # ts) = render1 t @ render ts"
  by (simp_all add: render_def)

text \<open>A placeholder starts with two braces, so text without braces is passed over.\<close>

lemma replace_all_no_open:
  "no_open t \<Longrightarrow> replace_all (t @ s) (placeholder k) v = t @ replace_all s (placeholder k) v"
  by (induction t) (auto simp: no_open_def placeholder_def has_prefix_def)

lemma braceless_prefix:
  assumes "braceless j" "braceless k" "has_prefix (j @ ''}}'' @ s) (k @ ''}}'')"
  shows "j = k"
proof -
  from assms(3) obtain b where eq: "j @ CHR ''}'' # CHR ''}'' # s = k @ CHR ''}'' # CHR ''}'' # b"
    by (auto simp: has_prefix_iff)
  have *: "takeWhile (\<lambda>c. c \<noteq> CHR ''}'') (x @ CHR ''}'' # y) = x" if "braceless x" for x y
    using that by (subst takeWhile_append2) (auto simp: braceless_def)
  from * [OF assms(1)] * [OF assms(2)] eq show ?thesis by metis
qed

lemma replace_all_other:
  assumes "braceless j" "braceless k" "j \<noteq> k"
  shows "replace_all (placeholder j @ s) (placeholder k) v = placeholder j @ replace_all s (placeholder k) v"
proof -
  have first: "\<not> has_prefix (placeholder j @ s) (placeholder k)"
  proof
    assume "has_prefix (placeholder j @ s) (placeholder k)"
    then have "has_prefix (j @ ''}}'' @ s) (k @ ''}}'')"
      by (auto simp: placeholder_def has_prefix_iff)
    with assms braceless_prefix show False by blast
  qed
  have second: "\<not> has_prefix (CHR ''{'' # j @ ''}}'' @ s) (placeholder k)"
    using assms(1) by (cases j) (auto simp: has_prefix_def placeholder_def braceless_def)
  have rest: "no_open (j @ ''}}'')"
    using assms(1) by (simp add: no_open_def braceless_def)
  have "replace_all (placeholder j @ s) (placeholder k) v
      = CHR ''{'' # CHR ''{'' # replace_all ((j @ ''}}'') @ s) (placeholder k) v"
    using first second by (simp add: placeholder_def)
  also have "\<dots> = placeholder j @ replace_all s (placeholder k) v"
    by (subst replace_all_no_open [OF rest]) (simp add: placeholder_def)
  finally show ?thesis .
qed

text \<open>On a flat template, replacing a placeholder fills its tokens and no other.\<close>

lemma replace_all_render:
  "flat ts \<Longrightarrow> braceless k \<Longrightarrow> replace_all (render ts) (placeholder k) v = render (map (fill k v) ts)"
proof (induction ts)
  case Nil
  then show ?case by simp
next
  case (Cons t ts)
  then have IH: "replace_all (render ts) (placeholder k) v = render (map (fill k v) ts)" by simp
  show ?case
  proof (cases t)
    case (Lit x)
    with Cons.prems IH show ?thesis by (simp add: replace_all_no_open)
  next
    case (Ph j)
    with Cons.prems have "braceless j" by simp
    with Cons.prems IH Ph show ?thesis
      by (cases "j = k") (simp_all add: replace_all_other replace_all_here)
  qed
qed

lemma flat_fill: "flat ts \<Longrightarrow> no_open v \<Longrightarrow> flat (map (fill k v) ts)"
proof (induction ts)
  case (Cons t ts)
  then show ?case by (cases t) auto
qed simp

text \<open>A list of replacements, one after the other.\<close>

definition fill_all :: "(string \<times> string) list \<Rightarrow> token list \<Rightarrow> token list" where
  "fill_all kvs ts = fold (\<lambda>(k, v). map (fill k v)) kvs ts"

lemma replace_fold_render:
  "flat ts \<Longrightarrow> \<forall>(k, v) \<in> set kvs. braceless k \<and> no_open v \<Longrightarrow>
     fold (\<lambda>(k, v) str. replace_all str (placeholder k) v) kvs (render ts) = render (fill_all kvs ts)"
  by (induction kvs arbitrary: ts)
     (auto simp: fill_all_def replace_all_render flat_fill)

lemma fill_all_map: "fill_all kvs ts = map (\<lambda>t. fold (\<lambda>(k, v). fill k v) kvs t) ts"
  by (induction kvs arbitrary: ts) (auto simp: fill_all_def)

lemma fill_fold_Lit: "fold (\<lambda>(k, v). fill k v) kvs (Lit t) = Lit t"
  by (induction kvs) auto

lemma fill_fold_Ph:
  "fold (\<lambda>(k, v). fill k v) kvs (Ph j) = (case map_of kvs j of Some v \<Rightarrow> Lit v | None \<Rightarrow> Ph j)"
  by (induction kvs) (auto simp: fill_fold_Lit)

section \<open>What interpolation means\<close>

text \<open>The placeholders an event and a session define, in the order the code replaces them.\<close>

definition event_entries :: "event \<Rightarrow> (string \<times> string) list" where
  "event_entries e =
     [(''event.id'', evID e), (''event.type'', evType e), (''event.source'', evSource e),
      (''event.sessionId'', evSessionID e)]"

definition payload_entries :: "vmap \<Rightarrow> (string \<times> string) list" where
  "payload_entries m =
     concat (map (\<lambda>kv. [(''payload.'' @ fst kv, sprint (snd kv)), (''event.payload.'' @ fst kv, sprint (snd kv))]) m)"

definition session_entries :: "session \<Rightarrow> (string \<times> string) list" where
  "session_entries s = [(''session.id'', ssID s), (''session.state'', ssState s)]"

definition metadata_entries :: "vmap \<Rightarrow> (string \<times> string) list" where
  "metadata_entries m = map (\<lambda>kv. (''session.metadata.'' @ fst kv, sprint (snd kv))) m"

definition replacements :: "iter_order \<Rightarrow> event \<Rightarrow> session \<Rightarrow> (string \<times> string) list" where
  "replacements p e s =
     event_entries e @ payload_entries (ranged p (evPayload e)) @ session_entries s @
     metadata_entries (ranged p (ssMetadata s))"

abbreviation apply_replacements :: "(string \<times> string) list \<Rightarrow> string \<Rightarrow> string" where
  "apply_replacements \<equiv> fold (\<lambda>(k, v) str. replace_all str (placeholder k) v)"

lemma fold_subst_payload: "fold subst_payload m str = apply_replacements (payload_entries m) str"
  by (induction m arbitrary: str) (auto simp: payload_entries_def subst_payload_def Let_def)

lemma fold_subst_metadata: "fold subst_metadata m str = apply_replacements (metadata_entries m) str"
  by (induction m arbitrary: str) (auto simp: metadata_entries_def subst_metadata_def)

lemma interpolate_string_replacements:
  "interpolate_string p str e s = apply_replacements (replacements p e s) str"
  by (simp add: interpolate_string_def replacements_def event_entries_def session_entries_def
      Let_def fold_subst_payload fold_subst_metadata)

text \<open>
  The meaning of a placeholder, by its name: the field of the event, the value under the
  key, the field of the session; any other name means nothing.
\<close>

definition lookup_name :: "event \<Rightarrow> session \<Rightarrow> string \<Rightarrow> string option" where
  "lookup_name e s name =
     (if name = ''event.id'' then Some (evID e)
      else if name = ''event.type'' then Some (evType e)
      else if name = ''event.source'' then Some (evSource e)
      else if name = ''event.sessionId'' then Some (evSessionID e)
      else if has_prefix name ''payload.''
      then map_option sprint (map_of (evPayload e) (trim_prefix name ''payload.''))
      else if has_prefix name ''event.payload.''
      then map_option sprint (map_of (evPayload e) (trim_prefix name ''event.payload.''))
      else if name = ''session.id'' then Some (ssID s)
      else if name = ''session.state'' then Some (ssState s)
      else if has_prefix name ''session.metadata.''
      then map_option sprint (map_of (ssMetadata s) (trim_prefix name ''session.metadata.''))
      else None)"

fun meaning :: "event \<Rightarrow> session \<Rightarrow> token \<Rightarrow> string" where
  "meaning e s (Lit t) = t"
| "meaning e s (Ph k) = (case lookup_name e s k of Some v \<Rightarrow> v | None \<Rightarrow> placeholder k)"

definition plain_entries :: "vmap \<Rightarrow> bool" where
  "plain_entries m \<longleftrightarrow> list_all (\<lambda>kv. braceless (fst kv) \<and> no_open (sprint (snd kv))) m"

text \<open>No value that is substituted brings an opening brace of its own.\<close>

definition plain_context :: "event \<Rightarrow> session \<Rightarrow> bool" where
  "plain_context e s \<longleftrightarrow>
     no_open (evID e) \<and> no_open (evType e) \<and> no_open (evSource e) \<and> no_open (evSessionID e) \<and>
     no_open (ssID s) \<and> no_open (ssState s) \<and> plain_entries (evPayload e) \<and> plain_entries (ssMetadata s) \<and>
     wf_map (evPayload e) \<and> wf_map (ssMetadata s)"

lemma map_of_payload_entries_short:
  "map_of (payload_entries m) (''payload.'' @ k) = map_option sprint (map_of m k)"
  by (induction m) (auto simp: payload_entries_def)

lemma map_of_payload_entries_long:
  "map_of (payload_entries m) (''event.payload.'' @ k) = map_option sprint (map_of m k)"
  by (induction m) (auto simp: payload_entries_def)

lemma map_of_payload_entries_none:
  "\<not> has_prefix name ''payload.'' \<Longrightarrow> \<not> has_prefix name ''event.payload.'' \<Longrightarrow>
     map_of (payload_entries m) name = None"
  by (auto simp: map_of_eq_None_iff payload_entries_def has_prefix_iff)

lemma map_of_metadata_entries:
  "map_of (metadata_entries m) (''session.metadata.'' @ k) = map_option sprint (map_of m k)"
  by (induction m) (auto simp: metadata_entries_def)

lemma map_of_metadata_entries_none:
  "\<not> has_prefix name ''session.metadata.'' \<Longrightarrow> map_of (metadata_entries m) name = None"
  by (auto simp: map_of_eq_None_iff metadata_entries_def has_prefix_iff)

lemma map_of_ranged:
  assumes "valid_order p" "wf_map m"
  shows "map_of (ranged p m) k = map_of m k"
proof -
  have "map_of (ranged p m) k = Some v \<longleftrightarrow> map_of m k = Some v" for v
    using assms by (simp add: wf_map_map_of [symmetric])
  then show ?thesis by (metis not_Some_eq)
qed

lemma map_of_replacements:
  assumes "valid_order p" "wf_map (evPayload e)" "wf_map (ssMetadata s)"
  shows "map_of (replacements p e s) name = lookup_name e s name"
proof -
  have maps: "map_of (ranged p (evPayload e)) = map_of (evPayload e)"
    "map_of (ranged p (ssMetadata s)) = map_of (ssMetadata s)"
    using assms by (simp_all add: fun_eq_iff map_of_ranged)
  have eq: "map_of (replacements p e s) name =
      (case map_of (event_entries e) name of Some v \<Rightarrow> Some v
       | None \<Rightarrow> (case map_of (payload_entries (ranged p (evPayload e))) name of Some v \<Rightarrow> Some v
       | None \<Rightarrow> (case map_of (session_entries s) name of Some v \<Rightarrow> Some v
       | None \<Rightarrow> map_of (metadata_entries (ranged p (ssMetadata s))) name)))"
    by (simp add: replacements_def map_add_def split: option.splits)
  consider (pay) k where "name = ''payload.'' @ k" | (epay) k where "name = ''event.payload.'' @ k"
    | (meta) k where "name = ''session.metadata.'' @ k"
    | (other) "\<not> has_prefix name ''payload.''" "\<not> has_prefix name ''event.payload.''"
        "\<not> has_prefix name ''session.metadata.''"
    by (auto simp: has_prefix_iff)
  then show ?thesis
  proof cases
    case pay
    have "map_of (event_entries e) name = None" "map_of (session_entries s) name = None"
      "\<not> has_prefix name ''session.metadata.''"
      "lookup_name e s name = map_option sprint (map_of (evPayload e) k)"
      using pay by (simp_all add: event_entries_def session_entries_def lookup_name_def has_prefix_def trim_prefix_def)
    moreover have "map_of (payload_entries m) name = map_option sprint (map_of m k)" for m
      unfolding pay by (rule map_of_payload_entries_short)
    ultimately show ?thesis by (simp add: eq maps map_of_metadata_entries_none split: option.splits)
  next
    case epay
    have "map_of (event_entries e) name = None" "map_of (session_entries s) name = None"
      "\<not> has_prefix name ''session.metadata.''"
      "lookup_name e s name = map_option sprint (map_of (evPayload e) k)"
      using epay by (simp_all add: event_entries_def session_entries_def lookup_name_def has_prefix_def trim_prefix_def)
    moreover have "map_of (payload_entries m) name = map_option sprint (map_of m k)" for m
      unfolding epay by (rule map_of_payload_entries_long)
    ultimately show ?thesis by (simp add: eq maps map_of_metadata_entries_none split: option.splits)
  next
    case meta
    have "map_of (event_entries e) name = None" "map_of (session_entries s) name = None"
      "\<not> has_prefix name ''payload.''" "\<not> has_prefix name ''event.payload.''"
      "lookup_name e s name = map_option sprint (map_of (ssMetadata s) k)"
      using meta by (simp_all add: event_entries_def session_entries_def lookup_name_def has_prefix_def trim_prefix_def)
    moreover have "map_of (metadata_entries m) name = map_option sprint (map_of m k)" for m
      unfolding meta by (rule map_of_metadata_entries)
    ultimately show ?thesis by (simp add: eq maps map_of_payload_entries_none split: option.splits)
  next
    case other
    then show ?thesis
      by (simp add: eq map_of_payload_entries_none map_of_metadata_entries_none event_entries_def
          session_entries_def lookup_name_def split: option.splits)
  qed
qed

lemma braceless_Cons [simp]:
  "braceless (c # k) \<longleftrightarrow> c \<noteq> CHR ''{'' \<and> c \<noteq> CHR ''}'' \<and> braceless k" "braceless []"
  by (auto simp: braceless_def)

lemma plain_replacements:
  assumes "plain_context e s" "valid_order p"
  shows "\<forall>(k, v) \<in> set (replacements p e s). braceless k \<and> no_open v"
proof -
  have "(k, v) \<in> set (payload_entries (ranged p (evPayload e))) \<Longrightarrow> braceless k \<and> no_open v" for k v
    using assms by (auto simp: payload_entries_def plain_context_def plain_entries_def list_all_iff)
  moreover have "(k, v) \<in> set (metadata_entries (ranged p (ssMetadata s))) \<Longrightarrow> braceless k \<and> no_open v" for k v
    using assms by (auto simp: metadata_entries_def plain_context_def plain_entries_def list_all_iff)
  ultimately show ?thesis
    using assms(1)
    by (auto simp: replacements_def event_entries_def session_entries_def plain_context_def)
qed

lemma interpolate_string_flat:
  assumes "valid_order p" and "plain_context e s" and "flat ts"
  shows "interpolate_string p (render ts) e s = concat (map (meaning e s) ts)"
proof -
  have "interpolate_string p (render ts) e s = render (fill_all (replacements p e s) ts)"
    unfolding interpolate_string_replacements
    using assms(3) plain_replacements [OF assms(2,1)] by (rule replace_fold_render)
  moreover have "render1 (fold (\<lambda>(k, v). fill k v) (replacements p e s) t) = meaning e s t" for t
  proof (cases t)
    case (Ph k)
    then show ?thesis
      using assms by (simp add: fill_fold_Ph map_of_replacements plain_context_def split: option.splits)
  qed (simp add: fill_fold_Lit)
  ultimately show ?thesis by (simp add: fill_all_map render_def comp_def)
qed

text \<open>Text in which no two opening braces meet is copied.\<close>

lemma interpolate_string_no_braces:
  assumes "\<not> contains str ''{{''"
  shows "interpolate_string p str e s = str"
proof -
  have "\<not> contains str (placeholder k)" for k
    using assms by (auto simp: contains_iff placeholder_def)
  then have absent: "replace_all str (placeholder k) v = str" for k v
    by (simp add: replace_all_absent)
  have "apply_replacements kvs str = str" for kvs
    by (induction kvs) (auto simp: absent)
  then show ?thesis by (simp add: interpolate_string_replacements)
qed

end
