(* ===== verification/Executor.thy ===== *)
theory Executor
  imports Types
begin

text \<open>
  The interface \<^verbatim>\<open>Executor\<close> and the dry-run executor of \<^verbatim>\<open>internal/workflows/executor.go\<close>.
  \<open>ctx_err\<close> is \<^verbatim>\<open>ctx.Err()\<close>. The executor reads its clock once per sequence number, under the
  same lock, so the field \<open>mx_now\<close> gives the reading for each number.
\<close>

record mock_executor =
  mx_now :: "64 word \<Rightarrow> gotime"
  mx_seq :: "64 word"
  mx_executions :: "execution list"

definition new_mock_executor :: "(64 word \<Rightarrow> gotime) \<Rightarrow> mock_executor" where
  "new_mock_executor now = \<lparr>mx_now = now, mx_seq = 0, mx_executions = []\<rparr>"

definition mock_result :: "action \<Rightarrow> vmap" where
  "mock_result a =
     [(''dryRun'', VBool True), (''type'', VStr (acType a))] @
     (if acType a = ''send_message''
      then [(''messageQueued'', VBool False), (''description'', VStr ''message send simulated'')]
      else if acType a = ''run_command''
      then [(''commandExecuted'', VBool False), (''description'', VStr ''command execution simulated'')]
      else if acType a = ''call_plugin''
      then [(''pluginCalled'', VBool False), (''description'', VStr ''plugin call simulated'')]
      else if acType a = ''emit_event''
      then [(''eventEmitted'', VBool False), (''description'', VStr ''event emit simulated'')]
      else [])"

text \<open>The copy of a map has the same entries; so it is the same value here.\<close>

definition clone_map :: "vmap \<Rightarrow> vmap" where
  "clone_map input = fold (\<lambda>(k, v) out. AList.update k v out) input []"

definition mx_new_execution :: "action \<Rightarrow> mock_executor \<Rightarrow> execution \<times> mock_executor" where
  "mx_new_execution a e =
     (let seq = mx_seq e + 1; now = mx_now e seq
      in (\<lparr>xcID = ''mock-exec-'' @ itoa_nat (unat seq), xcActionID = acID a, xcType = acType a,
           xcStatus = ''completed'', xcDryRun = True, xcInput = clone_map (acPayload a),
           xcResult = mock_result a, xcError = [], xcCreatedAt = now, xcCompletedAt = now\<rparr>,
          e\<lparr>mx_seq := seq\<rparr>))"

definition mx_execute ::
  "error option \<Rightarrow> action \<Rightarrow> mock_executor \<Rightarrow> execution res \<times> mock_executor" where
  "mx_execute ctx_err a e =
     (case action_validate a of
        Some er \<Rightarrow> (Inl er, e)
      | None \<Rightarrow>
          if \<not> is_workflow_action_type (acType a)
          then (Inl (New (''unsupported workflow action type: '' @ acType a)), e)
          else (case ctx_err of
                  Some er \<Rightarrow> (Inl er, e)
                | None \<Rightarrow>
                    (let (x, e') = mx_new_execution a e
                     in (case execution_validate x of
                           Some er \<Rightarrow> (Inl er, e')
                         | None \<Rightarrow> (Inr x, e'\<lparr>mx_executions := mx_executions e' @ [x]\<rparr>)))))"

definition mx_list :: "mock_executor \<Rightarrow> execution list" where
  "mx_list e = mx_executions e"

section \<open>Behaviour\<close>

lemma clone_map_id: "wf_map m \<Longrightarrow> clone_map m = m"
proof -
  have "wf_map (acc @ m) \<Longrightarrow> fold (\<lambda>(k, v) out. AList.update k v out) m acc = acc @ m" for acc
  proof (induction m arbitrary: acc)
    case Nil
    then show ?case by simp
  next
    case (Cons kv m)
    then have "map_of acc (fst kv) = None"
      by (auto simp: wf_map_def map_of_eq_None_iff)
    then have "AList.update (fst kv) (snd kv) acc = acc @ [kv]"
      by (simp add: update_fresh)
    with Cons show ?case by (simp add: case_prod_beta)
  qed
  from this [of "[]"] show "wf_map m \<Longrightarrow> clone_map m = m" by (simp add: clone_map_def)
qed

text \<open>What every executor promises of the execution it returns, and what the engine relies on.\<close>

locale action_executor =
  fixes execute :: "error option \<Rightarrow> action \<Rightarrow> 's \<Rightarrow> execution res \<times> 's"
  assumes execute_of: "execute c a s = (Inr x, s') \<Longrightarrow>
      xcActionID x = acID a \<and> xcType x = acType a \<and> execution_validate x = None"
    and execute_cancelled: "fst (execute (Some er) a s) \<noteq> Inr x"
    and execute_invalid: "action_validate a \<noteq> None \<Longrightarrow> execute c a s = (Inl er, s') \<Longrightarrow> s' = s"
begin

text \<open>A successful execution is a complete record of a live request.\<close>

lemma execute_complete:
  assumes "execute c a s = (Inr x, s')"
  shows "c = None \<and> \<not> blank (acID a) \<and> \<not> blank (acType a) \<and> xcStatus x \<in> set execution_statuses"
proof -
  from assms have "c = None"
    by (metis execute_cancelled fst_conv not_Some_eq)
  with execute_of [OF assms] show ?thesis by (auto simp: execution_valid_iff)
qed

end

lemma mx_execute_cases:
  "mx_execute c a e = (Inr x, e') \<longleftrightarrow>
     action_validate a = None \<and> is_workflow_action_type (acType a) \<and> c = None \<and>
     execution_validate x = None \<and> x = fst (mx_new_execution a e) \<and>
     e' = e\<lparr>mx_seq := mx_seq e + 1, mx_executions := mx_executions e @ [x]\<rparr>"
  by (auto simp: mx_execute_def mx_new_execution_def Let_def split: option.splits)

interpretation mock: action_executor mx_execute
proof unfold_locales
  fix c a s x s' assume "mx_execute c a s = (Inr x, s')"
  then show "xcActionID x = acID a \<and> xcType x = acType a \<and> execution_validate x = None"
    by (auto simp: mx_execute_cases mx_new_execution_def Let_def)
next
  fix er a s x show "fst (mx_execute (Some er) a s) \<noteq> Inr x"
    by (auto simp: mx_execute_def split: option.splits)
next
  fix a :: action and c s er s'
  assume "action_validate a \<noteq> None" "mx_execute c a s = (Inl er, s')"
  then show "s' = s" by (auto simp: mx_execute_def)
qed

text \<open>With a clock that is not at the zero instant, a valid workflow action always executes.\<close>

lemma mx_execute_total:
  assumes "action_validate a = None" and "is_workflow_action_type (acType a)"
    and "\<not> is_zero (mx_now e (mx_seq e + 1))"
  shows "\<exists>x e'. mx_execute None a e = (Inr x, e')"
proof -
  have "\<not> blank (''mock-exec-'' @ itoa_nat n)" for n
    by (rule not_blank [of "CHR ''m''"]) (auto simp: space_runes_def)
  with assms have "execution_validate (fst (mx_new_execution a e)) = None"
    by (simp add: mx_new_execution_def Let_def execution_valid_iff action_valid_iff execution_statuses_def)
  with assms show ?thesis by (auto simp: mx_execute_cases)
qed

text \<open>The executor never does anything: every record it keeps is a completed dry run.\<close>

definition mx_wf :: "mock_executor \<Rightarrow> bool" where
  "mx_wf e \<longleftrightarrow> (\<forall>x \<in> set (mx_executions e).
     xcDryRun x \<and> xcStatus x = ''completed'' \<and> is_workflow_action_type (xcType x))"

lemma mx_wf_new [simp]: "mx_wf (new_mock_executor now)"
  by (simp add: mx_wf_def new_mock_executor_def)

lemma mx_wf_execute: "mx_wf e \<Longrightarrow> mx_wf (snd (mx_execute c a e))"
  by (auto simp: mx_wf_def mx_execute_def mx_new_execution_def Let_def split: option.splits)

end
