(* ===== verification/Engine.thy ===== *)
theory Engine
  imports Interpolation Executor
begin

text \<open>
  The workflow engine, \<^verbatim>\<open>internal/workflows/engine.go\<close>. The engine lives inside a larger
  program state \<open>'s\<close>: its interface fields (the action sink, the session resolver) read and
  change that state, and a sink may call the engine again before it returns. A call that never
  returns is \<open>None\<close>.
\<close>

record engine =
  en_rules :: "rule list"
  en_now :: "64 word \<Rightarrow> gotime"
  en_seq :: "64 word"

text \<open>
  \<^verbatim>\<open>e.now()\<close> is read once per sequence number, under the same lock, so \<open>en_now\<close> gives the
  reading for each number.
\<close>

type_synonym 's sink = "action \<Rightarrow> 's \<Rightarrow> (error option \<times> 's) option"

record 's host =
  ho_engine :: "'s \<Rightarrow> engine"
  ho_set :: "engine \<Rightarrow> 's \<Rightarrow> 's"
  ho_sink :: "'s sink option"
  ho_sessions :: "('s \<Rightarrow> string \<Rightarrow> session res) option"

section \<open>Rules\<close>

fun set_rules_loop :: "rule list \<Rightarrow> rule list \<Rightarrow> rule list res" where
  "set_rules_loop validated [] = Inr validated"
| "set_rules_loop validated (r # rs) =
     (case rule_validate r of
        Some e \<Rightarrow> Inl e
      | None \<Rightarrow> set_rules_loop (validated @ [r]) rs)"

definition set_rules :: "rule list \<Rightarrow> engine \<Rightarrow> engine res" where
  "set_rules rs en =
     (case set_rules_loop [] rs of
        Inl e \<Rightarrow> Inl e
      | Inr validated \<Rightarrow> Inr (en\<lparr>en_rules := validated\<rparr>))"

definition new_engine :: "(64 word \<Rightarrow> gotime) \<Rightarrow> rule list \<Rightarrow> engine res" where
  "new_engine now rs = set_rules rs \<lparr>en_rules = [], en_now = now, en_seq = 0\<rparr>"

definition engine_rules :: "engine \<Rightarrow> rule list" where
  "engine_rules en = en_rules en"

definition engine_execute_action ::
  "(error option \<Rightarrow> action \<Rightarrow> 's \<Rightarrow> execution res \<times> 's) option \<Rightarrow>
     error option \<Rightarrow> action \<Rightarrow> 's \<Rightarrow> execution res \<times> 's" where
  "engine_execute_action executor ctx_err a s =
     (case executor of
        None \<Rightarrow> (Inl (New ''workflow executor is not configured''), s)
      | Some execute \<Rightarrow> execute ctx_err a s)"

section \<open>From events to requests\<close>

definition resolve_session :: "'s host \<Rightarrow> event \<Rightarrow> 's \<Rightarrow> session" where
  "resolve_session ho e s =
     (case ho_sessions ho of
        None \<Rightarrow> zero_session
      | Some get \<Rightarrow>
          if evSessionID e \<noteq> [] then
            (case get s (evSessionID e) of Inr x \<Rightarrow> x | Inl _ \<Rightarrow> zero_session)
          else zero_session)"

definition request_payload :: "iter_order \<Rightarrow> rule \<Rightarrow> event \<Rightarrow> session \<Rightarrow> vmap \<Rightarrow> vmap" where
  "request_payload p r e x m =
     fold (\<lambda>kv out. AList.update (fst kv) (interpolate p (snd kv) e x) out) (ranged p m)
       [(''workflowRuleId'', VStr (rlID r)), (''eventId'', VStr (evID e)),
        (''eventType'', VStr (evType e)), (''eventSource'', VStr (evSource e))]"

definition trace_of :: "event \<Rightarrow> string" where
  "trace_of e = (if evTraceID e = [] then evID e else evTraceID e)"

definition new_request ::
  "iter_order \<Rightarrow> rule \<Rightarrow> event \<Rightarrow> session \<Rightarrow> wf_action \<Rightarrow> engine \<Rightarrow> action \<times> engine" where
  "new_request p r e x wa en =
     (let seq = en_seq en + 1; now = en_now en seq
      in (\<lparr>acID = ''workflow-'' @ rlID r @ ''-'' @ itoa_nat (unat seq),
           acType = waType wa, acRisk = waRisk wa, acStatus = ''requested'',
           acSource = ''workflow:'' @ rlID r, acSessionID = evSessionID e,
           acTraceID = trace_of e, acDepth = wrap64 (evDepth e + 1),
           acPayload = request_payload p r e x (waPayload wa), acCreatedAt = now\<rparr>,
          en\<lparr>en_seq := seq\<rparr>))"

fun new_requests ::
  "iter_order \<Rightarrow> rule \<Rightarrow> event \<Rightarrow> session \<Rightarrow> wf_action list \<Rightarrow> engine \<Rightarrow> action list \<times> engine" where
  "new_requests p r e x [] en = ([], en)"
| "new_requests p r e x (wa # was) en =
     (let (a, en1) = new_request p r e x wa en; (as, en2) = new_requests p r e x was en1
      in (a # as, en2))"

definition new_actions ::
  "'s host \<Rightarrow> iter_order \<Rightarrow> rule \<Rightarrow> event \<Rightarrow> 's \<Rightarrow> action list \<times> 's" where
  "new_actions ho p r e s =
     (let x = resolve_session ho e s;
          (as, en) = new_requests p r e x (get_actions r) (ho_engine ho s)
      in (as, ho_set ho en s))"

text \<open>The inner loop of \<^verbatim>\<open>HandleEvent\<close>: validate, hand over to the sink, remember.\<close>

fun submit_all ::
  "'s sink option \<Rightarrow> action list \<Rightarrow> action list \<Rightarrow> 's \<Rightarrow> ((action list \<times> error option) \<times> 's) option" where
  "submit_all sink [] requested s = Some ((requested, None), s)"
| "submit_all sink (a # as) requested s =
     (case action_validate a of
        Some er \<Rightarrow> Some ((requested, Some er), s)
      | None \<Rightarrow>
          (case sink of
             None \<Rightarrow> submit_all sink as (requested @ [a]) s
           | Some request \<Rightarrow>
               (case request a s of
                  None \<Rightarrow> None
                | Some (Some er, s') \<Rightarrow> Some ((requested, Some er), s')
                | Some (None, s') \<Rightarrow> submit_all sink as (requested @ [a]) s')))"

fun handle_rules ::
  "'s host \<Rightarrow> iter_order \<Rightarrow> event \<Rightarrow> session \<Rightarrow> rule list \<Rightarrow> action list \<Rightarrow> 's \<Rightarrow>
     ((action list \<times> error option) \<times> 's) option" where
  "handle_rules ho p e x [] requested s = Some ((requested, None), s)"
| "handle_rules ho p e x (r # rs) requested s =
     (if \<not> rule_matches r e x then handle_rules ho p e x rs requested s
      else (let (as, s1) = new_actions ho p r e s
            in (case submit_all (ho_sink ho) as requested s1 of
                  None \<Rightarrow> None
                | Some ((requested', Some er), s2) \<Rightarrow> Some ((requested', Some er), s2)
                | Some ((requested', None), s2) \<Rightarrow> handle_rules ho p e x rs requested' s2)))"

definition handle_event ::
  "'s host \<Rightarrow> iter_order \<Rightarrow> event \<Rightarrow> 's \<Rightarrow> ((action list \<times> error option) \<times> 's) option" where
  "handle_event ho p e s =
     (case event_validate e of
        Some er \<Rightarrow> Some (([], Some er), s)
      | None \<Rightarrow> handle_rules ho p e (resolve_session ho e s) (en_rules (ho_engine ho s)) [] s)"

section \<open>Rules: all or nothing\<close>

lemma set_rules_loop_eq:
  "set_rules_loop done rs =
     (case first_error rule_validate rs of Some e \<Rightarrow> Inl e | None \<Rightarrow> Inr (done @ rs))"
  by (induction rs arbitrary: "done") (auto split: option.splits)

lemma set_rules_eq:
  "set_rules rs en =
     (case first_error rule_validate rs of Some e \<Rightarrow> Inl e | None \<Rightarrow> Inr (en\<lparr>en_rules := rs\<rparr>))"
  by (simp add: set_rules_def set_rules_loop_eq split: option.splits)

lemma set_rules_valid: "\<forall>r \<in> set rs. rule_validate r = None \<Longrightarrow> set_rules rs en = Inr (en\<lparr>en_rules := rs\<rparr>)"
  using first_error_None [of rule_validate rs] by (simp add: set_rules_eq)

section \<open>The requests of a rule\<close>

text \<open>What holds of every request made for an event, whatever the rule's action.\<close>

definition request_of :: "rule \<Rightarrow> event \<Rightarrow> action \<Rightarrow> bool" where
  "request_of r e a \<longleftrightarrow>
     acSource a = ''workflow:'' @ rlID r \<and> acStatus a = ''requested'' \<and>
     acSessionID a = evSessionID e \<and> acTraceID a = trace_of e \<and> acDepth a = wrap64 (evDepth e + 1)"

lemma new_requests_forall:
  assumes "\<And>wa en. wa \<in> set was \<Longrightarrow> P (fst (new_request p r e x wa en))"
  shows "\<forall>a \<in> set (fst (new_requests p r e x was en)). P a"
  using assms
proof (induction was arbitrary: en)
  case Nil
  then show ?case by simp
next
  case (Cons wa was)
  obtain a en1 where a: "new_request p r e x wa en = (a, en1)" by (meson surj_pair)
  obtain as en2 where as: "new_requests p r e x was en1 = (as, en2)" by (meson surj_pair)
  have "P a" using Cons.prems [of wa en] a by simp
  moreover have "\<forall>a \<in> set as. P a" using Cons.IH [of en1] Cons.prems as by fastforce
  ultimately show ?case using a as by simp
qed

lemma new_requests_of: "\<forall>a \<in> set (fst (new_requests p r e x was en)). request_of r e a"
  by (rule new_requests_forall) (simp add: new_request_def request_of_def Let_def)

text \<open>Nothing a valid rule asks for fails validation: the early return is never taken.\<close>

lemma workflow_text_not_blank:
  "\<not> blank (''workflow-'' @ s)" "\<not> blank (''workflow:'' @ s)"
  by (rule not_blank [of "CHR ''w''"]; auto simp: space_runes_def)+

lemma new_request_valid:
  assumes "\<not> blank (waType wa)" "waRisk wa \<in> set risks" "\<not> is_zero (en_now en (en_seq en + 1))"
  shows "action_validate (fst (new_request p r e x wa en)) = None"
  using assms workflow_text_not_blank
  by (simp add: action_valid_iff new_request_def Let_def action_statuses_def)

lemma new_requests_engine:
  "en_rules (snd (new_requests p r e x was en)) = en_rules en"
  "en_now (snd (new_requests p r e x was en)) = en_now en"
  "en_seq (snd (new_requests p r e x was en)) = en_seq en + of_nat (length was)"
  by (induction was arbitrary: en) (simp_all add: new_request_def case_prod_beta Let_def algebra_simps)

lemma new_requests_valid:
  assumes "rule_validate r = None" and "\<And>n. \<not> is_zero (en_now en n)"
  shows "\<forall>a \<in> set (fst (new_requests p r e x (get_actions r) en)). action_validate a = None"
proof -
  have step: "\<forall>wa \<in> set was. \<not> blank (waType wa) \<and> waRisk wa \<in> set risks \<Longrightarrow>
      \<forall>a \<in> set (fst (new_requests p r e x was en')). action_validate a = None"
    if "en_now en' = en_now en" for was en'
    using that
  proof (induction was arbitrary: en')
    case (Cons wa was)
    have "action_validate (fst (new_request p r e x wa en')) = None"
      by (rule new_request_valid) (use Cons.prems assms(2) in auto)
    moreover have "en_now (snd (new_request p r e x wa en')) = en_now en"
      using Cons.prems by (simp add: new_request_def Let_def)
    ultimately show ?case
      using Cons.IH [of "snd (new_request p r e x wa en')"] Cons.prems by (simp add: case_prod_beta Let_def)
  qed simp
  from assms(1) have "\<forall>wa \<in> set (get_actions r). \<not> blank (waType wa) \<and> waRisk wa \<in> set risks"
    by (simp add: rule_valid_iff)
  with step [OF refl] show ?thesis .
qed

text \<open>The identifiers count up from the sequence number, so they are pairwise different.\<close>

definition request_id :: "rule \<Rightarrow> 64 word \<Rightarrow> string" where
  "request_id r n = ''workflow-'' @ rlID r @ ''-'' @ itoa_nat (unat n)"

lemma request_id_inj: "request_id r m = request_id r' n \<Longrightarrow> rlID r = rlID r' \<and> m = n"
proof -
  assume "request_id r m = request_id r' n"
  then have "(''workflow-'' @ rlID r) @ CHR ''-'' # itoa_nat (unat m) =
      (''workflow-'' @ rlID r') @ CHR ''-'' # itoa_nat (unat n)"
    by (simp add: request_id_def)
  from dash_suffix_inj [OF this] show ?thesis by (simp add: word_unat_eq_iff)
qed

lemma new_requests_ids:
  "map acID (fst (new_requests p r e x was en)) =
     map (\<lambda>i. request_id r (en_seq en + 1 + of_nat i)) [0..<length was]"
proof (induction was arbitrary: en)
  case Nil
  then show ?case by simp
next
  case (Cons wa was)
  let ?en = "snd (new_request p r e x wa en)"
  have seq: "en_seq ?en = en_seq en + 1" by (simp add: new_request_def Let_def)
  have "map acID (fst (new_requests p r e x (wa # was) en)) =
      request_id r (en_seq en + 1) # map acID (fst (new_requests p r e x was ?en))"
    by (simp add: case_prod_beta Let_def new_request_def request_id_def)
  also have "\<dots> = map (\<lambda>i. request_id r (en_seq en + 1 + of_nat i)) (0 # map Suc [0..<length was])"
    by (simp add: Cons.IH seq algebra_simps)
  finally show ?case by (simp add: upt_conv_Cons map_Suc_upt del: upt_Suc)
qed

lemma new_requests_distinct:
  assumes "length was \<le> 2 ^ 64"
  shows "distinct (map acID (fst (new_requests p r e x was en)))"
proof -
  have "inj_on (\<lambda>i. request_id r (en_seq en + 1 + of_nat i)) {0..<length was}"
  proof (rule inj_onI)
    fix i j assume ij: "i \<in> {0..<length was}" "j \<in> {0..<length was}"
      and eq: "request_id r (en_seq en + 1 + of_nat i) = request_id r (en_seq en + 1 + of_nat j)"
    from request_id_inj [OF eq] have "(of_nat i :: 64 word) = of_nat j" by simp
    moreover have "unat (of_nat n :: 64 word) = n" if "n < length was" for n
      using that assms by (simp add: unat_of_nat)
    ultimately show "i = j" using ij by (metis atLeastLessThan_iff)
  qed
  then show ?thesis by (simp add: new_requests_ids distinct_map)
qed

text \<open>
  The payload of a request: the keys of the action's payload carry their interpolated values,
  and the four keys of the engine their own unless the action's payload names them.
\<close>

lemma fold_update_map_of:
  "wf_map m \<Longrightarrow> map_of (fold (\<lambda>kv out. AList.update (fst kv) (f (snd kv)) out) m acc) k =
     (case map_of m k of Some v \<Rightarrow> Some (f v) | None \<Rightarrow> map_of acc k)"
proof (induction m arbitrary: acc)
  case Nil
  then show ?case by simp
next
  case (Cons kv m)
  then have "wf_map m" and "map_of m (fst kv) = None"
    by (auto simp: wf_map_def map_of_eq_None_iff)
  with Cons.IH show ?case by (cases kv) (auto split: option.splits)
qed

lemma request_payload_map_of:
  assumes "valid_order p" "wf_map m"
  shows "map_of (request_payload p r e x m) k =
     (case map_of m k of
        Some v \<Rightarrow> Some (interpolate p v e x)
      | None \<Rightarrow> map_of [(''workflowRuleId'', VStr (rlID r)), (''eventId'', VStr (evID e)),
                  (''eventType'', VStr (evType e)), (''eventSource'', VStr (evSource e))] k)"
  using fold_update_map_of [of "ranged p m" "\<lambda>v. interpolate p v e x"] assms
  by (simp only: request_payload_def wf_map_ranged map_of_ranged)

section \<open>The contract with the sink and its state\<close>

text \<open>
  A program state hosts the engine when writing the engine's counter back is a proper
  update, and its sink keeps the invariant of the state for the valid requests of the event.
\<close>

locale engine_run =
  fixes ho :: "'s host" and inv :: "'s \<Rightarrow> bool" and e :: event
  assumes get_set: "ho_engine ho (ho_set ho en s) = en"
    and set_inv: "inv s \<Longrightarrow> en_rules en = en_rules (ho_engine ho s) \<Longrightarrow>
      en_now en = en_now (ho_engine ho s) \<Longrightarrow> inv (ho_set ho en s)"
    and request_inv: "ho_sink ho = Some request \<Longrightarrow> inv s \<Longrightarrow> action_validate a = None \<Longrightarrow>
      request_of r e a \<Longrightarrow> request a s = Some (er, s') \<Longrightarrow> inv s'"
begin

lemma new_actions_inv:
  assumes "inv s" "new_actions ho p r e s = (as, s1)"
  shows "inv s1 \<and> (\<forall>a \<in> set as. request_of r e a)"
  using assms new_requests_of [of p r e "resolve_session ho e s" "get_actions r" "ho_engine ho s"]
  by (auto simp: new_actions_def Let_def case_prod_beta intro!: set_inv simp: new_requests_engine)

lemma submit_all_inv:
  "submit_all (ho_sink ho) as requested s = Some (res, s') \<Longrightarrow> inv s \<Longrightarrow>
     \<forall>a \<in> set as. request_of r e a \<Longrightarrow> inv s'"
proof (induction as arbitrary: requested s)
  case Nil
  then show ?case by simp
next
  case (Cons a as)
  then show ?case
    by (auto split: option.splits prod.splits dest: request_inv)
qed

lemma handle_rules_inv:
  "handle_rules ho p e x rs requested s = Some (res, s') \<Longrightarrow> inv s \<Longrightarrow> inv s'"
proof (induction rs arbitrary: requested s)
  case Nil
  then show ?case by simp
next
  case (Cons r rs)
  show ?case
  proof (cases "rule_matches r e x")
    case False
    with Cons show ?thesis by simp
  next
    case True
    obtain as s1 where new: "new_actions ho p r e s = (as, s1)" by (meson surj_pair)
    with new_actions_inv [OF Cons.prems(2)] have "inv s1" "\<forall>a \<in> set as. request_of r e a" by auto
    with Cons True new show ?thesis
      by (auto split: option.splits prod.splits dest: submit_all_inv)
  qed
qed

text \<open>Handling an event keeps the invariant of the program, whatever the sink does in between.\<close>

lemma handle_event_inv: "handle_event ho p e s = Some (res, s') \<Longrightarrow> inv s \<Longrightarrow> inv s'"
  by (auto simp: handle_event_def split: option.splits dest: handle_rules_inv)

end

text \<open>The same for every event, with a sink that keeps the invariant for every valid request.\<close>

locale engine_host =
  fixes ho :: "'s host" and inv :: "'s \<Rightarrow> bool"
  assumes get_set: "ho_engine ho (ho_set ho en s) = en"
    and set_inv: "inv s \<Longrightarrow> en_rules en = en_rules (ho_engine ho s) \<Longrightarrow>
      en_now en = en_now (ho_engine ho s) \<Longrightarrow> inv (ho_set ho en s)"
    and sink_inv: "ho_sink ho = Some request \<Longrightarrow> inv s \<Longrightarrow> action_validate a = None \<Longrightarrow>
      request a s = Some (er, s') \<Longrightarrow> inv s'"

sublocale engine_host \<subseteq> run: engine_run ho inv e for e
  by unfold_locales (auto simp: get_set intro: set_inv sink_inv)

context engine_host
begin

lemma new_actions_inv: "inv s \<Longrightarrow> new_actions ho p r e s = (as, s1) \<Longrightarrow> inv s1"
  using run.new_actions_inv by blast

lemma submit_all_inv:
  "submit_all (ho_sink ho) as requested s = Some (res, s') \<Longrightarrow> inv s \<Longrightarrow> inv s'"
  by (induction as arbitrary: requested s) (auto split: option.splits prod.splits dest: sink_inv)

lemma handle_event_inv: "handle_event ho p e s = Some (res, s') \<Longrightarrow> inv s \<Longrightarrow> inv s'"
  by (rule run.handle_event_inv)

text \<open>If the sink always returns, so does the handling of an event.\<close>

lemma submit_all_returns:
  assumes "\<And>request a t. ho_sink ho = Some request \<Longrightarrow> inv t \<Longrightarrow> request a t \<noteq> None" and "inv s"
  shows "submit_all (ho_sink ho) as requested s \<noteq> None"
  using assms(2)
proof (induction as arbitrary: requested s)
  case Nil
  then show ?case by simp
next
  case (Cons a as)
  show ?case
  proof (cases "ho_sink ho")
    case None
    with Cons show ?thesis by (auto split: option.splits)
  next
    case (Some request)
    with assms(1) Cons.prems obtain er t where "request a s = Some (er, t)" by fastforce
    with Some Cons sink_inv [OF Some Cons.prems _ this] show ?thesis
      by (auto split: option.splits)
  qed
qed

lemma handle_rules_returns:
  assumes "\<And>request a t. ho_sink ho = Some request \<Longrightarrow> inv t \<Longrightarrow> request a t \<noteq> None" and "inv s"
  shows "handle_rules ho p e x rs requested s \<noteq> None"
  using assms(2)
proof (induction rs arbitrary: requested s)
  case Nil
  then show ?case by simp
next
  case (Cons r rs)
  obtain as s1 where new: "new_actions ho p r e s = (as, s1)" by (meson surj_pair)
  with new_actions_inv [OF Cons.prems] have inv1: "inv s1" by blast
  obtain requested' er s2 where sub: "submit_all (ho_sink ho) as requested s1 = Some ((requested', er), s2)"
    using submit_all_returns [of s1 as requested] assms(1) inv1 by (metis not_Some_eq prod.exhaust)
  from submit_all_inv [OF sub inv1] have "inv s2" .
  with Cons new sub show ?case by (auto split: option.splits)
qed

lemma handle_event_returns:
  "(\<And>request a t. ho_sink ho = Some request \<Longrightarrow> inv t \<Longrightarrow> request a t \<noteq> None) \<Longrightarrow> inv s \<Longrightarrow>
     handle_event ho p e s \<noteq> None"
  unfolding handle_event_def by (cases "event_validate e") (simp_all add: handle_rules_returns del: not_None_eq)

text \<open>If it never returns, neither does the handling of an event that some rule matches.\<close>

lemma handle_rules_diverges:
  assumes sink: "ho_sink ho = Some request"
    and never: "\<And>a t. inv t \<Longrightarrow> action_validate a = None \<Longrightarrow> request a t = None"
    and clock: "\<And>t n. inv t \<Longrightarrow> \<not> is_zero (en_now (ho_engine ho t) n)"
    and "\<forall>r \<in> set rs. rule_validate r = None" "r \<in> set rs" "rule_matches r e x" "inv s"
  shows "handle_rules ho p e x rs requested s = None"
  using assms(4-7)
proof (induction rs arbitrary: s)
  case Nil
  then show ?case by simp
next
  case (Cons q rs)
  show ?case
  proof (cases "rule_matches q e x")
    case False
    with Cons show ?thesis by auto
  next
    case True
    obtain as s1 where new: "new_actions ho p q e s = (as, s1)" by (meson surj_pair)
    with new_actions_inv [OF Cons.prems(4)] have inv1: "inv s1" by blast
    have as: "as = fst (new_requests p q e (resolve_session ho e s) (get_actions q) (ho_engine ho s))"
      using new by (simp add: new_actions_def Let_def case_prod_beta)
    have "\<forall>a \<in> set as. action_validate a = None"
      unfolding as by (rule new_requests_valid) (use Cons.prems clock in auto)
    moreover have "as \<noteq> []"
    proof -
      have "length as = length (get_actions q)"
        using arg_cong [OF new_requests_ids, of length] by (simp add: as)
      moreover have "get_actions q \<noteq> []" using Cons.prems(1) by (auto simp: rule_valid_iff)
      ultimately show ?thesis by auto
    qed
    ultimately obtain a as' where "as = a # as'" "action_validate a = None"
      by (cases as) auto
    with True new sink never [OF inv1] show ?thesis by simp
  qed
qed

lemma handle_event_diverges:
  assumes "ho_sink ho = Some request"
    and "\<And>a t. inv t \<Longrightarrow> action_validate a = None \<Longrightarrow> request a t = None"
    and "\<And>t n. inv t \<Longrightarrow> \<not> is_zero (en_now (ho_engine ho t) n)"
    and "\<forall>r \<in> set (en_rules (ho_engine ho s)). rule_validate r = None"
    and "r \<in> set (en_rules (ho_engine ho s))" "\<And>x. rule_matches r e x"
    and "inv s" "event_validate e = None"
  shows "handle_event ho p e s = None"
  unfolding handle_event_def using assms(8)
  by (simp, intro handle_rules_diverges [OF assms(1-5)] assms(6,7))

end

text \<open>What handling an event returns depends on what the sink returns, not on how.\<close>

lemma new_actions_sink [simp]:
  "new_actions (ho\<lparr>ho_sink := k\<rparr>) p r e s = new_actions ho p r e s"
  "resolve_session (ho\<lparr>ho_sink := k\<rparr>) e s = resolve_session ho e s"
  by (simp_all add: new_actions_def resolve_session_def)

lemma submit_all_mono:
  assumes "\<And>a s r. f a s = Some r \<Longrightarrow> g a s = Some r"
  shows "submit_all (Some f) as requested s = Some r \<Longrightarrow> submit_all (Some g) as requested s = Some r"
proof (induction as arbitrary: requested s)
  case Nil
  then show ?case by simp
next
  case (Cons a as)
  show ?case
  proof (cases "action_validate a")
    case None
    with Cons.prems obtain er t where "f a s = Some (er, t)"
      by (auto split: option.splits)
    with assms [OF this] None Cons show ?thesis by (auto split: option.splits)
  next
    case (Some er)
    with Cons.prems show ?thesis by simp
  qed
qed

lemma handle_rules_mono:
  assumes "\<And>a s r. f a s = Some r \<Longrightarrow> g a s = Some r"
  shows "handle_rules (ho\<lparr>ho_sink := Some f\<rparr>) p e x rs requested s = Some r \<Longrightarrow>
    handle_rules (ho\<lparr>ho_sink := Some g\<rparr>) p e x rs requested s = Some r"
proof (induction rs arbitrary: requested s)
  case Nil
  then show ?case by simp
next
  case (Cons q rs)
  show ?case
  proof (cases "rule_matches q e x")
    case False
    with Cons show ?thesis by simp
  next
    case True
    obtain as s1 where new: "new_actions ho p q e s = (as, s1)" by (meson surj_pair)
    with True Cons.prems obtain requested' er s2 where
      sub: "submit_all (Some f) as requested s1 = Some ((requested', er), s2)"
      by (auto split: option.splits)
    from submit_all_mono [where g = g, OF assms sub] True new sub Cons show ?thesis
      by (auto split: option.splits)
  qed
qed

lemma handle_event_mono:
  assumes "\<And>a s r. f a s = Some r \<Longrightarrow> g a s = Some r"
    and "handle_event (ho\<lparr>ho_sink := Some f\<rparr>) p e s = Some r"
  shows "handle_event (ho\<lparr>ho_sink := Some g\<rparr>) p e s = Some r"
  using assms(2) handle_rules_mono [where g = g, OF assms(1)]
  by (auto simp: handle_event_def split: option.splits)

text \<open>The requests an event leads to, when the sink refuses none and leaves the engine alone.\<close>

lemma submit_all_extends:
  "submit_all sink as requested s = Some ((requested', er), s') \<Longrightarrow>
     \<exists>n \<le> length as. requested' = requested @ take n as \<and> (er = None \<longrightarrow> n = length as)"
proof (induction as arbitrary: requested s)
  case Nil
  then show ?case by simp
next
  case (Cons a as)
  have go: ?case if "submit_all sink as (requested @ [a]) t = Some ((requested', er), s')" for t
  proof -
    from Cons.IH [OF that] obtain n where "n \<le> length as"
      "requested' = (requested @ [a]) @ take n as" "er = None \<longrightarrow> n = length as" by blast
    then show ?thesis by (intro exI [of _ "Suc n"]) simp
  qed
  have stop: ?case if "requested' = requested" "er \<noteq> None"
    using that by (intro exI [of _ 0]) simp
  show ?case
  proof (cases "action_validate a")
    case (Some e)
    with Cons.prems have "requested' = requested" and "er = Some e" by simp_all
    then show ?thesis by (intro stop) simp_all
  next
    case None
    note valid = this
    show ?thesis
    proof (cases sink)
      case None
      with valid Cons.prems show ?thesis by (intro go [of s]) simp
    next
      case (Some request)
      with valid Cons.prems obtain oe t where req: "request a s = Some (oe, t)"
        by (auto split: option.splits)
      show ?thesis
      proof (cases oe)
        case None
        with valid Some req Cons.prems show ?thesis by (intro go [of t]) simp
      next
        case (Some e)
        with valid \<open>sink = Some request\<close> req Cons.prems have "requested' = requested" and "er = Some e"
          by simp_all
        then show ?thesis by (intro stop) simp_all
      qed
    qed
  qed
qed

end
