(* ===== verification/Bus.thy ===== *)
theory Bus
  imports Types
begin

text \<open>
  The event bus, \<^verbatim>\<open>internal/events/bus.go\<close>. Handlers have a type of their own; calling one is
  \<open>bh_invoke\<close>, which may change the whole program state \<open>'s\<close> (the bus included, since
  handlers publish events themselves) and may not return (\<open>None\<close>).
\<close>

record 'h bus =
  bs_timeout :: int
  bs_limit :: int
  bs_subscribers :: "(64 word \<times> 'h) list gomap"
  bs_wildcards :: "(64 word \<times> 'h) list"
  bs_history :: "event list"
  bs_next :: "64 word"

record subscription =
  su_type :: string
  su_id :: "64 word"
  su_done :: bool

text \<open>Durations are nanoseconds.\<close>

definition new_bus :: "int \<Rightarrow> int \<Rightarrow> 'h bus" where
  "new_bus timeout limit =
     \<lparr>bs_timeout = (if timeout \<le> 0 then 5 * 10 ^ 9 else timeout), bs_limit = limit,
      bs_subscribers = [], bs_wildcards = [], bs_history = [], bs_next = 0\<rparr>"

section \<open>Subscriptions\<close>

definition typed_handlers :: "'h bus \<Rightarrow> string \<Rightarrow> (64 word \<times> 'h) list" where
  "typed_handlers b t = (case map_of (bs_subscribers b) t of None \<Rightarrow> [] | Some hs \<Rightarrow> hs)"

definition bus_subscribe ::
  "string \<Rightarrow> 'h option \<Rightarrow> 'h bus \<Rightarrow> subscription res \<times> 'h bus" where
  "bus_subscribe t handler b =
     (case handler of
        None \<Rightarrow> (Inl (New ''event handler is required''), b)
      | Some h \<Rightarrow>
          (let i = bs_next b + 1; b1 = b\<lparr>bs_next := i\<rparr>
           in if t = [] \<or> t = ''*'' then
                (Inr \<lparr>su_type = ''*'', su_id = i, su_done = False\<rparr>,
                 b1\<lparr>bs_wildcards := AList.update i h (bs_wildcards b1)\<rparr>)
              else
                (Inr \<lparr>su_type = t, su_id = i, su_done = False\<rparr>,
                 b1\<lparr>bs_subscribers :=
                    AList.update t (AList.update i h (typed_handlers b1 t)) (bs_subscribers b1)\<rparr>)))"

definition bus_remove :: "string \<Rightarrow> 64 word \<Rightarrow> 'h bus \<Rightarrow> 'h bus" where
  "bus_remove t i b =
     (if t = ''*'' then b\<lparr>bs_wildcards := AList.delete i (bs_wildcards b)\<rparr>
      else
        (let hs = AList.delete i (typed_handlers b t);
             b1 = b\<lparr>bs_subscribers :=
                      (case map_of (bs_subscribers b) t of
                         None \<Rightarrow> bs_subscribers b
                       | Some _ \<Rightarrow> AList.update t hs (bs_subscribers b))\<rparr>
         in if hs = [] then b1\<lparr>bs_subscribers := AList.delete t (bs_subscribers b1)\<rparr> else b1))"

text \<open>\<^verbatim>\<open>Unsubscribe\<close> on a nil subscription does nothing; on any other it removes once.\<close>

definition bus_unsubscribe ::
  "subscription option \<Rightarrow> 'h bus \<Rightarrow> subscription option \<times> 'h bus" where
  "bus_unsubscribe sub b =
     (case sub of
        None \<Rightarrow> (None, b)
      | Some s \<Rightarrow>
          if su_done s then (Some s, b)
          else (Some (s\<lparr>su_done := True\<rparr>), bus_remove (su_type s) (su_id s) b))"

section \<open>History\<close>

definition keep_last :: "int \<Rightarrow> 'a list \<Rightarrow> 'a list" where
  "keep_last limit xs =
     (if int (length xs) > limit then drop (nat (int (length xs) - limit)) xs else xs)"

definition bus_record :: "event \<Rightarrow> 'h bus \<Rightarrow> 'h bus" where
  "bus_record e b =
     (if bs_limit b \<le> 0 then b
      else b\<lparr>bs_history := keep_last (bs_limit b) (bs_history b @ [e])\<rparr>)"

definition bus_history :: "'h bus \<Rightarrow> event list" where
  "bus_history b = bs_history b"

fun restore_loop :: "int \<Rightarrow> event list \<Rightarrow> event list \<Rightarrow> event list" where
  "restore_loop limit history [] = history"
| "restore_loop limit history (e # es) = restore_loop limit (keep_last limit (history @ [e])) es"

definition bus_restore_history :: "event list \<Rightarrow> 'h bus \<Rightarrow> 'h bus" where
  "bus_restore_history es b =
     (if bs_limit b \<le> 0 then b else b\<lparr>bs_history := restore_loop (bs_limit b) [] es\<rparr>)"

section \<open>Publishing\<close>

definition snapshot_handlers :: "iter_order \<Rightarrow> iter_order \<Rightarrow> string \<Rightarrow> 'h bus \<Rightarrow> 'h list" where
  "snapshot_handlers p q t b =
     map snd (ranged p (typed_handlers b t)) @ map snd (ranged q (bs_wildcards b))"

text \<open>
  Which case of the \<^verbatim>\<open>select\<close> in \<^verbatim>\<open>callHandler\<close> is taken depends on the clock and on the
  caller's context: the handler's result, its timeout, or the cancelled context with its
  error. The handler runs in its own goroutine and is not stopped by the other two; its
  effects are placed before the return.
\<close>

datatype select = Finished | TimedOut | Cancelled error

definition err_deadline_exceeded :: error where
  "err_deadline_exceeded = New ''context deadline exceeded''"

record ('h, 's) bus_host =
  bh_get :: "'s \<Rightarrow> 'h bus"
  bh_set :: "'h bus \<Rightarrow> 's \<Rightarrow> 's"
  bh_invoke :: "'h \<Rightarrow> event \<Rightarrow> 's \<Rightarrow> (error option \<times> 's) option"
  bh_orders :: "'s \<Rightarrow> iter_order \<times> iter_order \<times> 's"
  bh_select :: "'s \<Rightarrow> select \<times> 's"

definition call_handler ::
  "('h, 's) bus_host \<Rightarrow> 'h \<Rightarrow> event \<Rightarrow> 's \<Rightarrow> (error option \<times> 's) option" where
  "call_handler bh h e s =
     (case bh_invoke bh h e s of
        None \<Rightarrow> None
      | Some (er, s1) \<Rightarrow>
          (let (sel, s2) = bh_select bh s1
           in Some (case sel of
                      Finished \<Rightarrow> er
                    | TimedOut \<Rightarrow>
                        Some (Wrap (''event handler timeout for '' @ evType e @ '': '') err_deadline_exceeded [])
                    | Cancelled ce \<Rightarrow> Some ce, s2)))"

fun call_handlers ::
  "('h, 's) bus_host \<Rightarrow> 'h list \<Rightarrow> event \<Rightarrow> error option list \<Rightarrow> 's \<Rightarrow> (error option list \<times> 's) option" where
  "call_handlers bh [] e errs s = Some (errs, s)"
| "call_handlers bh (h # hs) e errs s =
     (case call_handler bh h e s of
        None \<Rightarrow> None
      | Some (er, s1) \<Rightarrow> call_handlers bh hs e (errs @ [er]) s1)"

definition max_depth :: int where
  "max_depth = 20"

definition err_cycle :: "string \<Rightarrow> error" where
  "err_cycle t = New (''event bus cycle detected: max depth 20 exceeded for event type '' @ t)"

definition bus_publish ::
  "('h, 's) bus_host \<Rightarrow> event \<Rightarrow> 's \<Rightarrow> (error option \<times> 's) option" where
  "bus_publish bh e s =
     (if evDepth e > max_depth then Some (Some (err_cycle (evType e)), s)
      else case event_validate e of
        Some er \<Rightarrow> Some (Some er, s)
      | None \<Rightarrow>
          (let (p, q, s1) = bh_orders bh s;
               handlers = snapshot_handlers p q (evType e) (bh_get bh s1);
               s2 = bh_set bh (bus_record e (bh_get bh s1)) s1
           in (case call_handlers bh handlers e [] s2 of
                 None \<Rightarrow> None
               | Some (errs, s3) \<Rightarrow> Some (errors_join errs, s3))))"

section \<open>History as a window on everything published\<close>

lemma keep_last_length: "0 \<le> n \<Longrightarrow> int (length (keep_last n xs)) = min n (int (length xs))"
  by (auto simp: keep_last_def)

lemma keep_last_nonneg: "keep_last (int n) xs = drop (length xs - n) xs"
  by (auto simp: keep_last_def nat_diff_distrib')

lemma keep_last_rev: "keep_last (int n) xs = rev (take n (rev xs))"
  by (simp add: keep_last_nonneg take_rev)

lemma keep_last_keep_last:
  assumes "0 \<le> n"
  shows "keep_last n (keep_last n xs @ ys) = keep_last n (xs @ ys)"
proof -
  from assms obtain m where n: "n = int m" by (metis nonneg_int_cases)
  show ?thesis by (simp add: n keep_last_rev min_def)
qed

lemma keep_last_fits: "int (length xs) \<le> n \<Longrightarrow> keep_last n xs = xs"
  by (simp add: keep_last_def)

lemma restore_loop_eq:
  "0 \<le> n \<Longrightarrow> keep_last n h = h \<Longrightarrow> restore_loop n h es = keep_last n (h @ es)"
proof (induction es arbitrary: h)
  case Nil
  then show ?case by simp
next
  case (Cons e es)
  have "keep_last n (keep_last n (h @ [e])) = keep_last n (h @ [e])"
    using keep_last_keep_last [OF Cons.prems(1), of "h @ [e]" "[]"] by simp
  with Cons.IH [OF Cons.prems(1)] keep_last_keep_last [OF Cons.prems(1), of "h @ [e]" es]
  show ?case by simp
qed

text \<open>The history holds the last events of the log of everything recorded.\<close>

definition history_of :: "event list \<Rightarrow> 'h bus \<Rightarrow> bool" where
  "history_of log b \<longleftrightarrow> bs_history b = (if bs_limit b \<le> 0 then [] else keep_last (bs_limit b) log)"

lemma history_of_new: "history_of [] (new_bus t l)"
  by (simp add: history_of_def new_bus_def keep_last_def)

lemma history_of_record: "history_of log b \<Longrightarrow> history_of (log @ [e]) (bus_record e b)"
  by (simp add: history_of_def bus_record_def keep_last_keep_last)

lemma history_of_restore: "0 < bs_limit b \<Longrightarrow> history_of es (bus_restore_history es b)"
  by (simp add: history_of_def bus_restore_history_def restore_loop_eq keep_last_fits)

lemma history_of_length: "history_of log b \<Longrightarrow> int (length (bs_history b)) \<le> max 0 (bs_limit b)"
  by (simp add: history_of_def keep_last_length)

section \<open>Subscribing and unsubscribing\<close>

text \<open>Identifiers are distinct and none is above the counter; no type has an empty table.\<close>

definition bus_wf :: "'h bus \<Rightarrow> bool" where
  "bus_wf b \<longleftrightarrow>
     wf_map (bs_subscribers b) \<and> wf_map (bs_wildcards b) \<and>
     (\<forall>t hs. map_of (bs_subscribers b) t = Some hs \<longrightarrow>
        hs \<noteq> [] \<and> wf_map hs \<and> (\<forall>i \<in> fst ` set hs. i \<le> bs_next b)) \<and>
     (\<forall>i \<in> fst ` set (bs_wildcards b). i \<le> bs_next b)"

lemma bus_wf_new [simp]: "bus_wf (new_bus t l)"
  by (simp add: bus_wf_def new_bus_def)

text \<open>Subscribing keeps the tables in order as long as the counter does not wrap.\<close>

lemma bus_wf_handlers:
  "bus_wf b \<Longrightarrow> wf_map (typed_handlers b t) \<and> (\<forall>i \<in> fst ` set (typed_handlers b t). i \<le> bs_next b)"
  by (cases "map_of (bs_subscribers b) t") (force simp: bus_wf_def typed_handlers_def)+

lemma update_not_Nil [simp]: "AList.update k v m \<noteq> []"
  by (induction m) auto

lemma bus_subscribe_wf:
  assumes "bus_wf b" and "unat (bs_next b) < 2 ^ 64 - 1"
  shows "bus_wf (snd (bus_subscribe t h b))"
proof (cases h)
  case None
  with assms show ?thesis by (simp add: bus_subscribe_def)
next
  case (Some g)
  have less: "bs_next b < bs_next b + 1"
    using assms(2) by (simp add: word_less_nat_alt unat_word_ariths)
  have step: "i \<le> bs_next b \<Longrightarrow> i \<le> bs_next b + 1" for i using less by simp
  note wf = assms(1) [unfolded bus_wf_def]
  have typed: "typed_handlers (b\<lparr>bs_next := n\<rparr>) t = typed_handlers b t" for n
    by (simp add: typed_handlers_def)
  show ?thesis
  proof (cases "t = [] \<or> t = ''*''")
    case True
    then show ?thesis using Some wf step
      by (auto simp: bus_subscribe_def bus_wf_def Let_def dom_update)
  next
    case False
    from bus_wf_handlers [OF assms(1), of t] have
      "wf_map (AList.update (bs_next b + 1) g (typed_handlers b t))"
      "\<forall>i \<in> fst ` set (AList.update (bs_next b + 1) g (typed_handlers b t)). i \<le> bs_next b + 1"
      using step by (auto simp: dom_update)
    with False Some wf step show ?thesis
      by (auto simp: bus_subscribe_def bus_wf_def Let_def typed split: if_splits)
  qed
qed

lemma delete_update_fresh: "map_of m k = None \<Longrightarrow> AList.delete k (AList.update k v m) = m"
  by (simp add: delete_update_same delete_id map_of_eq_None_iff)

lemma bus_wf_fresh:
  assumes "bus_wf b" and "unat (bs_next b) < 2 ^ 64 - 1"
  shows "map_of (bs_wildcards b) (bs_next b + 1) = None" and "map_of (typed_handlers b t) (bs_next b + 1) = None"
proof -
  have "bs_next b < bs_next b + 1"
    using assms(2) by (simp add: word_less_nat_alt unat_word_ariths)
  then have "\<not> bs_next b + 1 \<le> bs_next b" by simp
  then have absent: "\<forall>i \<in> fst ` set m. i \<le> bs_next b \<Longrightarrow> map_of m (bs_next b + 1) = None" for m :: "(64 word \<times> 'a) list"
    unfolding map_of_eq_None_iff by blast
  from assms(1) show "map_of (bs_wildcards b) (bs_next b + 1) = None"
    by (intro absent) (simp add: bus_wf_def)
  show "map_of (typed_handlers b t) (bs_next b + 1) = None"
  proof (cases "map_of (bs_subscribers b) t")
    case (Some hs)
    with assms(1) have "\<forall>i \<in> fst ` set hs. i \<le> bs_next b"
      unfolding bus_wf_def by blast
    with Some show ?thesis by (simp add: typed_handlers_def absent)
  qed (simp add: typed_handlers_def)
qed

lemma typed_handlers_update [simp]:
  "typed_handlers (b\<lparr>bs_subscribers := AList.update t hs m\<rparr>) u =
     (if u = t then hs else typed_handlers (b\<lparr>bs_subscribers := m\<rparr>) u)"
  "typed_handlers (b\<lparr>bs_subscribers := AList.delete t m\<rparr>) u =
     (if u = t then [] else typed_handlers (b\<lparr>bs_subscribers := m\<rparr>) u)"
  "typed_handlers (b\<lparr>bs_next := i\<rparr>) u = typed_handlers b u"
  "typed_handlers (b\<lparr>bs_wildcards := w\<rparr>) u = typed_handlers b u"
  "typed_handlers (b\<lparr>bs_subscribers := bs_subscribers b\<rparr>) u = typed_handlers b u"
  by (simp_all add: typed_handlers_def)

text \<open>Removing an identifier touches the table of its type only.\<close>

lemma typed_handlers_remove:
  "typed_handlers (bus_remove t i b) u =
     (if t \<noteq> ''*'' \<and> u = t then AList.delete i (typed_handlers b t) else typed_handlers b u)"
  by (simp add: bus_remove_def Let_def split: option.split) (simp add: typed_handlers_def)

lemma subscribe_unsubscribe:
  assumes "bus_wf b" and "unat (bs_next b) < 2 ^ 64 - 1"
    and "bus_subscribe t (Some h) b = (Inr su, b')"
  shows "bs_wildcards (snd (bus_unsubscribe (Some su) b')) = bs_wildcards b"
    and "typed_handlers (snd (bus_unsubscribe (Some su) b')) u = typed_handlers b u"
proof -
  note fresh = bus_wf_fresh [OF assms(1,2)]
  have undo: "AList.delete (bs_next b + 1) (AList.update (bs_next b + 1) h m) = m"
    if "map_of m (bs_next b + 1) = None" for m
    using that by (rule delete_update_fresh)
  show "bs_wildcards (snd (bus_unsubscribe (Some su) b')) = bs_wildcards b"
    using assms(3) fresh(1)
    by (auto simp: bus_subscribe_def bus_unsubscribe_def bus_remove_def Let_def undo
        split: if_splits option.split)
  show "typed_handlers (snd (bus_unsubscribe (Some su) b')) u = typed_handlers b u"
  proof (cases "t = [] \<or> t = ''*''")
    case True
    with assms(3) show ?thesis
      by (auto simp: bus_subscribe_def bus_unsubscribe_def typed_handlers_remove Let_def)
  next
    case False
    with assms(3) have su: "su_type su = t" "su_id su = bs_next b + 1" "\<not> su_done su"
      and b': "typed_handlers b' v =
        (if v = t then AList.update (bs_next b + 1) h (typed_handlers b t) else typed_handlers b v)" for v
      by (auto simp: bus_subscribe_def Let_def)
    from False su b' undo [OF fresh(2)] show ?thesis
      by (simp add: bus_unsubscribe_def typed_handlers_remove)
  qed
qed

section \<open>Publishing\<close>

lemma publish_rejects:
  "evDepth e > max_depth \<or> event_validate e \<noteq> None \<Longrightarrow> \<exists>er. bus_publish bh e s = Some (Some er, s)"
  by (auto simp: bus_publish_def split: option.splits)

text \<open>The handlers of a type and the wildcards are called, each once, whatever the others return.\<close>

lemma snapshot_handlers_mset:
  "valid_order p \<Longrightarrow> valid_order q \<Longrightarrow>
     mset (snapshot_handlers p q t b) = mset (map snd (typed_handlers b t)) + mset (map snd (bs_wildcards b))"
  by (simp add: snapshot_handlers_def)

lemma call_handlers_errs:
  "call_handlers bh hs e errs s = Some (errs', s') \<Longrightarrow>
     \<exists>more. errs' = errs @ more \<and> length more = length hs"
proof (induction hs arbitrary: errs s)
  case Nil
  then show ?case by simp
next
  case (Cons h hs)
  then obtain er s1 where "call_handlers bh hs e (errs @ [er]) s1 = Some (errs', s')"
    by (auto split: option.splits)
  from Cons.IH [OF this] show ?case by auto
qed

text \<open>
  A program with handlers: its bus is read and written properly, and every handler keeps the
  invariant of the program for the events the contract is about.
\<close>

locale bus_system =
  fixes bh :: "('h, 's) bus_host" and inv :: "'s \<Rightarrow> bool" and ok :: "event \<Rightarrow> bool"
  assumes get_set: "bh_get bh (bh_set bh b s) = b"
    and record_inv: "inv s \<Longrightarrow> inv (bh_set bh (bus_record e (bh_get bh s)) s)"
    and invoke_inv: "ok e \<Longrightarrow> inv s \<Longrightarrow> bh_invoke bh h e s = Some (er, s') \<Longrightarrow> inv s'"
    and orders_inv: "inv s \<Longrightarrow> bh_orders bh s = (p, q, s') \<Longrightarrow> inv s'"
    and select_inv: "inv s \<Longrightarrow> bh_select bh s = (sel, s') \<Longrightarrow> inv s'"
begin

lemma call_handler_inv: "ok e \<Longrightarrow> inv s \<Longrightarrow> call_handler bh h e s = Some (er, s') \<Longrightarrow> inv s'"
  by (auto simp: call_handler_def Let_def split: option.splits prod.splits
      dest: invoke_inv select_inv)

lemma call_handlers_inv: "ok e \<Longrightarrow> inv s \<Longrightarrow> call_handlers bh hs e errs s = Some (errs', s') \<Longrightarrow> inv s'"
  by (induction hs arbitrary: errs s)
     (auto split: option.splits dest: call_handler_inv)

lemma publish_inv: "ok e \<Longrightarrow> inv s \<Longrightarrow> bus_publish bh e s = Some (er, s') \<Longrightarrow> inv s'"
  by (auto simp: bus_publish_def Let_def split: if_splits option.splits prod.splits
      intro: orders_inv record_inv elim!: call_handlers_inv [rotated 2])

text \<open>If no handler of the event fails to return, publishing returns.\<close>

lemma call_handlers_returns:
  assumes "\<And>h t. h \<in> set hs \<Longrightarrow> inv t \<Longrightarrow> bh_invoke bh h e t \<noteq> None" and ok: "ok e" and "inv s"
  shows "call_handlers bh hs e errs s \<noteq> None"
  using assms(1,3)
proof (induction hs arbitrary: errs s)
  case Nil
  then show ?case by simp
next
  case (Cons h hs)
  from Cons.prems have "bh_invoke bh h e s \<noteq> None" by simp
  then obtain er s1 where "call_handler bh h e s = Some (er, s1)"
    by (auto simp: call_handler_def Let_def case_prod_beta)
  moreover from this Cons.prems(2) have "inv s1" by (blast intro: call_handler_inv [OF ok])
  ultimately show ?case using Cons by auto
qed

text \<open>If one of them never returns, neither does publishing.\<close>

lemma call_handlers_diverges:
  assumes "h \<in> set hs" and never: "\<And>t. inv t \<Longrightarrow> bh_invoke bh h e t = None" and ok: "ok e" and "inv s"
  shows "call_handlers bh hs e errs s = None"
  using assms(1,4)
proof (induction hs arbitrary: errs s)
  case Nil
  then show ?case by simp
next
  case (Cons g hs)
  show ?case
  proof (cases "call_handler bh g e s")
    case None
    then show ?thesis by simp
  next
    case (Some r)
    then obtain er t where r: "call_handler bh g e s = Some (er, t)" by (cases r) auto
    then have "g \<noteq> h" using never [OF Cons.prems(2)] by (auto simp: call_handler_def)
    with r Cons call_handler_inv [OF ok Cons.prems(2) r] show ?thesis by auto
  qed
qed

lemma publish_diverges:
  assumes "inv s" "evDepth e \<le> max_depth" "event_validate e = None" and ok: "ok e"
    and orders: "\<And>t p q t'. inv t \<Longrightarrow> bh_orders bh t = (p, q, t') \<Longrightarrow> valid_order q"
    and wild: "\<And>t. inv t \<Longrightarrow> h \<in> snd ` set (bs_wildcards (bh_get bh t))"
    and never: "\<And>t. inv t \<Longrightarrow> bh_invoke bh h e t = None"
  shows "bus_publish bh e s = None"
proof -
  obtain p q s1 where o: "bh_orders bh s = (p, q, s1)" by (metis prod.exhaust)
  note inv1 = orders_inv [OF assms(1) o]
  from orders [OF assms(1) o] wild [OF inv1]
  have "h \<in> set (snapshot_handlers p q (evType e) (bh_get bh s1))"
    by (simp add: snapshot_handlers_def)
  with record_inv [OF inv1] have
    "call_handlers bh (snapshot_handlers p q (evType e) (bh_get bh s1)) e []
       (bh_set bh (bus_record e (bh_get bh s1)) s1) = None"
    by (intro call_handlers_diverges [OF _ never ok])
  with o assms(2,3) show ?thesis by (simp add: bus_publish_def)
qed

lemma publish_returns:
  assumes "\<And>h t. inv t \<Longrightarrow> bh_invoke bh h e t \<noteq> None" and ok: "ok e" and "inv s"
  shows "bus_publish bh e s \<noteq> None"
proof -
  obtain p q s1 where o: "bh_orders bh s = (p, q, s1)" by (metis prod.exhaust)
  have "call_handlers bh (snapshot_handlers p q (evType e) (bh_get bh s1)) e []
       (bh_set bh (bus_record e (bh_get bh s1)) s1) \<noteq> None"
    by (rule call_handlers_returns [OF assms(1) ok record_inv [OF orders_inv [OF assms(3) o]]])
  with o show ?thesis by (auto simp: bus_publish_def split: option.splits)
qed

end

text \<open>Calling handlers depends on what the handlers return, not on how.\<close>

lemma call_handlers_mono:
  assumes "\<And>h e s r. I h e s = Some r \<Longrightarrow> J h e s = Some r"
  shows "call_handlers (bh\<lparr>bh_invoke := I\<rparr>) hs e errs s = Some r \<Longrightarrow>
    call_handlers (bh\<lparr>bh_invoke := J\<rparr>) hs e errs s = Some r"
proof (induction hs arbitrary: errs s)
  case Nil
  then show ?case by simp
next
  case (Cons h hs)
  from Cons.prems obtain er s1 where "call_handler (bh\<lparr>bh_invoke := I\<rparr>) h e s = Some (er, s1)"
    and rest: "call_handlers (bh\<lparr>bh_invoke := I\<rparr>) hs e (errs @ [er]) s1 = Some r"
    by (auto split: option.splits)
  then have "call_handler (bh\<lparr>bh_invoke := J\<rparr>) h e s = Some (er, s1)"
    by (auto simp: call_handler_def dest: assms split: option.splits)
  with Cons.IH [OF rest] show ?case by simp
qed

lemma bus_publish_mono:
  assumes I: "\<And>h e s r. I h e s = Some r \<Longrightarrow> J h e s = Some r"
    and pub: "bus_publish (bh\<lparr>bh_invoke := I\<rparr>) e s = Some r"
  shows "bus_publish (bh\<lparr>bh_invoke := J\<rparr>) e s = Some r"
proof (cases "evDepth e > max_depth \<or> event_validate e \<noteq> None")
  case True
  with pub show ?thesis by (auto simp: bus_publish_def)
next
  case False
  obtain p q s1 where o: "bh_orders bh s = (p, q, s1)" by (metis prod.exhaust)
  from False pub o obtain errs s3 where
    "call_handlers (bh\<lparr>bh_invoke := I\<rparr>) (snapshot_handlers p q (evType e) (bh_get bh s1)) e []
       (bh_set bh (bus_record e (bh_get bh s1)) s1) = Some (errs, s3)" and r: "r = (errors_join errs, s3)"
    by (auto simp: bus_publish_def split: option.splits)
  from call_handlers_mono [where J = J, OF I this(1)] False o r show ?thesis
    by (simp add: bus_publish_def)
qed

end
