(* ===== verification/Process.thy ===== *)
theory Process
  imports Types
begin

text \<open>
  The lifecycle of a plugin process, \<^verbatim>\<open>internal/plugins/supervisor/process.go\<close>, and the
  supervisor over all plugins, \<^verbatim>\<open>supervisor.go\<close>. Operating system processes are numbered in
  the order they are started. The goroutines of a plugin are part of the state: the monitors
  (one per started process, each waiting for its own), the restarts that are sleeping, and the
  number of health loops.
\<close>

definition err_already_running :: error where
  "err_already_running = New ''plugin already running''"

definition err_not_running :: error where
  "err_not_running = New ''plugin is not running''"

record process_spec =
  spID :: string
  spCommand :: string
  spArgs :: "string list"
  spDir :: string
  spEnv :: "string list"

record process_options =
  poCallTimeout :: int
  poHealthInterval :: int
  poRestartBackoff :: int
  poMaxRestarts :: int
  poMaxHealthFailures :: int
  poMaxPayloadSize :: int

record process_status =
  psID :: string
  psRunning :: bool
  psStartedAt :: gotime
  psStoppedAt :: gotime
  psUptime :: int
  psRestarts :: int
  psHealthFailures :: int
  psLastError :: string

record response =
  rsID :: string
  rsResult :: string
  rsError :: "error option"

text \<open>
  \<open>pp_cmd\<close> is the process behind \<^verbatim>\<open>p.cmd\<close>, \<open>pp_ctx\<close> the one whose context is \<^verbatim>\<open>p.ctx\<close>, and
  \<open>pp_cancelled\<close> the processes whose context has been cancelled. \<open>pp_pending\<close> holds the
  identifiers of the calls that wait for a response. \<open>pp_alive\<close> are the operating system
  processes that run, \<open>pp_spawned\<close> how many were ever started.
\<close>

record proc =
  pp_spec :: process_spec
  pp_opts :: process_options
  pp_cmd :: "nat option"
  pp_running :: bool
  pp_seq :: "64 word"
  pp_pending :: "string list"
  pp_ctx :: "nat option"
  pp_cancelled :: "nat list"
  pp_restarts :: int
  pp_health :: int
  pp_startedAt :: gotime
  pp_stoppedAt :: gotime
  pp_lastError :: "error option"
  pp_alive :: "nat list"
  pp_spawned :: nat
  pp_monitors :: "nat list"
  pp_sleeping :: nat
  pp_loops :: nat

definition default_options :: "process_options \<Rightarrow> process_options" where
  "default_options o' =
     o'\<lparr>poCallTimeout := (if poCallTimeout o' \<le> 0 then 10 * 10 ^ 9 else poCallTimeout o'),
        poHealthInterval := (if poHealthInterval o' \<le> 0 then 30 * 10 ^ 9 else poHealthInterval o'),
        poRestartBackoff := (if poRestartBackoff o' \<le> 0 then 10 ^ 9 else poRestartBackoff o'),
        poMaxHealthFailures := (if poMaxHealthFailures o' \<le> 0 then 3 else poMaxHealthFailures o'),
        poMaxPayloadSize := (if poMaxPayloadSize o' \<le> 0 then 1024 * 1024 else poMaxPayloadSize o')\<rparr>"

text \<open>\<^verbatim>\<open>p.spec.ID\<close>.\<close>

abbreviation pp_id :: "proc \<Rightarrow> string" where
  "pp_id p \<equiv> spID (pp_spec p)"

definition new_proc :: "process_spec \<Rightarrow> process_options \<Rightarrow> proc" where
  "new_proc spec opts =
     \<lparr>pp_spec = spec, pp_opts = default_options opts, pp_cmd = None, pp_running = False, pp_seq = 0,
      pp_pending = [], pp_ctx = None, pp_cancelled = [], pp_restarts = 0, pp_health = 0,
      pp_startedAt = zero_time, pp_stoppedAt = zero_time, pp_lastError = None, pp_alive = [],
      pp_spawned = 0, pp_monitors = [], pp_sleeping = 0, pp_loops = 0\<rparr>"

section \<open>Status\<close>

text \<open>\<open>now\<close> is the instant \<^verbatim>\<open>time.Since\<close> measures to.\<close>

definition proc_status :: "gotime \<Rightarrow> proc \<Rightarrow> process_status" where
  "proc_status now p =
     \<lparr>psID = pp_id p, psRunning = pp_running p, psStartedAt = pp_startedAt p,
      psStoppedAt = pp_stoppedAt p,
      psUptime = (if pp_running p \<and> \<not> is_zero (pp_startedAt p)
                  then t_ns now - t_ns (pp_startedAt p) else 0),
      psRestarts = pp_restarts p, psHealthFailures = pp_health p,
      psLastError = (case pp_lastError p of None \<Rightarrow> [] | Some e \<Rightarrow> error_text e)\<rparr>"

section \<open>Start, stop, exit, restart\<close>

text \<open>
  \<open>startLocked\<close>: \<open>failure\<close> is the error of making the pipes or starting the command, if any.
  Each operation returns its error and the statuses it hands to \<^verbatim>\<open>OnStatus\<close>.
\<close>

definition start_locked ::
  "error option \<Rightarrow> gotime \<Rightarrow> proc \<Rightarrow> error option \<times> process_status list \<times> proc" where
  "start_locked failure now p =
     (case failure of
        Some e \<Rightarrow> (Some e, [], p)
      | None \<Rightarrow>
          (let n = pp_spawned p;
               p' = p\<lparr>pp_ctx := Some n, pp_cmd := Some n, pp_running := True,
                      pp_startedAt := now, pp_stoppedAt := zero_time, pp_health := 0,
                      pp_lastError := None, pp_alive := n # pp_alive p, pp_spawned := Suc n,
                      pp_monitors := n # pp_monitors p, pp_loops := Suc (pp_loops p)\<rparr>
           in (None, [proc_status now p'], p')))"

definition proc_start ::
  "error option \<Rightarrow> gotime \<Rightarrow> proc \<Rightarrow> error option \<times> process_status list \<times> proc" where
  "proc_start failure now p =
     (if pp_running p then (Some err_already_running, [], p) else start_locked failure now p)"

definition stop_locked :: "gotime \<Rightarrow> proc \<Rightarrow> process_status list \<times> proc" where
  "stop_locked now p =
     (let p1 = (case pp_ctx p of
                  None \<Rightarrow> p
                | Some n \<Rightarrow> p\<lparr>pp_cancelled := n # pp_cancelled p, pp_alive := removeAll n (pp_alive p)\<rparr>);
          p2 = (case pp_cmd p1 of
                  None \<Rightarrow> p1
                | Some n \<Rightarrow> p1\<lparr>pp_alive := removeAll n (pp_alive p1)\<rparr>);
          p3 = p2\<lparr>pp_running := False, pp_stoppedAt := now\<rparr>
      in ([proc_status now p3], p3))"

definition proc_stop :: "gotime \<Rightarrow> proc \<Rightarrow> error option \<times> process_status list \<times> proc" where
  "proc_stop now p =
     (if \<not> pp_running p then (Some err_not_running, [], p)
      else (let (st, p') = stop_locked now p in (None, st, p')))"

definition ctx_live :: "proc \<Rightarrow> bool" where
  "ctx_live p \<longleftrightarrow> (case pp_ctx p of None \<Rightarrow> False | Some n \<Rightarrow> n \<notin> set (pp_cancelled p))"

text \<open>\<open>monitor\<close> after \<^verbatim>\<open>Wait\<close> of process \<open>n\<close> has returned \<open>err\<close>, up to the sleep.\<close>

definition monitor_exit ::
  "nat \<Rightarrow> error option \<Rightarrow> gotime \<Rightarrow> proc \<Rightarrow> process_status list \<times> proc" where
  "monitor_exit n err now p =
     (let p1 = p\<lparr>pp_monitors := remove1 n (pp_monitors p), pp_alive := removeAll n (pp_alive p),
                 pp_running := False, pp_stoppedAt := now, pp_lastError := err\<rparr>;
          should_restart = (ctx_live p1 \<and> pp_restarts p1 < poMaxRestarts (pp_opts p1));
          p2 = (if should_restart then p1\<lparr>pp_restarts := pp_restarts p1 + 1\<rparr> else p1);
          p3 = (if should_restart then p2\<lparr>pp_sleeping := Suc (pp_sleeping p2)\<rparr> else p2)
      in ([proc_status now p2], p3))"

text \<open>The rest of \<open>monitor\<close>, after the sleep: the error of starting is dropped.\<close>

definition monitor_restart ::
  "error option \<Rightarrow> gotime \<Rightarrow> proc \<Rightarrow> process_status list \<times> proc" where
  "monitor_restart failure now p =
     (let (e, st, p') = start_locked failure now (p\<lparr>pp_sleeping := pp_sleeping p - 1\<rparr>) in (st, p'))"

text \<open>
  One tick of a health loop, after its call has returned: the loop ends when it kills the
  process, and the status is emitted in either case.
\<close>

definition health_tick :: "error option \<Rightarrow> gotime \<Rightarrow> proc \<Rightarrow> process_status list \<times> proc" where
  "health_tick res now p =
     (case res of
        Some e \<Rightarrow>
          (let p1 = p\<lparr>pp_health := pp_health p + 1, pp_lastError := Some e\<rparr>
           in ([proc_status now p1],
               if pp_health p1 \<ge> poMaxHealthFailures (pp_opts p1) \<and> pp_cmd p1 \<noteq> None
               then p1\<lparr>pp_alive := removeAll (the (pp_cmd p1)) (pp_alive p1),
                       pp_loops := pp_loops p1 - 1\<rparr>
               else p1))
      | None \<Rightarrow>
          (let p1 = p\<lparr>pp_health := 0, pp_lastError := None\<rparr>
           in ([proc_status now p1], p1)))"

text \<open>A health loop that finds the current context cancelled returns.\<close>

definition health_done :: "proc \<Rightarrow> proc" where
  "health_done p = p\<lparr>pp_loops := pp_loops p - 1\<rparr>"

section \<open>Calls\<close>

text \<open>
  One attempt of a call sees: the error of encoding the request, if any, the size of the
  encoded request, the error of writing it, and what ends the wait: a response, or the
  deadline with the error of the call's context and whether the caller's context is still live.
\<close>

datatype wait = Replied response | Expired error bool

record attempt =
  atMarshal :: "error option"
  atSize :: int
  atWrite :: "error option"
  atWait :: wait

definition call_id :: "proc \<Rightarrow> string" where
  "call_id p = pp_id p @ ''-'' @ itoa_nat (unat (pp_seq p + 1))"

definition begin_call :: "proc \<Rightarrow> proc" where
  "begin_call p = p\<lparr>pp_seq := pp_seq p + 1, pp_pending := call_id p # removeAll (call_id p) (pp_pending p)\<rparr>"

definition delete_pending :: "string \<Rightarrow> proc \<Rightarrow> proc" where
  "delete_pending i p = p\<lparr>pp_pending := removeAll i (pp_pending p)\<rparr>"

text \<open>
  \<open>callWithRetry\<close>; \<open>env k\<close> is what attempt \<open>k\<close> sees. A response is taken out of the pending
  table by the reader that delivers it (\<open>handleMessage\<close>) before the caller sees it.
\<close>

function call_with_retry :: "(nat \<Rightarrow> attempt) \<Rightarrow> nat \<Rightarrow> proc \<Rightarrow> string res \<times> proc" where
  "call_with_retry env k p =
     (if \<not> pp_running p then (Inl err_not_running, p)
      else
        (let i = call_id p; p1 = begin_call p; at = env k
         in (case atMarshal at of
               Some e \<Rightarrow> (Inl e, p1)
             | None \<Rightarrow>
                 if atSize at + 1 > poMaxPayloadSize (pp_opts p) then (Inl (New ''payload too large''), p1)
                 else (case atWrite at of
                         Some e \<Rightarrow> (Inl e, p1)
                       | None \<Rightarrow>
                           (case atWait at of
                              Replied r \<Rightarrow>
                                ((case rsError r of Some e \<Rightarrow> Inl e | None \<Rightarrow> Inr (rsResult r)),
                                 delete_pending i p1)
                            | Expired e live \<Rightarrow>
                                if k < 3 \<and> live then call_with_retry env (k + 1) (delete_pending i p1)
                                else (Inl e, delete_pending i p1))))))"
  by pat_completeness auto
termination
  by (relation "measure (\<lambda>(env, k, p). 3 - k)") auto

declare call_with_retry.simps [simp del]

definition proc_call :: "(nat \<Rightarrow> attempt) \<Rightarrow> proc \<Rightarrow> string res \<times> proc" where
  "proc_call env p = call_with_retry env 1 p"

text \<open>
  \<open>handleMessage\<close> for a decoded line: a message with a method is a request of the plugin and
  goes to \<^verbatim>\<open>OnRequest\<close>; any other is a response, delivered if a call waits under its identifier.
\<close>

record envelope =
  enID :: string
  enMethod :: string
  enParams :: string
  enResult :: string
  enError :: "error option"

datatype delivery = ToHandler envelope | ToCaller response | Dropped

definition handle_message :: "envelope option \<Rightarrow> proc \<Rightarrow> delivery \<times> proc" where
  "handle_message line p =
     (case line of
        None \<Rightarrow> (Dropped, p)
      | Some en \<Rightarrow>
          if enMethod en \<noteq> [] then (ToHandler en, p)
          else if enID en \<in> set (pp_pending p)
          then (ToCaller \<lparr>rsID = enID en, rsResult = enResult en, rsError = enError en\<rparr>,
                delete_pending (enID en) p)
          else (Dropped, p))"

text \<open>\<open>writeResponse\<close>: \<open>len\<close> is the length of the encoded response.\<close>

definition write_response :: "error option \<Rightarrow> error option \<Rightarrow> int \<Rightarrow> error option \<Rightarrow> proc \<Rightarrow> error option" where
  "write_response err marshal len wr p =
     (case err of
        Some e \<Rightarrow> Some e
      | None \<Rightarrow>
          (case marshal of
             Some e \<Rightarrow> Some e
           | None \<Rightarrow>
               if len + 1 > poMaxPayloadSize (pp_opts p) then Some (New ''payload too large'')
               else if \<not> pp_running p then Some err_not_running
               else wr))"

section \<open>The lifecycle as a transition system\<close>

text \<open>
  What can happen to a plugin: the two requests of the core, the exit of any process that a
  monitor waits for, the end of a restart's sleep, a tick of a health loop, a call.
\<close>

inductive proc_step :: "proc \<Rightarrow> proc \<Rightarrow> bool" where
  start: "proc_start failure now p = (er, st, p') \<Longrightarrow> proc_step p p'"
| stop: "proc_stop now p = (er, st, p') \<Longrightarrow> proc_step p p'"
| exit: "n \<in> set (pp_monitors p) \<Longrightarrow> monitor_exit n err now p = (st, p') \<Longrightarrow> proc_step p p'"
| restart: "0 < pp_sleeping p \<Longrightarrow> monitor_restart failure now p = (st, p') \<Longrightarrow> proc_step p p'"
| health: "0 < pp_loops p \<Longrightarrow> ctx_live p \<Longrightarrow> health_tick res now p = (st, p') \<Longrightarrow> proc_step p p'"
| health_end: "0 < pp_loops p \<Longrightarrow> \<not> ctx_live p \<Longrightarrow> proc_step p (health_done p)"
| call: "proc_call env p = (res, p') \<Longrightarrow> proc_step p p'"

inductive proc_reachable :: "process_spec \<Rightarrow> process_options \<Rightarrow> proc \<Rightarrow> bool" for i opts where
  init: "proc_reachable i opts (new_proc i opts)"
| step: "proc_reachable i opts p \<Longrightarrow> proc_step p p' \<Longrightarrow> proc_reachable i opts p'"

subsection \<open>What the operations leave alone\<close>

text \<open>A call changes the sequence number and the pending table, and nothing else.\<close>

lemma call_with_retry_frame:
  "\<exists>seq pending. snd (call_with_retry env k p) = p\<lparr>pp_seq := seq, pp_pending := pending\<rparr>"
proof (induction env k p rule: call_with_retry.induct)
  case (1 env k p)
  let ?p1 = "begin_call p" and ?i = "call_id p"
  have self: "\<exists>seq pending. p = p\<lparr>pp_seq := seq, pp_pending := pending\<rparr>"
    by (intro exI [of _ "pp_seq p"] exI [of _ "pp_pending p"]) simp
  have p1: "\<exists>seq pending. ?p1 = p\<lparr>pp_seq := seq, pp_pending := pending\<rparr>"
    by (auto simp: begin_call_def)
  have p2: "\<exists>seq pending. delete_pending ?i ?p1 = p\<lparr>pp_seq := seq, pp_pending := pending\<rparr>"
    by (auto simp: begin_call_def delete_pending_def)
  show ?case
  proof (cases "pp_running p \<and> atMarshal (env k) = None \<and> \<not> atSize (env k) + 1 > poMaxPayloadSize (pp_opts p)
      \<and> atWrite (env k) = None")
    case False
    with self p1 show ?thesis
      by (subst call_with_retry.simps) (auto simp: Let_def split: option.splits)
  next
    case running: True
    show ?thesis
    proof (cases "atWait (env k)")
      case (Replied r)
      with running p2 show ?thesis by (subst call_with_retry.simps) (simp add: Let_def)
    next
      case (Expired e live)
      show ?thesis
      proof (cases "k < 3 \<and> live")
        case True
        then have "\<exists>seq pending. snd (call_with_retry env (k + 1) (delete_pending ?i ?p1)) =
            (delete_pending ?i ?p1)\<lparr>pp_seq := seq, pp_pending := pending\<rparr>"
          using running Expired by (intro "1.IH") auto
        then have "\<exists>seq pending. snd (call_with_retry env (k + 1) (delete_pending ?i ?p1)) =
            p\<lparr>pp_seq := seq, pp_pending := pending\<rparr>"
          by (auto simp: begin_call_def delete_pending_def)
        with running Expired True show ?thesis by (subst call_with_retry.simps) (simp add: Let_def)
      next
        case False
        with running Expired p2 show ?thesis
          by (subst call_with_retry.simps) (auto simp: Let_def)
      qed
    qed
  qed
qed

definition proc_wf :: "proc \<Rightarrow> bool" where
  "proc_wf p \<longleftrightarrow>
     0 \<le> pp_restarts p \<and> pp_restarts p \<le> max 0 (poMaxRestarts (pp_opts p)) \<and>
     int (pp_sleeping p) \<le> pp_restarts p \<and>
     distinct (pp_monitors p) \<and> set (pp_alive p) \<subseteq> set (pp_monitors p) \<and>
     (\<forall>n \<in> set (pp_monitors p). n < pp_spawned p)"

lemma proc_wf_new: "proc_wf (new_proc i opts)"
  by (simp add: proc_wf_def new_proc_def)

text \<open>Steps that start nothing and restart nothing.\<close>

lemma proc_wf_weaken:
  assumes "proc_wf p" and "pp_restarts q = pp_restarts p" and "pp_opts q = pp_opts p"
    and "pp_sleeping q \<le> pp_sleeping p" and "pp_monitors q = pp_monitors p"
    and "pp_spawned q = pp_spawned p" and "set (pp_alive q) \<subseteq> set (pp_alive p)"
  shows "proc_wf q"
proof -
  have "set (pp_alive q) \<subseteq> set (pp_monitors p)"
    using assms(1,7) unfolding proc_wf_def by blast
  with assms show ?thesis by (simp add: proc_wf_def)
qed

lemma start_locked_wf:
  "proc_wf p \<Longrightarrow> start_locked failure now p = (er, st, p') \<Longrightarrow> proc_wf p'"
  by (cases failure) (auto simp: start_locked_def proc_wf_def Let_def less_Suc_eq)

lemma proc_step_wf: "proc_step p p' \<Longrightarrow> proc_wf p \<Longrightarrow> proc_wf p'"
proof (induction rule: proc_step.induct)
  case (start failure now p er st p')
  then show ?case by (auto simp: proc_start_def split: if_splits intro: start_locked_wf)
next
  case (stop now p er st p')
  then show ?case
    by (elim proc_wf_weaken)
       (auto simp: proc_stop_def stop_locked_def Let_def split: if_splits option.splits)
next
  case (exit n p err now st p')
  then have "\<forall>x \<in> set (pp_alive p). x \<noteq> n \<longrightarrow> x \<in> set (pp_monitors p)" and "distinct (pp_monitors p)"
    by (auto simp: proc_wf_def)
  then have "set (removeAll n (pp_alive p)) \<subseteq> set (remove1 n (pp_monitors p))"
    by (simp add: set_remove1_eq) blast
  with exit show ?case
    by (simp add: monitor_exit_def proc_wf_def Let_def split: if_splits)
       (auto dest: notin_set_remove1)
next
  case (restart p failure now st p')
  from restart(3) have "proc_wf (p\<lparr>pp_sleeping := pp_sleeping p - 1\<rparr>)"
    by (rule proc_wf_weaken) simp_all
  with restart show ?case
    by (auto simp: monitor_restart_def Let_def split: prod.splits intro: start_locked_wf)
next
  case (health p res now st p')
  then show ?case
    by (elim proc_wf_weaken)
       (auto simp: health_tick_def Let_def split: option.splits if_splits)
next
  case (health_end p)
  then show ?case by (elim proc_wf_weaken) (simp_all add: health_done_def)
next
  case (call env p res p')
  then show ?case
    using call_with_retry_frame [of env 1 p] by (elim proc_wf_weaken) (auto simp: proc_call_def)
qed

lemma proc_reachable_wf: "proc_reachable i opts p \<Longrightarrow> proc_wf p"
  by (induction rule: proc_reachable.induct) (auto intro: proc_wf_new proc_step_wf)

text \<open>The options never change.\<close>

lemma proc_step_opts: "proc_step p p' \<Longrightarrow> pp_opts p' = pp_opts p"
proof (induction rule: proc_step.induct)
  case (call env p res p')
  then show ?case using call_with_retry_frame [of env 1 p] by (auto simp: proc_call_def)
qed (auto simp: proc_start_def proc_stop_def stop_locked_def start_locked_def monitor_exit_def
      monitor_restart_def health_tick_def health_done_def Let_def
    split: if_splits option.splits prod.splits)

lemma proc_reachable_opts: "proc_reachable i opts p \<Longrightarrow> pp_opts p = default_options opts"
  by (induction rule: proc_reachable.induct) (simp_all add: new_proc_def proc_step_opts)

subsection \<open>The attempts of a call\<close>

text \<open>From attempt \<open>k\<close> on, at most \<open>4 - k\<close> sequence numbers are taken.\<close>

lemma call_with_retry_seq:
  assumes "k \<le> 3"
  shows "\<exists>n \<le> 4 - k. pp_seq (snd (call_with_retry env k p)) = pp_seq p + of_nat n"
  using assms
proof (induction env k p rule: call_with_retry.induct)
  case (1 env k p)
  let ?p1 = "begin_call p" and ?i = "call_id p"
  have one: "pp_seq ?p1 = pp_seq p + 1" "pp_seq (delete_pending ?i ?p1) = pp_seq p + 1"
    by (simp_all add: begin_call_def delete_pending_def)
  have zero_or_one: ?case
    if "pp_seq (snd (call_with_retry env k p)) \<in> {pp_seq p, pp_seq p + 1}"
    using that 1(2) by (auto intro: exI [of _ 0] exI [of _ 1])
  show ?case
  proof (cases "pp_running p \<and> atMarshal (env k) = None \<and> \<not> atSize (env k) + 1 > poMaxPayloadSize (pp_opts p)
      \<and> atWrite (env k) = None \<and> (\<exists>e. atWait (env k) = Expired e True) \<and> k < 3")
    case False
    show ?thesis
      by (rule zero_or_one, subst call_with_retry.simps)
         (use False one in \<open>auto simp: Let_def split: option.split wait.split\<close>)
  next
    case True
    then obtain e where e: "atWait (env k) = Expired e True" by blast
    from "1.IH" [OF _ refl refl refl _ _ _ e] True obtain n where
      n: "n \<le> 4 - (k + 1)" "pp_seq (snd (call_with_retry env (k + 1) (delete_pending ?i ?p1))) =
        pp_seq (delete_pending ?i ?p1) + of_nat n" by auto
    have "call_with_retry env k p = call_with_retry env (k + 1) (delete_pending ?i ?p1)"
      using True e by (subst call_with_retry.simps) (simp add: Let_def)
    with n one True show ?thesis by (intro exI [of _ "Suc n"]) (auto simp: algebra_simps)
  qed
qed

text \<open>A result is the reply to some attempt, and every attempt before it timed out.\<close>

lemma call_with_retry_result:
  assumes "fst (call_with_retry env k p) = Inr r" and "k \<le> 3"
  shows "\<exists>j resp. k \<le> j \<and> j \<le> 3 \<and> atWait (env j) = Replied resp \<and> rsError resp = None \<and> rsResult resp = r \<and>
    (\<forall>l. k \<le> l \<and> l < j \<longrightarrow> (\<exists>e. atWait (env l) = Expired e True))"
  using assms
proof (induction env k p rule: call_with_retry.induct)
  case (1 env k p)
  let ?p1 = "begin_call p" and ?i = "call_id p"
  from 1(2) have run: "pp_running p" "atMarshal (env k) = None" "\<not> atSize (env k) + 1 > poMaxPayloadSize (pp_opts p)"
    "atWrite (env k) = None"
    by (subst (asm) call_with_retry.simps, auto simp: Let_def split: if_splits option.splits)+
  show ?case
  proof (cases "atWait (env k)")
    case (Replied resp)
    with 1(2) run have "rsError resp = None" "rsResult resp = r"
      by (subst (asm) call_with_retry.simps, auto simp: Let_def split: option.splits)+
    with Replied 1(3) show ?thesis by (intro exI [of _ k] exI [of _ resp]) auto
  next
    case (Expired e live)
    with 1(2) run have live: "k < 3" "live"
      by (subst (asm) call_with_retry.simps, auto simp: Let_def split: if_splits)+
    with 1(2) run Expired have "fst (call_with_retry env (k + 1) (delete_pending ?i ?p1)) = Inr r"
      by (subst (asm) call_with_retry.simps) (simp add: Let_def)
    from "1.IH" [OF _ refl refl refl _ _ _ Expired _ this] run live obtain j resp where
      j: "k + 1 \<le> j" "j \<le> 3" "atWait (env j) = Replied resp" "rsError resp = None" "rsResult resp = r"
      "\<forall>l. k + 1 \<le> l \<and> l < j \<longrightarrow> (\<exists>e. atWait (env l) = Expired e True)" by auto
    have "\<exists>e. atWait (env l) = Expired e True" if "k \<le> l" "l < j" for l
      using that j(6) Expired live by (cases "l = k") auto
    with j show ?thesis by (intro exI [of _ j] exI [of _ resp]) auto
  qed
qed

end
