(* ===== verification/Supervisor.thy ===== *)
theory Supervisor
  imports Process
begin

text \<open>The supervisor over all plugins, \<^verbatim>\<open>internal/plugins/supervisor/supervisor.go\<close>.\<close>

record supervisor =
  sv_plugins :: "proc gomap"
  sv_opts :: process_options

definition new_supervisor :: "process_options \<Rightarrow> supervisor" where
  "new_supervisor opts = \<lparr>sv_plugins = [], sv_opts = opts\<rparr>"

definition sv_get :: "supervisor \<Rightarrow> string \<Rightarrow> proc option" where
  "sv_get s i = map_of (sv_plugins s) i"

definition sv_put :: "string \<Rightarrow> proc \<Rightarrow> supervisor \<Rightarrow> supervisor" where
  "sv_put i p s = s\<lparr>sv_plugins := AList.update i p (sv_plugins s)\<rparr>"

definition err_plugin_not_found :: "string \<Rightarrow> error" where
  "err_plugin_not_found i = New (''plugin '' @ i @ '' not found'')"

definition sv_register :: "process_spec \<Rightarrow> supervisor \<Rightarrow> supervisor res" where
  "sv_register spec s =
     (case map_of (sv_plugins s) (spID spec) of
        Some _ \<Rightarrow> Inl (New (''plugin '' @ spID spec @ '' already registered''))
      | None \<Rightarrow> Inr (s\<lparr>sv_plugins := AList.update (spID spec) (new_proc spec (sv_opts s)) (sv_plugins s)\<rparr>))"

definition sv_start ::
  "error option \<Rightarrow> gotime \<Rightarrow> string \<Rightarrow> supervisor \<Rightarrow> error option \<times> process_status list \<times> supervisor" where
  "sv_start failure now i s =
     (case sv_get s i of
        None \<Rightarrow> (Some (err_plugin_not_found i), [], s)
      | Some p \<Rightarrow> (let (er, st, p') = proc_start failure now p in (er, st, sv_put i p' s)))"

definition sv_stop :: "gotime \<Rightarrow> string \<Rightarrow> supervisor \<Rightarrow> error option \<times> process_status list \<times> supervisor" where
  "sv_stop now i s =
     (case sv_get s i of
        None \<Rightarrow> (Some (err_plugin_not_found i), [], s)
      | Some p \<Rightarrow> (let (er, st, p') = proc_stop now p in (er, st, sv_put i p' s)))"

definition sv_call :: "(nat \<Rightarrow> attempt) \<Rightarrow> string \<Rightarrow> supervisor \<Rightarrow> string res \<times> supervisor" where
  "sv_call env i s =
     (case sv_get s i of
        None \<Rightarrow> (Inl (err_plugin_not_found i), s)
      | Some p \<Rightarrow> (let (r, p') = proc_call env p in (r, sv_put i p' s)))"

definition sv_health_check :: "(nat \<Rightarrow> attempt) \<Rightarrow> string \<Rightarrow> supervisor \<Rightarrow> error option \<times> supervisor" where
  "sv_health_check env i s =
     (case sv_call env i s of (Inl e, s') \<Rightarrow> (Some e, s') | (Inr _, s') \<Rightarrow> (None, s'))"

definition sv_is_running :: "string \<Rightarrow> supervisor \<Rightarrow> bool" where
  "sv_is_running i s = (case sv_get s i of None \<Rightarrow> False | Some p \<Rightarrow> pp_running p)"

definition sv_list :: "iter_order \<Rightarrow> supervisor \<Rightarrow> string list" where
  "sv_list p s = map fst (ranged p (sv_plugins s))"

definition sv_status :: "gotime \<Rightarrow> string \<Rightarrow> supervisor \<Rightarrow> process_status option" where
  "sv_status now i s = map_option (proc_status now) (sv_get s i)"

definition sv_list_status :: "iter_order \<Rightarrow> gotime \<Rightarrow> supervisor \<Rightarrow> process_status list" where
  "sv_list_status p now s = map (proc_status now) (map snd (ranged p (sv_plugins s)))"

section \<open>Behaviour\<close>

text \<open>Every plugin keeps its identifier and the invariant of its lifecycle.\<close>

definition sv_wf :: "supervisor \<Rightarrow> bool" where
  "sv_wf s \<longleftrightarrow> wf_map (sv_plugins s) \<and>
     (\<forall>i p. sv_get s i = Some p \<longrightarrow> pp_id p = i \<and> proc_wf p)"

lemma sv_wf_new [simp]: "sv_wf (new_supervisor opts)"
  by (simp add: sv_wf_def new_supervisor_def sv_get_def)

lemma sv_put_wf: "sv_wf s \<Longrightarrow> pp_id p = i \<Longrightarrow> proc_wf p \<Longrightarrow> sv_wf (sv_put i p s)"
  by (auto simp: sv_wf_def sv_get_def sv_put_def)

text \<open>The supervisor's table of specifications is a register-once table.\<close>

definition sv_known :: "supervisor \<Rightarrow> string \<Rightarrow> process_spec option" where
  "sv_known s i = map_option pp_spec (sv_get s i)"

lemma pp_spec_new_proc [simp]: "pp_spec (new_proc spec opts) = spec"
  by (simp add: new_proc_def)

interpretation plugin_specs: once_registry sv_known sv_register spID "\<lambda>_. True"
  by unfold_locales (auto simp: sv_known_def sv_get_def sv_register_def split: option.splits if_splits)

lemma sv_register_wf:
  assumes "sv_register spec s = Inr s'" and wf: "sv_wf s"
  shows "sv_wf s'"
proof -
  from assms(1) have "s' = sv_put (spID spec) (new_proc spec (sv_opts s)) s"
    by (auto simp: sv_register_def sv_put_def split: option.splits)
  with sv_put_wf [OF wf _ proc_wf_new] show ?thesis by simp
qed

lemma proc_start_id: "proc_start failure now p = (er, st, p') \<Longrightarrow> pp_id p' = pp_id p"
  by (auto simp: proc_start_def start_locked_def Let_def split: if_splits option.splits)

lemma proc_stop_id: "proc_stop now p = (er, st, p') \<Longrightarrow> pp_id p' = pp_id p"
  by (auto simp: proc_stop_def stop_locked_def Let_def split: if_splits option.splits)

lemma proc_call_id: "proc_call env p = (r, p') \<Longrightarrow> pp_id p' = pp_id p"
  using call_with_retry_frame [of env 1 p] by (auto simp: proc_call_def)

lemma sv_wf_get: "sv_wf s \<Longrightarrow> sv_get s i = Some p \<Longrightarrow> pp_id p = i \<and> proc_wf p"
  by (simp add: sv_wf_def)

text \<open>Putting back what a step of a plugin made of it keeps the supervisor's invariant.\<close>

lemma sv_put_step:
  "sv_wf s \<Longrightarrow> sv_get s i = Some p \<Longrightarrow> proc_step p p' \<Longrightarrow> pp_id p' = pp_id p \<Longrightarrow> sv_wf (sv_put i p' s)"
  using sv_wf_get [of s i p] by (auto intro: sv_put_wf proc_step_wf)

lemma sv_start_wf: "sv_start failure now i s = (er, st, s') \<Longrightarrow> sv_wf s \<Longrightarrow> sv_wf s'"
  by (auto simp: sv_start_def split: option.splits prod.splits
      intro: sv_put_step proc_step.start proc_start_id)

lemma sv_stop_wf: "sv_stop now i s = (er, st, s') \<Longrightarrow> sv_wf s \<Longrightarrow> sv_wf s'"
  by (auto simp: sv_stop_def split: option.splits prod.splits
      intro: sv_put_step proc_step.stop proc_stop_id)

lemma sv_call_wf: "sv_call env i s = (r, s') \<Longrightarrow> sv_wf s \<Longrightarrow> sv_wf s'"
  by (auto simp: sv_call_def split: option.splits prod.splits
      intro: sv_put_step proc_step.call proc_call_id)

end
