(* ===== verification/Runtime.thy ===== *)
theory Runtime
  imports Config ActionStore Sessions Router WfRegistry Engine Bus Supervisor
begin

text \<open>
  The runtime, \<^verbatim>\<open>internal/runtime/runtime.go\<close>: the state that ties the components together and
  the handlers that connect them. Publishing an event calls the handlers, a handler may
  request actions, and requesting an action publishes an event again; \<open>run_handler\<close> has fuel
  for that recursion.
\<close>

section \<open>State\<close>

datatype handler = HPersist | HWorkflow | HSession

text \<open>
  What the process cannot determine, numbered by a counter that every use advances: the
  clock, the order of a range over a map, the case a select takes, the error of a context,
  what the attempts of a plugin call see, the error of starting a process.
\<close>

record world =
  wd_now :: "nat \<Rightarrow> int"
  wd_order :: "nat \<Rightarrow> iter_order"
  wd_select :: "nat \<Rightarrow> select"
  wd_ctx_err :: "nat \<Rightarrow> error option"
  wd_call :: "nat \<Rightarrow> nat \<Rightarrow> attempt"
  wd_failure :: "nat \<Rightarrow> error option"
  wd_tick :: nat

text \<open>
  The operations of the database (\<^verbatim>\<open>internal/storage/sqlite\<close>) on a state \<open>'d\<close>, and decoding
  JSON into an event, an action request and a dynamic value.
\<close>

record 'd ops =
  op_save_event :: "event \<Rightarrow> 'd \<Rightarrow> error option \<times> 'd"
  op_save_action :: "action \<Rightarrow> 'd \<Rightarrow> error option \<times> 'd"
  op_save_session :: "session \<Rightarrow> 'd \<Rightarrow> error option \<times> 'd"
  op_save_workflow :: "workflow \<Rightarrow> 'd \<Rightarrow> error option \<times> 'd"
  op_replace_workflows :: "workflow list \<Rightarrow> 'd \<Rightarrow> error option \<times> 'd"
  op_list_workflows :: "'d \<Rightarrow> workflow list res"
  op_list_actions :: "int \<Rightarrow> 'd \<Rightarrow> action list res"
  op_list_sessions :: "int \<Rightarrow> 'd \<Rightarrow> session list res"
  op_list_events :: "int \<Rightarrow> 'd \<Rightarrow> event list res"
  op_json_event :: "string \<Rightarrow> event res"
  op_json_action :: "string \<Rightarrow> action res"
  op_json :: "string \<Rightarrow> val res"

text \<open>
  \<open>rs_spawned\<close> are the actions whose execution goroutine has been started and has not run
  yet. A handler of the router is the closure of \<open>loadPlugins\<close>: a plugin and a capability.
\<close>

record 'd runtime =
  rs_config :: config
  rs_bus :: "handler bus"
  rs_actions :: action_store
  rs_registry :: wf_registry
  rs_engine :: engine
  rs_executor :: mock_executor
  rs_sessions :: session_manager
  rs_supervisor :: supervisor
  rs_router :: "(string \<times> string) router"
  rs_storage :: "'d option"
  rs_spawned :: "action list"
  rs_world :: world

abbreviation rs_mode :: "'d runtime \<Rightarrow> mode" where
  "rs_mode s \<equiv> cfMode (rs_config s)"

definition tick :: "'d runtime \<Rightarrow> 'd runtime" where
  "tick s = s\<lparr>rs_world := (rs_world s)\<lparr>wd_tick := Suc (wd_tick (rs_world s))\<rparr>\<rparr>"

definition read_now :: "'d runtime \<Rightarrow> gotime \<times> 'd runtime" where
  "read_now s = (utc (wd_now (rs_world s) (wd_tick (rs_world s))), tick s)"

definition read_order :: "'d runtime \<Rightarrow> iter_order \<times> 'd runtime" where
  "read_order s = (wd_order (rs_world s) (wd_tick (rs_world s)), tick s)"

definition read_orders :: "'d runtime \<Rightarrow> iter_order \<times> iter_order \<times> 'd runtime" where
  "read_orders s = (let (p, s1) = read_order s; (q, s2) = read_order s1 in (p, q, s2))"

definition read_select :: "'d runtime \<Rightarrow> select \<times> 'd runtime" where
  "read_select s = (wd_select (rs_world s) (wd_tick (rs_world s)), tick s)"

definition read_ctx_err :: "'d runtime \<Rightarrow> error option \<times> 'd runtime" where
  "read_ctx_err s = (wd_ctx_err (rs_world s) (wd_tick (rs_world s)), tick s)"

definition read_call :: "'d runtime \<Rightarrow> (nat \<Rightarrow> attempt) \<times> 'd runtime" where
  "read_call s = (wd_call (rs_world s) (wd_tick (rs_world s)), tick s)"

lemmas world_defs = tick_def read_now_def read_order_def read_orders_def read_select_def
  read_ctx_err_def read_call_def

text \<open>\<^verbatim>\<open>fmt.Sprintf(prefix + "-%d", time.Now().UnixNano())\<close>.\<close>

definition stamp :: "string \<Rightarrow> 'd runtime \<Rightarrow> string \<times> 'd runtime" where
  "stamp pre s = (let (now, s1) = read_now s in (pre @ ''-'' @ itoa (unix_nano now), s1))"

text \<open>\<open>publish\<close> stands for \<^verbatim>\<open>r.events.Publish\<close> in the definitions below.\<close>

type_synonym 'd publisher = "event \<Rightarrow> 'd runtime \<Rightarrow> (error option \<times> 'd runtime) option"

section \<open>Storage and status events\<close>

definition handle_persistence_event :: "'d ops \<Rightarrow> event \<Rightarrow> 'd runtime \<Rightarrow> error option \<times> 'd runtime" where
  "handle_persistence_event ops e s =
     (case rs_storage s of
        None \<Rightarrow> (None, s)
      | Some d \<Rightarrow> (let (er, d') = op_save_event ops e d in (er, s\<lparr>rs_storage := Some d'\<rparr>)))"

definition persist_action :: "'d ops \<Rightarrow> action \<Rightarrow> 'd runtime \<Rightarrow> 'd runtime" where
  "persist_action ops a s =
     (case rs_storage s of
        None \<Rightarrow> s
      | Some d \<Rightarrow> s\<lparr>rs_storage := Some (snd (op_save_action ops a d))\<rparr>)"

text \<open>The payload of the events that tell the status of an action.\<close>

definition status_payload :: "action \<Rightarrow> vmap" where
  "status_payload a =
     [(''id'', VStr (acID a)), (''type'', VStr (acType a)), (''risk'', VNamed (acRisk a)),
      (''status'', VNamed (acStatus a)), (''source'', VStr (acSource a))]"

text \<open>An event of the core; its trace and depth are left empty.\<close>

definition core_event :: "string \<Rightarrow> string \<Rightarrow> string \<Rightarrow> vmap \<Rightarrow> 'd runtime \<Rightarrow> event \<times> 'd runtime" where
  "core_event pre t session payload s =
     (let (i, s1) = stamp pre s; (now, s2) = read_now s1
      in (\<lparr>evID = i, evType = t, evSource = ''core.runtime'', evSessionID = session, evTraceID = [],
           evDepth = 0, evPayload = payload, evCreatedAt = now\<rparr>, s2))"

text \<open>\<^verbatim>\<open>_ = r.events.Publish(...)\<close>: the error is dropped.\<close>

definition publish_quietly :: "'d publisher \<Rightarrow> event \<Rightarrow> 'd runtime \<Rightarrow> 'd runtime option" where
  "publish_quietly publish e s = map_option snd (publish e s)"

definition publish_action_status ::
  "'d publisher \<Rightarrow> string \<Rightarrow> action \<Rightarrow> 'd runtime \<Rightarrow> 'd runtime option" where
  "publish_action_status publish t a s =
     (let (e, s1) = core_event t t (acSessionID a) (status_payload a) s
      in publish_quietly publish e s1)"

section \<open>Requesting actions\<close>

definition execute_action_async :: "action \<Rightarrow> 'd runtime \<Rightarrow> 'd runtime" where
  "execute_action_async a s = s\<lparr>rs_spawned := rs_spawned s @ [a]\<rparr>"

text \<open>The defaults a request gets before it is judged.\<close>

definition complete_action :: "string \<Rightarrow> string \<Rightarrow> action \<Rightarrow> 'd runtime \<Rightarrow> action \<times> 'd runtime" where
  "complete_action source pre a s =
     (let a1 = (if acSource a = [] then a\<lparr>acSource := source\<rparr> else a);
          (a2, s1) = (if acID a1 = [] then (let (i, s') = stamp pre s in (a1\<lparr>acID := i\<rparr>, s'))
                      else (a1, s));
          a3 = (if acStatus a2 = [] then a2\<lparr>acStatus := ''requested''\<rparr> else a2)
      in (if is_zero (acCreatedAt a3)
          then (let (now, s2) = read_now s1 in (a3\<lparr>acCreatedAt := now\<rparr>, s2))
          else (a3, s1)))"

definition request_action ::
  "'d publisher \<Rightarrow> 'd ops \<Rightarrow> action \<Rightarrow> 'd runtime \<Rightarrow> (error option \<times> 'd runtime) option" where
  "request_action publish ops a s =
     (let (a1, s1) = complete_action ''workflow'' ''workflow-action'' a s;
          (status, err) = gate_decide (rs_mode s1) a1
      in if err \<noteq> None \<and> status = [] then Some (err, s1)
         else
           (let a2 = a1\<lparr>acStatus := status\<rparr>;
                s2 = s1\<lparr>rs_actions := as_save a2 (rs_actions s1)\<rparr>;
                s3 = persist_action ops a2 s2
            in (case publish_action_status publish ''action.requested'' a2 s3 of
                  None \<Rightarrow> None
                | Some s4 \<Rightarrow>
                    Some (None, if acStatus a2 = ''allowed'' then execute_action_async a2 s4 else s4))))"

section \<open>The handlers of the bus\<close>

definition save_session :: "'d ops \<Rightarrow> session \<Rightarrow> 'd runtime \<Rightarrow> 'd runtime" where
  "save_session ops x s =
     (case rs_storage s of
        None \<Rightarrow> s
      | Some d \<Rightarrow> s\<lparr>rs_storage := Some (snd (op_save_session ops x d))\<rparr>)"

definition handle_session_tracking :: "'d ops \<Rightarrow> event \<Rightarrow> 'd runtime \<Rightarrow> error option \<times> 'd runtime" where
  "handle_session_tracking ops e s =
     (if evSessionID e = [] then (None, s)
      else (case sm_get (rs_sessions s) (evSessionID e) of
              Inl _ \<Rightarrow>
                (let (created, s1) = read_now s; (updated, s2) = read_now s1;
                     x = \<lparr>ssID = evSessionID e, ssChannel = evSource e, ssParticipants = [],
                          ssMessages = [], ssState = ''active'', ssMetadata = [],
                          ssCreatedAt = created, ssUpdatedAt = updated\<rparr>
                 in (case sm_create x (rs_sessions s2) of
                       Inl er \<Rightarrow> (Some er, s2)
                     | Inr m \<Rightarrow> (None, save_session ops x (s2\<lparr>rs_sessions := m\<rparr>))))
            | Inr x \<Rightarrow>
                (let (now, s1) = read_now s; x1 = x\<lparr>ssUpdatedAt := now\<rparr>;
                     s2 = (case sm_update x1 (rs_sessions s1) of
                             Inl _ \<Rightarrow> s1
                           | Inr m \<Rightarrow> s1\<lparr>rs_sessions := m\<rparr>)
                 in (None, save_session ops x1 s2))))"

definition rt_engine_host :: "'d publisher \<Rightarrow> 'd ops \<Rightarrow> 'd runtime host" where
  "rt_engine_host publish ops =
     \<lparr>ho_engine = rs_engine, ho_set = (\<lambda>en s. s\<lparr>rs_engine := en\<rparr>),
      ho_sink = Some (request_action publish ops),
      ho_sessions = Some (\<lambda>s. sm_get (rs_sessions s))\<rparr>"

definition handle_workflow_event ::
  "'d publisher \<Rightarrow> 'd ops \<Rightarrow> event \<Rightarrow> 'd runtime \<Rightarrow> (error option \<times> 'd runtime) option" where
  "handle_workflow_event publish ops e s =
     (let (p, s1) = read_order s
      in map_option (\<lambda>((_, er), s2). (er, s2)) (handle_event (rt_engine_host publish ops) p e s1))"

definition rt_bus_host ::
  "(handler \<Rightarrow> event \<Rightarrow> 'd runtime \<Rightarrow> (error option \<times> 'd runtime) option) \<Rightarrow> (handler, 'd runtime) bus_host" where
  "rt_bus_host invoke =
     \<lparr>bh_get = rs_bus, bh_set = (\<lambda>b s. s\<lparr>rs_bus := b\<rparr>), bh_invoke = invoke,
      bh_orders = read_orders, bh_select = read_select\<rparr>"

text \<open>
  A handler called with fuel \<open>n\<close>: a chain of publications nested deeper than the fuel is
  \<open>None\<close>, a call that has not returned.
\<close>

primrec run_handler ::
  "nat \<Rightarrow> 'd ops \<Rightarrow> handler \<Rightarrow> event \<Rightarrow> 'd runtime \<Rightarrow> (error option \<times> 'd runtime) option" where
  "run_handler 0 = (\<lambda>ops h e s. None)"
| "run_handler (Suc n) = (\<lambda>ops h e s.
     case h of
       HPersist \<Rightarrow> Some (handle_persistence_event ops e s)
     | HWorkflow \<Rightarrow> handle_workflow_event (bus_publish (rt_bus_host (run_handler n ops))) ops e s
     | HSession \<Rightarrow> Some (handle_session_tracking ops e s))"

definition publish_event :: "nat \<Rightarrow> 'd ops \<Rightarrow> 'd publisher" where
  "publish_event n ops = bus_publish (rt_bus_host (run_handler n ops))"

lemma run_handler_simps [simp]:
  "run_handler (Suc n) ops HPersist e s = Some (handle_persistence_event ops e s)"
  "run_handler (Suc n) ops HWorkflow e s = handle_workflow_event (publish_event n ops) ops e s"
  "run_handler (Suc n) ops HSession e s = Some (handle_session_tracking ops e s)"
  by (simp_all add: publish_event_def)

declare run_handler.simps(2) [simp del]

section \<open>Executing actions\<close>

text \<open>
  The closure \<open>loadPlugins\<close> registers: it calls the plugin through the supervisor. Its result
  is raw JSON text even when the call fails (then the text is empty).
\<close>

definition call_plugin ::
  "string \<times> string \<Rightarrow> val \<Rightarrow> 'd runtime \<Rightarrow> (string option \<times> error option) \<times> 'd runtime" where
  "call_plugin h params s =
     (let (env, s1) = read_call s; (r, sv) = sv_call env (fst h) (rs_supervisor s1);
          s2 = s1\<lparr>rs_supervisor := sv\<rparr>
      in (case r of Inl e \<Rightarrow> ((Some [], Some e), s2) | Inr raw \<Rightarrow> ((Some raw, None), s2)))"

definition decode_result :: "'d ops \<Rightarrow> string option \<Rightarrow> vmap" where
  "decode_result ops result =
     (case result of
        None \<Rightarrow> []
      | Some raw \<Rightarrow>
          (case op_json ops raw of
             Inr (VMap m) \<Rightarrow> m
           | Inr decoded \<Rightarrow> [(''data'', decoded)]
           | Inl _ \<Rightarrow> [(''data'', VStr raw)]))"

text \<open>The part of the goroutine that executes: an execution record and an error.\<close>

definition perform_action :: "'d ops \<Rightarrow> action \<Rightarrow> 'd runtime \<Rightarrow> (execution \<times> error option) \<times> 'd runtime" where
  "perform_action ops a s =
     (if is_workflow_action_type (acType a) then
        (let (ce, s1) = read_ctx_err s;
             (r, mx) = engine_execute_action (Some mx_execute) ce a (rs_executor s1);
             s2 = s1\<lparr>rs_executor := mx\<rparr>
         in (case r of Inl e \<Rightarrow> ((zero_execution, Some e), s2) | Inr x \<Rightarrow> ((x, None), s2)))
      else
        (case split_n2 (CHR ''.'') (acType a) of
           [pluginID, capability] \<Rightarrow>
             (let ((result, er), s1) = router_call call_plugin (rs_router s) pluginID capability (VMap (acPayload a)) s;
                  (i, s2) = stamp (''exec-'' @ acID a) s1;
                  (created, s3) = read_now s2; (completed, s4) = read_now s3
              in ((\<lparr>xcID = i, xcActionID = acID a, xcType = acType a, xcStatus = ''completed'',
                    xcDryRun = False, xcInput = acPayload a, xcResult = decode_result ops result,
                    xcError = [], xcCreatedAt = created, xcCompletedAt = completed\<rparr>, er), s4))
         | _ \<Rightarrow> ((zero_execution, Some (New (''unknown action type: '' @ acType a))), s)))"

text \<open>The status the execution leaves in the store, and its persistence.\<close>

definition settle_action :: "'d ops \<Rightarrow> string \<Rightarrow> string \<Rightarrow> 'd runtime \<Rightarrow> 'd runtime" where
  "settle_action ops i status s =
     (let (r, st) = as_update_status i status (rs_actions s); s1 = s\<lparr>rs_actions := st\<rparr>
      in (case r of Inl _ \<Rightarrow> s1 | Inr updated \<Rightarrow> persist_action ops updated s1))"

definition executed_payload :: "action \<Rightarrow> execution \<Rightarrow> vmap" where
  "executed_payload a x =
     [(''actionId'', VStr (acID a)), (''actionType'', VStr (acType a)),
      (''actionSource'', VStr (acSource a)), (''status'', VNamed (xcStatus x)),
      (''error'', VStr (xcError x)), (''result'', VMap (xcResult x)), (''dryRun'', VBool (xcDryRun x))]"

text \<open>The goroutine of \<^verbatim>\<open>executeActionAsync\<close>.\<close>

definition execute_action :: "'d publisher \<Rightarrow> 'd ops \<Rightarrow> action \<Rightarrow> 'd runtime \<Rightarrow> 'd runtime option" where
  "execute_action publish ops a s =
     (let ((x, er), s1) = perform_action ops a s;
          x1 = (case er of
                  Some e \<Rightarrow> x\<lparr>xcStatus := ''failed'', xcError := error_text e\<rparr>
                | None \<Rightarrow> x\<lparr>xcStatus := ''completed''\<rparr>);
          s2 = settle_action ops (acID a) (if er = None then ''executed'' else ''failed'') s1;
          (e, s3) = core_event ''action.executed'' ''action.executed'' (acSessionID a) (executed_payload a x1) s2
      in publish_quietly publish (e\<lparr>evTraceID := acTraceID a, evDepth := acDepth a\<rparr>) s3)"

text \<open>The scheduler lets the \<open>k\<close>-th waiting goroutine run.\<close>

definition run_spawned :: "'d publisher \<Rightarrow> 'd ops \<Rightarrow> nat \<Rightarrow> 'd runtime \<Rightarrow> 'd runtime option" where
  "run_spawned publish ops k s =
     (if k < length (rs_spawned s)
      then execute_action publish ops (rs_spawned s ! k)
             (s\<lparr>rs_spawned := take k (rs_spawned s) @ drop (Suc k) (rs_spawned s)\<rparr>)
      else Some s)"

section \<open>Approving and denying\<close>

definition approve_action ::
  "'d publisher \<Rightarrow> 'd ops \<Rightarrow> string \<Rightarrow> 'd runtime \<Rightarrow> (action res \<times> 'd runtime) option" where
  "approve_action publish ops i s =
     (let (r, st) = as_update_status i ''allowed'' (rs_actions s); s1 = s\<lparr>rs_actions := st\<rparr>
      in (case r of
            Inl e \<Rightarrow> Some (Inl e, s1)
          | Inr a \<Rightarrow>
              (case publish_action_status publish ''action.approved'' a (persist_action ops a s1) of
                 None \<Rightarrow> None
               | Some s2 \<Rightarrow> Some (Inr a, execute_action_async a s2))))"

definition deny_action ::
  "'d publisher \<Rightarrow> 'd ops \<Rightarrow> string \<Rightarrow> 'd runtime \<Rightarrow> (action res \<times> 'd runtime) option" where
  "deny_action publish ops i s =
     (let (r, st) = as_update_status i ''denied'' (rs_actions s); s1 = s\<lparr>rs_actions := st\<rparr>
      in (case r of
            Inl e \<Rightarrow> Some (Inl e, s1)
          | Inr a \<Rightarrow>
              map_option (Pair (Inr a))
                (publish_action_status publish ''action.denied'' a (persist_action ops a s1))))"

section \<open>Events from outside\<close>

text \<open>The defaults an event from the control API or from a plugin gets.\<close>

definition emit_event :: "'d publisher \<Rightarrow> event \<Rightarrow> 'd runtime \<Rightarrow> (error option \<times> 'd runtime) option" where
  "emit_event publish e s =
     (let (e1, s1) = (if evID e = [] then (let (i, s') = stamp ''api-event'' s in (e\<lparr>evID := i\<rparr>, s'))
                      else (e, s));
          (e2, s2) = (if is_zero (evCreatedAt e1)
                      then (let (now, s') = read_now s1 in (e1\<lparr>evCreatedAt := now\<rparr>, s')) else (e1, s1));
          e3 = (if evSource e2 = [] then e2\<lparr>evSource := ''api''\<rparr> else e2)
      in publish e3 s2)"

text \<open>
  A request of a plugin, and the response it is sent: acknowledged, the action, or rejected
  with a JSON-RPC code and a text. That the response could not be written is only logged.
\<close>

record plugin_request =
  prPluginID :: string
  prMethod :: string
  prParams :: string

datatype reply = RespOk | RespAction action | Rejected int string

definition handle_event_emit ::
  "'d publisher \<Rightarrow> 'd ops \<Rightarrow> plugin_request \<Rightarrow> 'd runtime \<Rightarrow> (reply \<times> 'd runtime) option" where
  "handle_event_emit publish ops req s =
     (case op_json_event ops (prParams req) of
        Inl _ \<Rightarrow> Some (Rejected (-32602) ''invalid event params'', s)
      | Inr e \<Rightarrow>
          (let e1 = (if evSource e = [] then e\<lparr>evSource := prPluginID req\<rparr> else e);
               (e2, s1) = (if evID e1 = []
                           then (let (i, s') = stamp (prPluginID req) s in (e1\<lparr>evID := i\<rparr>, s')) else (e1, s));
               (e3, s2) = (if is_zero (evCreatedAt e2)
                           then (let (now, s') = read_now s1 in (e2\<lparr>evCreatedAt := now\<rparr>, s')) else (e2, s1))
           in (case publish e3 s2 of
                 None \<Rightarrow> None
               | Some (Some er, s3) \<Rightarrow> Some (Rejected (-32602) (error_text er), s3)
               | Some (None, s3) \<Rightarrow> Some (RespOk, s3))))"

definition handle_action_request ::
  "'d publisher \<Rightarrow> 'd ops \<Rightarrow> plugin_request \<Rightarrow> 'd runtime \<Rightarrow> (reply \<times> 'd runtime) option" where
  "handle_action_request publish ops req s =
     (case op_json_action ops (prParams req) of
        Inl _ \<Rightarrow> Some (Rejected (-32602) ''invalid action params'', s)
      | Inr a \<Rightarrow>
          (let (a1, s1) = complete_action (prPluginID req) (prPluginID req @ ''-action'') a s;
               (status, err) = gate_decide (rs_mode s1) a1
           in if err \<noteq> None \<and> status = []
              then Some (Rejected (-32602) (error_text (the err)), s1)
              else
                (let a2 = a1\<lparr>acStatus := status\<rparr>;
                     s2 = s1\<lparr>rs_actions := as_save a2 (rs_actions s1)\<rparr>;
                     (e, s3) = core_event (acID a2 @ ''-event'') ''action.requested'' (acSessionID a2)
                                 (status_payload a2) s2
                 in (case publish_quietly publish e s3 of
                       None \<Rightarrow> None
                     | Some s4 \<Rightarrow>
                         Some (RespAction a2,
                           if acStatus a2 = ''allowed'' then execute_action_async a2 s4 else s4)))))"

definition handle_plugin_status :: "'d publisher \<Rightarrow> process_status \<Rightarrow> 'd runtime \<Rightarrow> 'd runtime option" where
  "handle_plugin_status publish st s =
     (let t = (if psRunning st then ''plugin.started''
               else if psLastError st \<noteq> [] then ''plugin.error'' else ''plugin.stopped'');
          (e, s1) = core_event (psID st @ ''-status'') t []
            [(''id'', VStr (psID st)), (''running'', VBool (psRunning st)),
             (''restarts'', VInt (psRestarts st)), (''lastError'', VStr (psLastError st))] s
      in publish_quietly publish e s1)"

fun emit_statuses :: "'d publisher \<Rightarrow> process_status list \<Rightarrow> 'd runtime \<Rightarrow> 'd runtime option" where
  "emit_statuses publish [] s = Some s"
| "emit_statuses publish (st # sts) s =
     (case handle_plugin_status publish st s of
        None \<Rightarrow> None
      | Some s1 \<Rightarrow> emit_statuses publish sts s1)"

definition handle_plugin_stop ::
  "'d publisher \<Rightarrow> plugin_request \<Rightarrow> 'd runtime \<Rightarrow> (reply \<times> 'd runtime) option" where
  "handle_plugin_stop publish req s =
     (let i = prPluginID req;
          (e, s1) = core_event (i @ ''-stop'') ''plugin.stop.requested'' [] [(''id'', VStr i)] s
      in (case publish_quietly publish e s1 of
            None \<Rightarrow> None
          | Some s2 \<Rightarrow>
              (let (now, s3) = read_now s2; (er, sts, sv) = sv_stop now i (rs_supervisor s3)
               in (case emit_statuses publish sts (s3\<lparr>rs_supervisor := sv\<rparr>) of
                     None \<Rightarrow> None
                   | Some s4 \<Rightarrow>
                       Some (case er of
                               Some e \<Rightarrow> Rejected (-32603) (error_text e)
                             | None \<Rightarrow> RespOk, s4)))))"

definition handle_plugin_request ::
  "'d publisher \<Rightarrow> 'd ops \<Rightarrow> plugin_request \<Rightarrow> 'd runtime \<Rightarrow> (reply \<times> 'd runtime) option" where
  "handle_plugin_request publish ops req s =
     (if prMethod req = ''event.emit'' then handle_event_emit publish ops req s
      else if prMethod req = ''action.request'' then handle_action_request publish ops req s
      else if prMethod req = ''plugin.stop'' then handle_plugin_stop publish req s
      else Some (Rejected (-32601) ''method not found'', s))"

end
