(* ===== verification/RuntimeInv.thy ===== *)
theory RuntimeInv
  imports Runtime
begin

text \<open>
  What publishing an event keeps. The locale \<open>runtime_keeps\<close> lists the elementary changes a
  publication makes to the runtime; a predicate closed under them holds after any nesting of
  publications. The contracts of the engine (\<open>engine_host\<close>) and of the bus (\<open>bus_system\<close>)
  are discharged on the runtime's own hosts, at every fuel.
\<close>

section \<open>Small facts about the state\<close>

lemma tick_frame [simp, frame_simps]:
  "rs_config (tick s) = rs_config s" "rs_bus (tick s) = rs_bus s" "rs_actions (tick s) = rs_actions s"
  "rs_registry (tick s) = rs_registry s" "rs_engine (tick s) = rs_engine s"
  "rs_executor (tick s) = rs_executor s" "rs_sessions (tick s) = rs_sessions s"
  "rs_supervisor (tick s) = rs_supervisor s" "rs_router (tick s) = rs_router s"
  "rs_storage (tick s) = rs_storage s" "rs_spawned (tick s) = rs_spawned s"
  by (simp_all add: tick_def)

lemmas reads = read_now_def read_order_def read_orders_def read_select_def read_ctx_err_def
  read_call_def Let_def

text \<open>The action a request becomes: only fields that are empty are filled.\<close>

lemma complete_action_fields:
  assumes "complete_action source pre a s = (a', s')"
  shows "acType a' = acType a" "acRisk a' = acRisk a" "acSessionID a' = acSessionID a"
    "acTraceID a' = acTraceID a" "acDepth a' = acDepth a" "acPayload a' = acPayload a"
    "acSource a' = (if acSource a = [] then source else acSource a)"
    "acStatus a' = (if acStatus a = [] then ''requested'' else acStatus a)"
    "acID a \<noteq> [] \<Longrightarrow> acID a' = acID a"
    "\<not> is_zero (acCreatedAt a) \<Longrightarrow> acCreatedAt a' = acCreatedAt a"
  using assms by (auto simp: complete_action_def stamp_def reads split: if_splits prod.splits)

lemma complete_action_id:
  "acID a \<noteq> [] \<Longrightarrow> acSource a \<noteq> [] \<Longrightarrow> acStatus a \<noteq> [] \<Longrightarrow> \<not> is_zero (acCreatedAt a) \<Longrightarrow>
     complete_action source pre a s = (a, s)"
  by (simp add: complete_action_def Let_def)

lemma action_validate_status:
  "action_validate a = None \<Longrightarrow> st \<in> set action_statuses \<Longrightarrow> action_validate (a\<lparr>acStatus := st\<rparr>) = None"
  by (simp add: action_valid_iff)

lemma gate_decide_valid_status:
  "gate_decide m a = (st, err) \<Longrightarrow> st \<noteq> [] \<Longrightarrow> action_validate (a\<lparr>acStatus := st\<rparr>) = None"
  using gate_decided_valid [of m a] gate_status [of m a]
  by (auto intro!: action_validate_status simp: action_statuses_def)

section \<open>Closure under the changes of a publication\<close>

locale runtime_keeps =
  fixes ops :: "'d ops" and m :: mode and P :: "'d runtime \<Rightarrow> bool"
  assumes mode_fixed: "P s \<Longrightarrow> rs_mode s = m"
    and keeps_tick: "P s \<Longrightarrow> P (tick s)"
    and keeps_storage: "P s \<Longrightarrow> P (s\<lparr>rs_storage := d\<rparr>)"
    and keeps_record: "P s \<Longrightarrow> P (s\<lparr>rs_bus := bus_record e (rs_bus s)\<rparr>)"
    and keeps_engine: "P s \<Longrightarrow> en_rules en = en_rules (rs_engine s) \<Longrightarrow>
      en_now en = en_now (rs_engine s) \<Longrightarrow> P (s\<lparr>rs_engine := en\<rparr>)"
    and keeps_create: "P s \<Longrightarrow> sm_create x (rs_sessions s) = Inr sm \<Longrightarrow> P (s\<lparr>rs_sessions := sm\<rparr>)"
    and keeps_update: "P s \<Longrightarrow> sm_update x (rs_sessions s) = Inr sm \<Longrightarrow> P (s\<lparr>rs_sessions := sm\<rparr>)"
    and keeps_save: "P s \<Longrightarrow> gate_decide m a = (st, err) \<Longrightarrow> st \<noteq> [] \<Longrightarrow>
      P (s\<lparr>rs_actions := as_save (a\<lparr>acStatus := st\<rparr>) (rs_actions s)\<rparr>)"
    and keeps_spawn: "P s \<Longrightarrow> gate_decide m a = (''allowed'', err) \<Longrightarrow>
      P (s\<lparr>rs_spawned := rs_spawned s @ [a\<lparr>acStatus := ''allowed''\<rparr>]\<rparr>)"
begin

lemma read_now_keeps: "P s \<Longrightarrow> read_now s = (t, s') \<Longrightarrow> P s'"
  and read_order_keeps: "P s \<Longrightarrow> read_order s = (p, s') \<Longrightarrow> P s'"
  and read_orders_keeps: "P s \<Longrightarrow> read_orders s = (p, q, s') \<Longrightarrow> P s'"
  and read_select_keeps: "P s \<Longrightarrow> read_select s = (sel, s') \<Longrightarrow> P s'"
  by (auto simp: reads intro!: keeps_tick)

lemma stamp_keeps: "P s \<Longrightarrow> stamp pre s = (i, s') \<Longrightarrow> P s'"
  by (auto simp: stamp_def Let_def split: prod.splits intro: read_now_keeps)

lemma core_event_keeps: "P s \<Longrightarrow> core_event pre t x pl s = (e, s') \<Longrightarrow> P s'"
  by (auto simp: core_event_def Let_def split: prod.splits intro: read_now_keeps stamp_keeps)

lemma complete_action_keeps: "P s \<Longrightarrow> complete_action source pre a s = (a', s') \<Longrightarrow> P s'"
  by (auto simp: complete_action_def Let_def split: prod.splits if_splits
      intro: read_now_keeps stamp_keeps)

lemma persist_action_keeps: "P s \<Longrightarrow> P (persist_action ops a s)"
  by (auto simp: persist_action_def split: option.splits intro: keeps_storage)

lemma persistence_keeps: "P s \<Longrightarrow> handle_persistence_event ops e s = (er, s') \<Longrightarrow> P s'"
  by (auto simp: handle_persistence_event_def Let_def split: option.splits prod.splits intro: keeps_storage)

lemma save_session_keeps: "P s \<Longrightarrow> P (save_session ops x s)"
  by (auto simp: save_session_def split: option.splits intro: keeps_storage)

lemma session_tracking_keeps: "P s \<Longrightarrow> handle_session_tracking ops e s = (er, s') \<Longrightarrow> P s'"
  by (auto simp: handle_session_tracking_def Let_def split: option.splits prod.splits sum.splits if_splits
      intro!: save_session_keeps
      intro: keeps_create [rotated] keeps_update [rotated] read_now_keeps)

text \<open>A publisher that keeps \<open>P\<close> makes the sink of the engine keep it.\<close>

lemma status_event_keeps:
  assumes pub: "\<And>s e er s'. P s \<Longrightarrow> publish e s = Some (er, s') \<Longrightarrow> P s'"
    and "P s" "publish_action_status publish t a s = Some s'"
  shows "P s'"
  using assms(2,3)
  by (auto simp: publish_action_status_def publish_quietly_def Let_def split: prod.splits
      intro: pub core_event_keeps)

lemma request_keeps:
  assumes pub: "\<And>s e er s'. P s \<Longrightarrow> publish e s = Some (er, s') \<Longrightarrow> P s'"
    and "P s" and req: "request_action publish ops a s = Some (er, s')"
  shows "P s'"
proof -
  obtain a1 s1 where c: "complete_action ''workflow'' ''workflow-action'' a s = (a1, s1)"
    by (meson surj_pair)
  with \<open>P s\<close> have P1: "P s1" by (rule complete_action_keeps)
  obtain st err where g: "gate_decide m a1 = (st, err)" by (meson surj_pair)
  with mode_fixed [OF P1] have g': "gate_decide (rs_mode s1) a1 = (st, err)" by simp
  show ?thesis
  proof (cases "err \<noteq> None \<and> st = []")
    case True
    with req c g' P1 show ?thesis by (simp add: request_action_def)
  next
    case False
    have "st \<noteq> []"
      using False gate_err_denied [of m a1] g by auto
    let ?a2 = "a1\<lparr>acStatus := st\<rparr>" and ?s2 = "s1\<lparr>rs_actions := as_save (a1\<lparr>acStatus := st\<rparr>) (rs_actions s1)\<rparr>"
    have P3: "P (persist_action ops ?a2 ?s2)"
      by (rule persist_action_keeps, rule keeps_save) (use P1 g \<open>st \<noteq> []\<close> in auto)
    from req c g' False obtain s4 where
      s4: "publish_action_status publish ''action.requested'' ?a2 (persist_action ops ?a2 ?s2) = Some s4"
      and s': "s' = (if st = ''allowed'' then execute_action_async ?a2 s4 else s4)"
      by (auto simp: request_action_def Let_def split: option.splits)
    have P4: "P s4" by (rule status_event_keeps [OF pub P3 s4])
    show ?thesis
    proof (cases "st = ''allowed''")
      case True
      with s' g P4 show ?thesis by (simp add: execute_action_async_def keeps_spawn)
    next
      case False
      with s' P4 show ?thesis by simp
    qed
  qed
qed

lemma rt_engine_host:
  assumes pub: "\<And>s e er s'. P s \<Longrightarrow> publish e s = Some (er, s') \<Longrightarrow> P s'"
  shows "engine_host (rt_engine_host publish ops) P"
  by unfold_locales (auto simp: rt_engine_host_def intro: keeps_engine request_keeps [OF pub])

lemma workflow_event_keeps:
  assumes pub: "\<And>s e er s'. P s \<Longrightarrow> publish e s = Some (er, s') \<Longrightarrow> P s'"
    and "P s" "handle_workflow_event publish ops e s = Some (er, s')"
  shows "P s'"
proof -
  obtain p s1 where r: "read_order s = (p, s1)" by (meson surj_pair)
  with assms(3) obtain as where "handle_event (rt_engine_host publish ops) p e s1 = Some ((as, er), s')"
    by (auto simp: handle_workflow_event_def)
  from engine_host.handle_event_inv [OF rt_engine_host [OF pub] this read_order_keeps [OF assms(2) r]]
  show ?thesis .
qed

text \<open>The bus of the runtime meets its contract, whatever the fuel of its handlers.\<close>

lemma rt_bus_system: "bus_system (rt_bus_host (run_handler n ops)) P (\<lambda>_. True)"
proof (induction n)
  case 0
  show ?case
    by unfold_locales
       (auto simp: rt_bus_host_def intro: keeps_record read_orders_keeps read_select_keeps)
next
  case (Suc n)
  have pub: "P s \<Longrightarrow> publish_event n ops e s = Some (er, s') \<Longrightarrow> P s'" for s e er s'
    unfolding publish_event_def by (rule bus_system.publish_inv [OF Suc TrueI])
  have workflow: "P s \<Longrightarrow> handle_workflow_event (publish_event n ops) ops e s = Some (er, s') \<Longrightarrow> P s'"
    for e s er s' by (rule workflow_event_keeps) (rule pub)
  have "P s \<Longrightarrow> run_handler (Suc n) ops h e s = Some (er, s') \<Longrightarrow> P s'" for h e s er s'
    by (cases h)
       (auto intro: persistence_keeps session_tracking_keeps dest: workflow)
  then show ?case
    by unfold_locales
       (auto simp: rt_bus_host_def intro: keeps_record read_orders_keeps read_select_keeps)
qed

lemma publish_keeps: "P s \<Longrightarrow> publish_event n ops e s = Some (er, s') \<Longrightarrow> P s'"
  unfolding publish_event_def by (rule bus_system.publish_inv [OF rt_bus_system TrueI])

text \<open>A publication returns when the workflow engine does.\<close>

lemma publish_returns:
  assumes "\<And>s. P s \<Longrightarrow> handle_workflow_event (publish_event n ops) ops e s \<noteq> None" and "P s"
  shows "publish_event (Suc n) ops e s \<noteq> None"
proof -
  have "run_handler (Suc n) ops h e t \<noteq> None" if "P t" for h t
    using that assms(1) by (cases h) simp_all
  then show ?thesis unfolding publish_event_def
    by (intro bus_system.publish_returns [OF rt_bus_system _ TrueI assms(2)])
       (simp add: rt_bus_host_def)
qed

text \<open>Requests go through when their status event does.\<close>

lemma request_returns:
  assumes "\<And>e s. P s \<Longrightarrow> evType e = ''action.requested'' \<Longrightarrow> evSource e = ''core.runtime'' \<Longrightarrow>
      publish e s \<noteq> None"
    and "P s"
  shows "request_action publish ops a s \<noteq> None"
proof -
  obtain a1 s1 where c: "complete_action ''workflow'' ''workflow-action'' a s = (a1, s1)"
    by (meson surj_pair)
  with \<open>P s\<close> have P1: "P s1" by (rule complete_action_keeps)
  obtain st err where g: "gate_decide m a1 = (st, err)" by (meson surj_pair)
  with mode_fixed [OF P1] have g': "gate_decide (rs_mode s1) a1 = (st, err)" by simp
  show ?thesis
  proof (cases "err \<noteq> None \<and> st = []")
    case True
    with c g' show ?thesis by (simp add: request_action_def)
  next
    case False
    have "st \<noteq> []" using False gate_err_denied [of m a1] g by auto
    let ?a2 = "a1\<lparr>acStatus := st\<rparr>" and ?s2 = "s1\<lparr>rs_actions := as_save (a1\<lparr>acStatus := st\<rparr>) (rs_actions s1)\<rparr>"
    have P3: "P (persist_action ops ?a2 ?s2)"
      by (rule persist_action_keeps, rule keeps_save) (use P1 g \<open>st \<noteq> []\<close> in auto)
    obtain e s3 where e: "core_event ''action.requested'' ''action.requested'' (acSessionID ?a2)
        (status_payload ?a2) (persist_action ops ?a2 ?s2) = (e, s3)" by (meson surj_pair)
    then have "evType e = ''action.requested''" "evSource e = ''core.runtime''"
      by (auto simp: core_event_def Let_def split: prod.splits)
    with assms(1) core_event_keeps [OF P3 e] have "publish e s3 \<noteq> None" by blast
    with False c g' e show ?thesis
      by (auto simp: request_action_def publish_action_status_def publish_quietly_def)
  qed
qed

end

text \<open>So every predicate that is closed in this way comes with the two contracts.\<close>

sublocale runtime_keeps \<subseteq> bus: bus_system "rt_bus_host (run_handler n ops)" P "\<lambda>_. True" for n
  by (rule rt_bus_system)

sublocale runtime_keeps \<subseteq> engine: engine_host "rt_engine_host (publish_event n ops) ops" P for n
  by (rule rt_engine_host) (rule publish_keeps)

text \<open>More fuel never changes what a publication returns.\<close>

lemma request_action_mono:
  assumes "\<And>e s r. f e s = Some r \<Longrightarrow> g e s = Some r"
    and "request_action f ops a s = Some r"
  shows "request_action g ops a s = Some r"
  using assms(2)
  by (auto simp: request_action_def publish_action_status_def publish_quietly_def Let_def
      split: prod.splits if_splits option.splits dest: assms(1))

lemma handle_workflow_event_mono:
  assumes "\<And>e s r. f e s = Some r \<Longrightarrow> g e s = Some r"
    and "handle_workflow_event f ops e s = Some r"
  shows "handle_workflow_event g ops e s = Some r"
proof -
  have host: "rt_engine_host k ops = (rt_engine_host f ops)\<lparr>ho_sink := Some (request_action k ops)\<rparr>" for k
    by (simp add: rt_engine_host_def)
  obtain p s1 where r: "read_order s = (p, s1)" by (meson surj_pair)
  with assms(2) obtain x where x: "handle_event (rt_engine_host f ops) p e s1 = Some x"
    and r': "r = (\<lambda>((_, er), s2). (er, s2)) x"
    by (auto simp: handle_workflow_event_def)
  have "handle_event (rt_engine_host g ops) p e s1 = Some x"
    using handle_event_mono [where f = "request_action f ops" and g = "request_action g ops"
        and ho = "rt_engine_host f ops", OF request_action_mono [OF assms(1)]] x
    by (simp add: host [of f, symmetric] host [of g, symmetric])
  with r r' show ?thesis by (simp add: handle_workflow_event_def)
qed

lemma publish_mono:
  assumes "\<And>h e s r. run_handler n ops h e s = Some r \<Longrightarrow> run_handler k ops h e s = Some r"
    and "publish_event n ops e s = Some r"
  shows "publish_event k ops e s = Some r"
proof -
  have host: "rt_bus_host I = (rt_bus_host (run_handler n ops))\<lparr>bh_invoke := I\<rparr>" for I :: "handler \<Rightarrow> _"
    by (simp add: rt_bus_host_def)
  from assms(2) show ?thesis unfolding publish_event_def
    using bus_publish_mono [where I = "run_handler n ops" and J = "run_handler k ops"
        and bh = "rt_bus_host (run_handler n ops)", OF assms(1)]
    by (simp add: host [of "run_handler n ops", symmetric] host [of "run_handler k ops", symmetric])
qed

lemma run_handler_mono: "run_handler n ops h e s = Some r \<Longrightarrow> run_handler (Suc n) ops h e s = Some r"
proof (induction n arbitrary: h e s r)
  case 0
  then show ?case by simp
next
  case (Suc n)
  show ?case
  proof (cases h)
    case HWorkflow
    with Suc.prems have "handle_workflow_event (publish_event n ops) ops e s = Some r" by simp
    then have "handle_workflow_event (publish_event (Suc n) ops) ops e s = Some r"
      by (rule handle_workflow_event_mono [rotated]) (rule publish_mono [OF Suc.IH])
    with HWorkflow show ?thesis by simp
  qed (use Suc.prems in simp_all)
qed

lemma publish_event_mono:
  assumes "publish_event n ops e s = Some r" and "n \<le> k"
  shows "publish_event k ops e s = Some r"
  using assms(2,1)
  by (induction rule: dec_induct) (auto intro: publish_mono [OF run_handler_mono])

end
