(* ===== verification/RuntimeLaws.thy ===== *)
theory RuntimeLaws
  imports RuntimeInv
begin

text \<open>
  The laws of the runtime, as interpretations of \<open>runtime_keeps\<close>: its invariant, the policy
  that every execution obeys, the workflows for which publishing returns and those for which
  it does not.
\<close>

section \<open>The invariant\<close>

lemma bus_wf_record [simp]: "bus_wf (bus_record e b) = bus_wf b"
  by (simp add: bus_wf_def bus_record_def)

definition bounded_history :: "'h bus \<Rightarrow> bool" where
  "bounded_history b \<longleftrightarrow> int (length (bs_history b)) \<le> max 0 (bs_limit b)"

lemma bounded_history_record [simp]: "bounded_history b \<Longrightarrow> bounded_history (bus_record e b)"
  by (cases "bs_limit b \<le> 0") (simp_all add: bounded_history_def bus_record_def keep_last_length)

definition rt_inv :: "'d runtime \<Rightarrow> bool" where
  "rt_inv s \<longleftrightarrow>
     as_wf (rs_actions s) \<and> sm_wf (rs_sessions s) \<and> wr_wf (rs_registry s) \<and> mx_wf (rs_executor s) \<and>
     sv_wf (rs_supervisor s) \<and> bus_wf (rs_bus s) \<and> bounded_history (rs_bus s) \<and>
     (\<forall>r \<in> set (en_rules (rs_engine s)). rule_validate r = None) \<and>
     (\<forall>a \<in> set (rs_spawned s). acStatus a = ''allowed'')"

interpretation invariant: runtime_keeps ops m "\<lambda>s. rs_mode s = m \<and> rt_inv s" for ops m
  by unfold_locales (auto simp: rt_inv_def intro: sm_create_wf sm_update_wf)

text \<open>What a publication does not touch at all.\<close>

interpretation config_fixed: runtime_keeps ops "cfMode c"
  "\<lambda>s. rs_config s = c \<and> rs_registry s = reg \<and> rs_router s = rt \<and> rs_supervisor s = sv \<and>
     rs_executor s = mx \<and> en_rules (rs_engine s) = rs" for ops c reg rt sv mx rs
  by unfold_locales auto

section \<open>Only what the gate allows is executed\<close>

definition spawned_since :: "mode \<Rightarrow> action list \<Rightarrow> 'd runtime \<Rightarrow> bool" where
  "spawned_since m base s \<longleftrightarrow>
     (\<exists>more. rs_spawned s = base @ more \<and>
       (\<forall>a \<in> set more. acStatus a = ''allowed'' \<and> fst (gate_decide m a) = ''allowed''))"

lemma spawned_since_append:
  "spawned_since m base s \<Longrightarrow> rs_spawned s' = rs_spawned s @ [a] \<Longrightarrow> acStatus a = ''allowed'' \<Longrightarrow>
     fst (gate_decide m a) = ''allowed'' \<Longrightarrow> spawned_since m base s'"
  unfolding spawned_since_def by (elim exE, rule_tac x = "more @ [a]" in exI) auto

lemma spawned_since_same:
  "spawned_since m base s \<Longrightarrow> rs_spawned s' = rs_spawned s \<Longrightarrow> spawned_since m base s'"
  by (simp add: spawned_since_def)

text \<open>The gate's verdict does not depend on the status the request came with.\<close>

lemma gate_decide_status:
  assumes "gate_decide m a = (st, err)" "st \<noteq> []" "st' \<in> set action_statuses"
  shows "gate_decide m (a\<lparr>acStatus := st'\<rparr>) = (st, err)"
proof -
  from assms(1,2) have "action_validate a = None"
    using gate_decided_valid [of m a] by simp
  with action_validate_status [OF this assms(3)] assms(1) show ?thesis
    by (simp add: gate_defs cong: if_cong)
qed

interpretation spawning: runtime_keeps ops m "\<lambda>s. rs_mode s = m \<and> spawned_since m base s" for ops m base
proof unfold_locales
  fix s :: "'a runtime" and a err
  assume *: "rs_mode s = m \<and> spawned_since m base s" and g: "gate_decide m a = (''allowed'', err)"
  have "fst (gate_decide m (a\<lparr>acStatus := ''allowed''\<rparr>)) = ''allowed''"
    using gate_decide_status [OF g, of "''allowed''"] by (simp add: action_statuses_def)
  with * show "rs_mode (s\<lparr>rs_spawned := rs_spawned s @ [a\<lparr>acStatus := ''allowed''\<rparr>]\<rparr>) = m \<and>
      spawned_since m base (s\<lparr>rs_spawned := rs_spawned s @ [a\<lparr>acStatus := ''allowed''\<rparr>]\<rparr>)"
    by (auto intro: spawned_since_append)
qed (auto intro: spawned_since_same)

lemma publish_spawns:
  assumes "publish_event n ops e s = Some (er, s')"
  shows "spawned_since (rs_mode s) (rs_spawned s) s'"
proof -
  have "rs_mode s = rs_mode s \<and> spawned_since (rs_mode s) (rs_spawned s) s"
    by (auto simp: spawned_since_def intro: exI [of _ "[]"])
  from spawning.publish_keeps [OF this assms] show ?thesis by simp
qed

text \<open>In strict mode the gate allows nothing, so nothing is executed without an approval.\<close>

lemma gate_strict_not_allowed: "fst (gate_decide mode_strict a) \<noteq> ''allowed''"
  by (auto simp: gate_defs split: option.splits)

lemma publish_strict:
  assumes "publish_event n ops e s = Some (er, s')" and "rs_mode s = mode_strict"
  shows "rs_spawned s' = rs_spawned s"
proof -
  from publish_spawns [OF assms(1)] obtain more where
    "rs_spawned s' = rs_spawned s @ more" "\<forall>a \<in> set more. fst (gate_decide mode_strict a) = ''allowed''"
    unfolding assms(2) by (auto simp: spawned_since_def)
  with gate_strict_not_allowed show ?thesis by (cases more) auto
qed

section \<open>When publishing returns\<close>

text \<open>A rule is silent when no status event of a request can trigger it.\<close>

definition silent :: "rule \<Rightarrow> bool" where
  "silent r \<longleftrightarrow>
     \<not> rlEnabled r \<or> tgEventType (rlTrigger r) \<notin> {''*'', ''action.requested''} \<or>
     tgSource (rlTrigger r) \<notin> {[], ''core.runtime''}"

lemma silent_no_match:
  "silent r \<Longrightarrow> evType e = ''action.requested'' \<Longrightarrow> evSource e = ''core.runtime'' \<Longrightarrow> \<not> rule_matches r e x"
  by (auto simp: silent_def rule_matches_def)

lemma handle_rules_no_match:
  "\<forall>r \<in> set rs. \<not> rule_matches r e x \<Longrightarrow> handle_rules ho p e x rs requested s = Some ((requested, None), s)"
  by (induction rs) auto

interpretation rules_fixed: runtime_keeps ops m "\<lambda>s. rs_mode s = m \<and> en_rules (rs_engine s) = rs" for ops m rs
  by unfold_locales auto

lemma status_event_returns:
  assumes "\<forall>r \<in> set (en_rules (rs_engine s)). silent r"
    and "evType e = ''action.requested''" "evSource e = ''core.runtime''"
  shows "publish_event (Suc n) ops e s \<noteq> None"
proof -
  have "handle_workflow_event (publish_event n ops) ops e t \<noteq> None"
    if "rs_mode t = rs_mode s \<and> en_rules (rs_engine t) = en_rules (rs_engine s)" for t
  proof -
    from that assms have "\<forall>r \<in> set (en_rules (rs_engine t)). \<not> rule_matches r e x" for x
      using silent_no_match by auto
    then show ?thesis
      by (auto simp: handle_workflow_event_def handle_event_def rt_engine_host_def handle_rules_no_match
          read_order_def split: option.splits)
  qed
  then show ?thesis by (rule rules_fixed.publish_returns) simp_all
qed

lemma publish_silent_returns:
  assumes "\<forall>r \<in> set (en_rules (rs_engine s)). silent r"
  shows "publish_event (Suc (Suc n)) ops e s \<noteq> None"
proof -
  let ?P = "\<lambda>t. rs_mode t = rs_mode s \<and> en_rules (rs_engine t) = en_rules (rs_engine s)"
  have status: "publish_event (Suc n) ops e' t \<noteq> None"
    if "?P t" "evType e' = ''action.requested''" "evSource e' = ''core.runtime''" for e' t
    using that assms by (intro status_event_returns) auto
  have request: "request_action (publish_event (Suc n) ops) ops a t \<noteq> None" if "?P t" for a t
    by (rule rules_fixed.request_returns [OF status that])
  have "handle_workflow_event (publish_event (Suc n) ops) ops e t \<noteq> None" if "?P t" for t
  proof -
    obtain p t1 where r: "read_order t = (p, t1)" by (meson surj_pair)
    have "?P t1" using rules_fixed.read_order_keeps [OF that r] .
    then have "handle_event (rt_engine_host (publish_event (Suc n) ops) ops) p e t1 \<noteq> None"
      by (intro engine_host.handle_event_returns [OF rules_fixed.rt_engine_host [OF rules_fixed.publish_keeps]])
         (use request in \<open>auto simp: rt_engine_host_def\<close>)
    with r show ?thesis by (simp add: handle_workflow_event_def)
  qed
  then show ?thesis by (rule rules_fixed.publish_returns) simp_all
qed

section \<open>When it does not\<close>

text \<open>A rule that the status event of every request triggers again.\<close>

definition echoing :: "rule \<Rightarrow> bool" where
  "echoing r \<longleftrightarrow>
     rlEnabled r \<and> tgEventType (rlTrigger r) \<in> {''*'', ''action.requested''} \<and>
     tgSource (rlTrigger r) \<in> {[], ''core.runtime''} \<and> tgConditions (rlTrigger r) = []"

lemma echoing_matches:
  "echoing r \<Longrightarrow> evType e = ''action.requested'' \<Longrightarrow> evSource e = ''core.runtime'' \<Longrightarrow> rule_matches r e x"
  by (auto simp: echoing_def rule_matches_def)

text \<open>
  The runtime as \<^verbatim>\<open>Run\<close> sets it up, as far as it matters here: the handlers are subscribed,
  the rules are valid, no clock is at the zero instant, ranges visit every entry.
\<close>

definition set_up :: "rule list \<Rightarrow> 'd runtime \<Rightarrow> bool" where
  "set_up rs s \<longleftrightarrow>
     rs_mode s \<in> {mode_dev, mode_local, mode_strict} \<and> en_rules (rs_engine s) = rs \<and>
     (\<forall>r \<in> set rs. rule_validate r = None) \<and> HWorkflow \<in> snd ` set (bs_wildcards (rs_bus s)) \<and>
     (\<forall>n. \<not> is_zero (en_now (rs_engine s) n)) \<and> (\<forall>n. \<not> is_zero (utc (wd_now (rs_world s) n))) \<and>
     (\<forall>n. valid_order (wd_order (rs_world s) n))"

interpretation set_up: runtime_keeps ops m "\<lambda>s. rs_mode s = m \<and> set_up rs s" for ops m rs
  by unfold_locales (auto simp: set_up_def tick_def bus_record_def)

lemma core_event_valid:
  assumes "core_event pre t x pl s = (e, s')" "c \<in> set pre" "c \<in> set t" "\<forall>r \<in> set space_runes. c \<notin> set r"
    and "\<forall>n. \<not> is_zero (utc (wd_now (rs_world s) n))"
  shows "event_validate e = None"
proof -
  have "\<not> blank (pre @ y)" "\<not> blank t" for y
    using assms(2-4) not_blank [of c] by auto
  moreover have "\<not> blank ''core.runtime''" by code_simp
  ultimately show ?thesis
    using assms by (auto simp: core_event_def stamp_def reads event_valid_iff tick_def)
qed

lemma request_diverges:
  assumes "rs_mode s = m \<and> set_up rs s" and "action_validate a = None"
    and never: "\<And>e t. rs_mode t = m \<and> set_up rs t \<Longrightarrow> evType e = ''action.requested'' \<Longrightarrow>
      evSource e = ''core.runtime'' \<Longrightarrow> evDepth e = 0 \<Longrightarrow> event_validate e = None \<Longrightarrow> publish e t = None"
  shows "request_action publish ops a s = None"
proof -
  let ?P = "\<lambda>t. rs_mode t = m \<and> set_up rs t"
  from assms(2) have "acID a \<noteq> []" "acSource a \<noteq> []" "acStatus a \<noteq> []" "\<not> is_zero (acCreatedAt a)"
    by (auto simp: action_valid_iff action_statuses_def)
  then have c: "complete_action ''workflow'' ''workflow-action'' a s = (a, s)"
    by (rule complete_action_id)
  obtain st err where g: "gate_decide m a = (st, err)" by (meson surj_pair)
  have "m \<in> {mode_dev, mode_local, mode_strict}" using assms(1) by (auto simp: set_up_def)
  with g assms(2) have st: "st \<noteq> []" using gate_undecided [of m a] by auto
  let ?a2 = "a\<lparr>acStatus := st\<rparr>" and ?s2 = "s\<lparr>rs_actions := as_save (a\<lparr>acStatus := st\<rparr>) (rs_actions s)\<rparr>"
  have P3: "?P (persist_action ops ?a2 ?s2)"
    by (rule set_up.persist_action_keeps, rule set_up.keeps_save) (use assms(1) g st in auto)
  obtain e s3 where e: "core_event ''action.requested'' ''action.requested'' (acSessionID ?a2)
      (status_payload ?a2) (persist_action ops ?a2 ?s2) = (e, s3)" by (meson surj_pair)
  have "event_validate e = None"
    by (rule core_event_valid [OF e, of "CHR ''a''"]) (use P3 in \<open>auto simp: set_up_def space_runes_def\<close>)
  moreover from e have "evType e = ''action.requested''" "evSource e = ''core.runtime''" "evDepth e = 0"
    by (auto simp: core_event_def Let_def split: prod.splits)
  moreover have "?P s3" by (rule set_up.core_event_keeps [OF P3 e])
  ultimately have "publish e s3 = None" using never by blast
  with e c g assms(1) st show ?thesis
    by (simp add: request_action_def publish_action_status_def publish_quietly_def)
qed

text \<open>
  The depth limit of the bus does not help: the status event of a request starts at depth 0,
  whatever the depth of the event the request is for.
\<close>

lemma publish_echoing:
  assumes "r \<in> set rs" "echoing r" and "rs_mode s = m \<and> set_up rs s"
    and "\<And>x. rule_matches r e x" "evDepth e \<le> max_depth" "event_validate e = None"
  shows "publish_event n ops e s = None"
  using assms(3-6)
proof (induction n arbitrary: e s)
  case 0
  then show ?case unfolding publish_event_def
    by (intro bus_system.publish_diverges [OF set_up.rt_bus_system [where m = m and rs = rs], where h = HWorkflow])
       (auto simp: rt_bus_host_def reads set_up_def tick_def)
next
  case (Suc n)
  let ?P = "\<lambda>t. rs_mode t = m \<and> set_up rs t"
  have req: "request_action (publish_event n ops) ops a t = None" if "?P t" "action_validate a = None" for a t
    using that
    by (rule request_diverges) (intro Suc.IH; simp add: echoing_matches [OF assms(2)] max_depth_def)
  have "handle_workflow_event (publish_event n ops) ops e t = None" if P: "?P t" for t
  proof -
    obtain p t1 where o: "read_order t = (p, t1)" by (meson surj_pair)
    note P1 = set_up.read_order_keeps [OF P o]
    let ?ho = "rt_engine_host (publish_event n ops) ops"
    have host: "engine_host ?ho ?P"
      by (rule set_up.rt_engine_host) (rule set_up.publish_keeps)
    have sink: "ho_sink ?ho = Some (request_action (publish_event n ops) ops)"
      and engine: "ho_engine ?ho = rs_engine" by (simp_all add: rt_engine_host_def)
    have clock: "\<not> is_zero (en_now (ho_engine ?ho t) k)" if "?P t" for t k
      using that by (simp add: engine set_up_def)
    have valid: "\<forall>q \<in> set (en_rules (ho_engine ?ho t1)). rule_validate q = None"
      and r: "r \<in> set (en_rules (ho_engine ?ho t1))"
      using P1 assms(1) by (simp_all add: engine set_up_def)
    have "handle_event ?ho p e t1 = None"
      by (rule engine_host.handle_event_diverges [OF host sink req clock valid r Suc.prems(2) P1 Suc.prems(4)])
    with o show ?thesis by (simp add: handle_workflow_event_def)
  qed
  with Suc.prems show ?case unfolding publish_event_def
    by (intro bus_system.publish_diverges [OF set_up.rt_bus_system [where m = m and rs = rs], where h = HWorkflow])
       (auto simp: rt_bus_host_def reads set_up_def tick_def publish_event_def)
qed

end
