(* ===== verification/Startup.thy ===== *)
theory Startup
  imports RuntimeLaws
begin

text \<open>
  The life of the runtime outside the handling of events, \<^verbatim>\<open>internal/runtime/runtime.go\<close>:
  \<^verbatim>\<open>New\<close>, \<^verbatim>\<open>openStorage\<close>, the subscriptions of \<^verbatim>\<open>Run\<close>, the reload of the workflows, a round
  of the health loop, and what the control API reads.
\<close>

section \<open>Creating the runtime\<close>

text \<open>The loops over \<^verbatim>\<open>Register\<close>: one drops every error, one stops at the first.\<close>

fun register_each_workflow :: "workflow list \<Rightarrow> wf_registry \<Rightarrow> wf_registry" where
  "register_each_workflow [] r = r"
| "register_each_workflow (w # ws) r =
     register_each_workflow ws (case wr_register w r of Inl _ \<Rightarrow> r | Inr r' \<Rightarrow> r')"

fun register_all_workflows :: "workflow list \<Rightarrow> wf_registry \<Rightarrow> wf_registry res" where
  "register_all_workflows [] r = Inr r"
| "register_all_workflows (w # ws) r =
     (case wr_register w r of Inl e \<Rightarrow> Inl e | Inr r' \<Rightarrow> register_all_workflows ws r')"

lemma register_each_workflow_eq: "register_each_workflow = wf_table.register_each"
proof (intro ext)
  show "register_each_workflow ws r = wf_table.register_each ws r" for ws r
    by (induction ws arbitrary: r) simp_all
qed

lemma register_all_workflows_eq: "register_all_workflows = wf_table.register_all"
proof (intro ext)
  show "register_all_workflows ws r = wf_table.register_all ws r" for ws r
    by (induction ws arbitrary: r) (auto split: sum.splits)
qed

definition runtime_options :: "config \<Rightarrow> process_options" where
  "runtime_options c =
     \<lparr>poCallTimeout = rcRequestTimeout (cfRuntime c), poHealthInterval = seconds 30,
      poRestartBackoff = seconds 1, poMaxRestarts = 3, poMaxHealthFailures = 3,
      poMaxPayloadSize = rcMaxPayloadSize (cfRuntime c)\<rparr>"

text \<open>
  \<^verbatim>\<open>New\<close> ignores the error of \<^verbatim>\<open>NewEngine\<close>, which returns a nil engine with it; setting the
  executor of a nil engine panics (\<open>None\<close>). \<open>clock\<close> and \<open>mock_clock\<close> are the readings of
  \<^verbatim>\<open>time.Now\<close> of the engine and of the executor.
\<close>

definition new_runtime ::
  "(64 word \<Rightarrow> gotime) \<Rightarrow> (64 word \<Rightarrow> gotime) \<Rightarrow> world \<Rightarrow> config \<Rightarrow> 'd runtime option" where
  "new_runtime clock mock_clock w c =
     (let reg = register_each_workflow (cfWorkflows c) new_wf_registry;
          rules = wr_enabled_rules (wd_order w (wd_tick w)) reg
      in (case new_engine clock rules of
            Inl _ \<Rightarrow> None
          | Inr en \<Rightarrow>
              Some (tick \<lparr>rs_config = c, rs_bus = new_bus (rcRequestTimeout (cfRuntime c)) 1000,
                      rs_actions = new_action_store, rs_registry = reg, rs_engine = en,
                      rs_executor = new_mock_executor mock_clock, rs_sessions = new_session_manager,
                      rs_supervisor = new_supervisor (runtime_options c), rs_router = new_router,
                      rs_storage = None, rs_spawned = [], rs_world = w\<rparr>)))"

section \<open>Opening the storage\<close>

text \<open>The loop that registers the workflows of the configuration and saves each.\<close>

fun seed_workflows :: "'d ops \<Rightarrow> workflow list \<Rightarrow> wf_registry \<Rightarrow> 'd \<Rightarrow> wf_registry \<times> 'd" where
  "seed_workflows ops [] r d = (r, d)"
| "seed_workflows ops (w # ws) r d =
     seed_workflows ops ws (case wr_register w r of Inl _ \<Rightarrow> r | Inr r' \<Rightarrow> r')
       (snd (op_save_workflow ops w d))"

fun create_each_session :: "session list \<Rightarrow> session_manager \<Rightarrow> session_manager" where
  "create_each_session [] m = m"
| "create_each_session (x # xs) m =
     create_each_session xs (case sm_create x m of Inl _ \<Rightarrow> m | Inr m' \<Rightarrow> m')"

text \<open>Setting the rules of the registry; the error of \<^verbatim>\<open>SetRules\<close> is the result.\<close>

definition install_rules :: "'d runtime \<Rightarrow> error option \<times> 'd runtime" where
  "install_rules s =
     (let (p, s1) = read_order s
      in (case set_rules (wr_enabled_rules p (rs_registry s1)) (rs_engine s1) of
            Inl e \<Rightarrow> (Some e, s1)
          | Inr en \<Rightarrow> (None, s1\<lparr>rs_engine := en\<rparr>)))"

text \<open>\<open>open_db\<close> is \<^verbatim>\<open>storagesqlite.Open\<close>.\<close>

definition open_storage ::
  "(string \<Rightarrow> 'd res) \<Rightarrow> 'd ops \<Rightarrow> 'd runtime \<Rightarrow> error option \<times> 'd runtime" where
  "open_storage open_db ops s =
     (let path = cfSQLitePath (rs_config s)
      in if path = [] then (None, s)
         else case open_db path of
           Inl e \<Rightarrow> (Some e, s)
         | Inr d \<Rightarrow>
             (let reg = (case op_list_workflows ops d of
                           Inl _ \<Rightarrow> rs_registry s
                         | Inr ws \<Rightarrow> register_each_workflow ws (rs_registry s));
                  (reg', d') = seed_workflows ops (cfWorkflows (rs_config s)) reg d;
                  s1 = s\<lparr>rs_registry := reg', rs_storage := Some d'\<rparr>;
                  s2 = (case op_list_actions ops 1000 d' of
                          Inl _ \<Rightarrow> s1
                        | Inr as \<Rightarrow> s1\<lparr>rs_actions := fold as_save as (rs_actions s1)\<rparr>);
                  s3 = (case op_list_sessions ops 1000 d' of
                          Inl _ \<Rightarrow> s2
                        | Inr xs \<Rightarrow> s2\<lparr>rs_sessions := create_each_session xs (rs_sessions s2)\<rparr>);
                  s4 = (case op_list_events ops (wrap64 (rcMaxEventsPerSecond (cfRuntime (rs_config s)) * 10)) d' of
                          Inl _ \<Rightarrow> s3
                        | Inr es \<Rightarrow> s3\<lparr>rs_bus := bus_restore_history (rev es) (rs_bus s3)\<rparr>)
              in (None, snd (install_rules s4))))"

text \<open>The subscriptions of \<^verbatim>\<open>Run\<close>; a handler that is not nil never fails to subscribe.\<close>

fun subscribe_all :: "handler list \<Rightarrow> 'd runtime \<Rightarrow> error option \<times> 'd runtime" where
  "subscribe_all [] s = (None, s)"
| "subscribe_all (h # hs) s =
     (case bus_subscribe ''*'' (Some h) (rs_bus s) of
        (Inl e, _) \<Rightarrow> (Some e, s)
      | (Inr _, b) \<Rightarrow> subscribe_all hs (s\<lparr>rs_bus := b\<rparr>))"

text \<open>\<^verbatim>\<open>Run\<close> up to the start of the control server.\<close>

definition run_setup :: "(string \<Rightarrow> 'd res) \<Rightarrow> 'd ops \<Rightarrow> 'd runtime \<Rightarrow> error option \<times> 'd runtime" where
  "run_setup open_db ops s =
     (case open_storage open_db ops s of
        (Some e, s1) \<Rightarrow> (Some e, s1)
      | (None, s1) \<Rightarrow> subscribe_all [HPersist, HWorkflow, HSession] s1)"

section \<open>Reloading the workflows\<close>

definition reload_workflows ::
  "'d ops \<Rightarrow> workflow list \<Rightarrow> 'd runtime \<Rightarrow> error option \<times> 'd runtime" where
  "reload_workflows ops ws s =
     (case register_all_workflows ws new_wf_registry of
        Inl e \<Rightarrow> (Some e, s)
      | Inr reg \<Rightarrow>
          (case rs_storage s of
             None \<Rightarrow> install_rules (s\<lparr>rs_registry := reg\<rparr>)
           | Some d \<Rightarrow>
               (case op_replace_workflows ops ws d of
                  (Some e, d') \<Rightarrow> (Some e, s\<lparr>rs_storage := Some d'\<rparr>)
                | (None, d') \<Rightarrow> install_rules (s\<lparr>rs_registry := reg, rs_storage := Some d'\<rparr>))))"

fun set_enabled_in :: "string \<Rightarrow> bool \<Rightarrow> workflow list \<Rightarrow> workflow list \<times> bool" where
  "set_enabled_in i b [] = ([], False)"
| "set_enabled_in i b (w # ws) =
     (if wfID w = i then (w\<lparr>wfEnabled := b\<rparr> # ws, True)
      else (let (ws', changed) = set_enabled_in i b ws in (w # ws', changed)))"

definition toggle_workflow ::
  "bool \<Rightarrow> 'd ops \<Rightarrow> string \<Rightarrow> 'd runtime \<Rightarrow> error option \<times> 'd runtime" where
  "toggle_workflow b ops i s =
     (let (p, s1) = read_order s; (ws, changed) = set_enabled_in i b (wr_list p (rs_registry s1))
      in if \<not> changed then (Some (New (''workflow not found: '' @ i)), s1)
         else reload_workflows ops ws s1)"

definition enable_workflow :: "'d ops \<Rightarrow> string \<Rightarrow> 'd runtime \<Rightarrow> error option \<times> 'd runtime" where
  "enable_workflow ops i s = toggle_workflow True ops i s"

definition disable_workflow :: "'d ops \<Rightarrow> string \<Rightarrow> 'd runtime \<Rightarrow> error option \<times> 'd runtime" where
  "disable_workflow ops i s = toggle_workflow False ops i s"

section \<open>Health\<close>

text \<open>One plugin in a round of \<^verbatim>\<open>healthLoop\<close>; \<open>fails\<close> counts its failures in a row.\<close>

definition health_one ::
  "'d publisher \<Rightarrow> string \<Rightarrow> int gomap \<Rightarrow> 'd runtime \<Rightarrow> (int gomap \<times> 'd runtime) option" where
  "health_one publish i fails s =
     (let (env, s1) = read_call s; (res, sv) = sv_health_check env i (rs_supervisor s1);
          s2 = s1\<lparr>rs_supervisor := sv\<rparr>
      in (case res of
            None \<Rightarrow> Some (AList.update i 0 fails, s2)
          | Some er \<Rightarrow>
              (let n = (case map_of fails i of None \<Rightarrow> 0 | Some k \<Rightarrow> k) + 1
               in if n \<ge> 3
                  then (let (e, s3) = core_event (i @ ''-health'') ''plugin.error'' []
                              [(''id'', VStr i), (''failures'', VInt n), (''error'', VStr (error_text er))] s2
                        in map_option (Pair (AList.update i 0 fails)) (publish_quietly publish e s3))
                  else Some (AList.update i n fails, s2))))"

fun health_each ::
  "'d publisher \<Rightarrow> string list \<Rightarrow> int gomap \<Rightarrow> 'd runtime \<Rightarrow> (int gomap \<times> 'd runtime) option" where
  "health_each publish [] fails s = Some (fails, s)"
| "health_each publish (i # is) fails s =
     (case health_one publish i fails s of
        None \<Rightarrow> None
      | Some (fails', s') \<Rightarrow> health_each publish is fails' s')"

definition health_round ::
  "'d publisher \<Rightarrow> int gomap \<Rightarrow> 'd runtime \<Rightarrow> (int gomap \<times> 'd runtime) option" where
  "health_round publish fails s =
     (let (p, s1) = read_order s in health_each publish (sv_list p (rs_supervisor s1)) fails s1)"

section \<open>What the control API reads\<close>

definition runtime_workflows :: "iter_order \<Rightarrow> 'd runtime \<Rightarrow> workflow list" where
  "runtime_workflows p s = wr_list p (rs_registry s)"

definition runtime_actions :: "iter_order \<Rightarrow> 'd runtime \<Rightarrow> action list" where
  "runtime_actions p s = as_list p (rs_actions s)"

definition pending_actions :: "iter_order \<Rightarrow> 'd runtime \<Rightarrow> action list" where
  "pending_actions p s = as_pending p (rs_actions s)"

definition recent_events :: "'d runtime \<Rightarrow> event list" where
  "recent_events s = bus_history (rs_bus s)"

definition plugin_statuses :: "iter_order \<Rightarrow> gotime \<Rightarrow> 'd runtime \<Rightarrow> process_status list" where
  "plugin_statuses p now s = sv_list_status p now (rs_supervisor s)"

definition runtime_health_check :: "string \<Rightarrow> 'd runtime \<Rightarrow> error option \<times> 'd runtime" where
  "runtime_health_check i s =
     (let (env, s1) = read_call s; (res, sv) = sv_health_check env i (rs_supervisor s1)
      in (res, s1\<lparr>rs_supervisor := sv\<rparr>))"

section \<open>A new runtime\<close>

lemma new_runtime_shape:
  assumes "valid_order (wd_order w (wd_tick w))"
  shows "new_runtime clock mock_clock w c =
     (let reg = register_each_workflow (cfWorkflows c) new_wf_registry
      in Some (tick \<lparr>rs_config = c, rs_bus = new_bus (rcRequestTimeout (cfRuntime c)) 1000,
              rs_actions = new_action_store, rs_registry = reg,
              rs_engine = \<lparr>en_rules = wr_enabled_rules (wd_order w (wd_tick w)) reg, en_now = clock, en_seq = 0\<rparr>,
              rs_executor = new_mock_executor mock_clock, rs_sessions = new_session_manager,
              rs_supervisor = new_supervisor (runtime_options c), rs_router = new_router,
              rs_storage = None, rs_spawned = [], rs_world = w\<rparr>))"
proof -
  let ?reg = "register_each_workflow (cfWorkflows c) new_wf_registry"
  have "wr_wf ?reg" by (simp add: register_each_workflow_eq wr_register_each_wf)
  with wr_enabled_rules_valid [OF assms, of ?reg]
  have "new_engine clock (wr_enabled_rules (wd_order w (wd_tick w)) ?reg) =
      Inr \<lparr>en_rules = wr_enabled_rules (wd_order w (wd_tick w)) ?reg, en_now = clock, en_seq = 0\<rparr>"
    by (simp add: new_engine_def set_rules_valid)
  then show ?thesis by (simp add: new_runtime_def Let_def)
qed

lemma bounded_history_new [simp]: "bounded_history (new_bus t l)"
  by (simp add: bounded_history_def new_bus_def)

lemma new_runtime_inv:
  assumes "new_runtime clock mock_clock w c = Some s" and "valid_order (wd_order w (wd_tick w))"
  shows "rt_inv s"
proof -
  let ?reg = "register_each_workflow (cfWorkflows c) new_wf_registry"
  have reg: "wr_wf ?reg" by (simp add: register_each_workflow_eq wr_register_each_wf)
  from assms(1) have "s = tick \<lparr>rs_config = c, rs_bus = new_bus (rcRequestTimeout (cfRuntime c)) 1000,
              rs_actions = new_action_store, rs_registry = ?reg,
              rs_engine = \<lparr>en_rules = wr_enabled_rules (wd_order w (wd_tick w)) ?reg, en_now = clock, en_seq = 0\<rparr>,
              rs_executor = new_mock_executor mock_clock, rs_sessions = new_session_manager,
              rs_supervisor = new_supervisor (runtime_options c), rs_router = new_router,
              rs_storage = None, rs_spawned = [], rs_world = w\<rparr>"
    unfolding new_runtime_shape [OF assms(2)] by (simp add: Let_def)
  with reg wr_enabled_rules_valid [OF assms(2) reg] show ?thesis
    by (simp add: rt_inv_def)
qed

text \<open>A workflow of the configuration is registered unless its identifier was taken before it.\<close>

lemma new_registry_get:
  "wr_get (register_each_workflow ws new_wf_registry) i =
     find (\<lambda>w. wfID w = i \<and> workflow_validate w = None) ws"
  by (simp add: register_each_workflow_eq wf_table.register_each_look)
     (simp add: wr_get_def new_wf_registry_def)

section \<open>Opening the storage keeps the invariant\<close>

lemma seed_workflows_registry:
  "fst (seed_workflows ops ws r d) = register_each_workflow ws r"
  by (induction ws arbitrary: r d) auto

lemma as_wf_fold: "as_wf st \<Longrightarrow> as_wf (fold as_save as st)"
  by (induction as arbitrary: st) auto

lemma create_each_session_eq: "create_each_session = session_table.register_each"
proof (intro ext)
  show "create_each_session xs m = session_table.register_each xs m" for xs m
    by (induction xs arbitrary: m) simp_all
qed

lemma create_each_session_wf: "sm_wf m \<Longrightarrow> sm_wf (create_each_session xs m)"
  by (induction xs arbitrary: m) (auto split: sum.splits dest: sm_create_wf)

lemma bus_restore_wf [simp]: "bus_wf (bus_restore_history es b) = bus_wf b"
  by (simp add: bus_wf_def bus_restore_history_def)

lemma bounded_history_restore [simp]: "bounded_history b \<Longrightarrow> bounded_history (bus_restore_history es b)"
  by (cases "bs_limit b \<le> 0")
     (simp_all add: bounded_history_def bus_restore_history_def restore_loop_eq keep_last_fits keep_last_length)

lemma install_rules_inv: "rt_inv s \<Longrightarrow> rt_inv (snd (install_rules s))"
proof -
  assume inv: "rt_inv s"
  have valid: "set_rules rs en = Inr en' \<Longrightarrow> \<forall>r \<in> set (en_rules en'). rule_validate r = None" for rs en en'
    by (auto simp: set_rules_eq first_error_None split: option.splits)
  have tick: "rt_inv (tick s)" using inv by (simp add: rt_inv_def)
  then show ?thesis
    by (auto simp: install_rules_def read_order_def split: sum.splits dest: valid)
       (auto simp: rt_inv_def dest: valid)
qed

lemma open_storage_inv:
  assumes "open_storage open_db ops s = (er, s')" and "rt_inv s"
  shows "rt_inv s'"
proof (cases "cfSQLitePath (rs_config s) = []")
  case True
  with assms show ?thesis by (simp add: open_storage_def)
next
  case False
  show ?thesis
  proof (cases "open_db (cfSQLitePath (rs_config s))")
    case (Inl e)
    with False assms show ?thesis by (simp add: open_storage_def)
  next
    case (Inr d)
    let ?reg = "case op_list_workflows ops d of Inl _ \<Rightarrow> rs_registry s
        | Inr ws \<Rightarrow> register_each_workflow ws (rs_registry s)"
    obtain reg' d' where seed: "seed_workflows ops (cfWorkflows (rs_config s)) ?reg d = (reg', d')"
      by (meson surj_pair)
    have "wr_wf (rs_registry s)" using assms(2) by (simp add: rt_inv_def)
    then have "wr_wf ?reg" by (simp add: register_each_workflow_eq wr_register_each_wf split: sum.split)
    then have "wr_wf reg'"
      using seed_workflows_registry [of ops "cfWorkflows (rs_config s)" ?reg d] seed
      by (simp add: register_each_workflow_eq wr_register_each_wf)
    with assms(2) have step1: "rt_inv (s\<lparr>rs_registry := reg', rs_storage := Some d'\<rparr>)" (is "rt_inv ?s1")
      by (simp add: rt_inv_def)
    let ?s2 = "case op_list_actions ops 1000 d' of Inl _ \<Rightarrow> ?s1
        | Inr as \<Rightarrow> ?s1\<lparr>rs_actions := fold as_save as (rs_actions ?s1)\<rparr>"
    have step2: "rt_inv ?s2" using step1 by (simp add: rt_inv_def as_wf_fold split: sum.split)
    let ?s3 = "case op_list_sessions ops 1000 d' of Inl _ \<Rightarrow> ?s2
        | Inr xs \<Rightarrow> ?s2\<lparr>rs_sessions := create_each_session xs (rs_sessions ?s2)\<rparr>"
    have step3: "rt_inv ?s3" using step2
      by (cases "op_list_sessions ops 1000 d'") (simp_all add: rt_inv_def create_each_session_wf)
    let ?limit = "wrap64 (rcMaxEventsPerSecond (cfRuntime (rs_config s)) * 10)"
    let ?s4 = "case op_list_events ops ?limit d' of Inl _ \<Rightarrow> ?s3
        | Inr es \<Rightarrow> ?s3\<lparr>rs_bus := bus_restore_history (rev es) (rs_bus ?s3)\<rparr>"
    have "rt_inv ?s4" using step3
      by (cases "op_list_events ops ?limit d'") (simp_all add: rt_inv_def)
    then have "rt_inv (snd (install_rules ?s4))" by (rule install_rules_inv)
    with assms(1) False Inr seed show ?thesis by (simp add: open_storage_def Let_def)
  qed
qed

section \<open>The runtime after Run has set it up\<close>

definition fresh_bus :: "'h bus \<Rightarrow> bool" where
  "fresh_bus b \<longleftrightarrow> bs_wildcards b = [] \<and> bs_subscribers b = [] \<and> bs_next b = 0"

lemma install_rules_frame:
  "rs_bus (snd (install_rules s)) = rs_bus s" "rs_config (snd (install_rules s)) = rs_config s"
  "rs_spawned (snd (install_rules s)) = rs_spawned s" "rs_storage (snd (install_rules s)) = rs_storage s"
  "rs_registry (snd (install_rules s)) = rs_registry s" "rs_actions (snd (install_rules s)) = rs_actions s"
  "rs_sessions (snd (install_rules s)) = rs_sessions s"
  by (auto simp: install_rules_def read_order_def split: sum.split)

lemma open_storage_frame:
  assumes "open_storage open_db ops s = (er, s')"
  shows "bs_wildcards (rs_bus s') = bs_wildcards (rs_bus s)" "bs_subscribers (rs_bus s') = bs_subscribers (rs_bus s)"
    "bs_next (rs_bus s') = bs_next (rs_bus s)" "rs_config s' = rs_config s" "rs_spawned s' = rs_spawned s"
  using assms
  by (auto simp: open_storage_def Let_def install_rules_frame bus_restore_history_def
      split: if_splits sum.splits prod.splits)

lemma subscribe_three:
  assumes "fresh_bus (rs_bus s)"
  shows "subscribe_all [HPersist, HWorkflow, HSession] s =
     (None, s\<lparr>rs_bus := (rs_bus s)\<lparr>bs_wildcards := [(1, HPersist), (2, HWorkflow), (3, HSession)], bs_next := 3\<rparr>\<rparr>)"
  using assms by (simp add: bus_subscribe_def fresh_bus_def Let_def)

lemma subscribe_three_wf:
  "fresh_bus b \<Longrightarrow> bus_wf (b\<lparr>bs_wildcards := [(1, h), (2, h'), (3, h'')], bs_next := 3\<rparr>)"
  by (simp add: bus_wf_def fresh_bus_def wf_map_def)

lemma open_storage_ok: "open_db (cfSQLitePath (rs_config s)) = Inr d \<Longrightarrow> fst (open_storage open_db ops s) = None"
  by (simp add: open_storage_def Let_def case_prod_beta)

lemma run_setup_ok:
  assumes "fst (open_storage open_db ops s) = None" "fresh_bus (rs_bus s)"
  shows "fst (run_setup open_db ops s) = None"
proof -
  obtain s1 where s1: "open_storage open_db ops s = (None, s1)" using assms(1) by (metis prod.collapse)
  have "fresh_bus (rs_bus s1)" using open_storage_frame [OF s1] assms(2) by (simp add: fresh_bus_def)
  from subscribe_three [OF this] s1 show ?thesis by (simp add: run_setup_def del: subscribe_all.simps)
qed

text \<open>A runtime as \<^verbatim>\<open>New\<close> and \<^verbatim>\<open>Run\<close> leave it: every event goes to the three handlers.\<close>

lemma run_setup_started:
  assumes "run_setup open_db ops s = (None, s')" and "rt_inv s" and "fresh_bus (rs_bus s)"
  shows "rt_inv s'" and "bs_wildcards (rs_bus s') = [(1, HPersist), (2, HWorkflow), (3, HSession)]"
    and "rs_config s' = rs_config s" and "rs_spawned s' = rs_spawned s" and "bs_subscribers (rs_bus s') = []"
proof -
  from assms(1) obtain s1 where s1: "open_storage open_db ops s = (None, s1)"
    and s': "subscribe_all [HPersist, HWorkflow, HSession] s1 = (None, s')"
    by (auto simp: run_setup_def simp del: subscribe_all.simps split: prod.splits option.splits)
  note frame = open_storage_frame [OF s1]
  have fresh: "fresh_bus (rs_bus s1)" using assms(3) frame by (simp add: fresh_bus_def)
  note s'_eq = s' [unfolded subscribe_three [OF fresh]]
  have "rt_inv s1" using open_storage_inv [OF s1 assms(2)] .
  then show "rt_inv s'"
    using s'_eq subscribe_three_wf [OF fresh, of HPersist HWorkflow HSession]
    by (auto simp: rt_inv_def bounded_history_def)
  show "bs_wildcards (rs_bus s') = [(1, HPersist), (2, HWorkflow), (3, HSession)]"
    "rs_config s' = rs_config s" "rs_spawned s' = rs_spawned s" "bs_subscribers (rs_bus s') = []"
    using s'_eq frame fresh by (auto simp: fresh_bus_def)
qed

lemma new_runtime_fresh: "new_runtime clock mock_clock w c = Some s \<Longrightarrow>
    fresh_bus (rs_bus s) \<and> rs_config s = c \<and> rs_spawned s = []"
  by (auto simp: new_runtime_def Let_def fresh_bus_def new_bus_def split: sum.splits)

section \<open>Reloading is all or nothing\<close>

lemma reload_ok:
  assumes "\<forall>w \<in> set ws. workflow_validate w = None" and "distinct (map wfID ws)"
    and "\<And>d. rs_storage s = Some d \<Longrightarrow> fst (op_replace_workflows ops ws d) = None"
    and "valid_order (wd_order (rs_world s) (wd_tick (rs_world s)))"
    and "reload_workflows ops ws s = (er, s')"
  shows "er = None"
    and "wr_get (rs_registry s') i = find (\<lambda>w. wfID w = i) ws"
    and "r \<in> set (en_rules (rs_engine s')) \<longleftrightarrow>
      (\<exists>w \<in> set ws. wfEnabled w \<and> r \<in> set (wfRules w) \<and> rlEnabled r)"
proof -
  have empty: "wr_get new_wf_registry k = None" for k by (simp add: wr_get_def new_wf_registry_def)
  then have "is_ok (wf_table.register_all ws new_wf_registry)"
    using assms(1,2) by (simp add: wf_table.register_all_ok)
  then obtain reg where reg: "wf_table.register_all ws new_wf_registry = Inr reg"
    by (cases "wf_table.register_all ws new_wf_registry") auto
  have wf: "wr_wf reg" using wr_register_all_wf [OF reg] by simp
  have get: "wr_get reg k = find (\<lambda>w. wfID w = k) ws" for k
    using wf_table.register_all_look [OF reg, of k] empty by (simp split: option.splits)
  let ?p = "wd_order (rs_world s) (wd_tick (rs_world s))"
  have install: "fst (install_rules t) = None \<and> rs_registry (snd (install_rules t)) = reg \<and>
      en_rules (rs_engine (snd (install_rules t))) = wr_enabled_rules ?p reg"
    if "rs_registry t = reg" "rs_world t = rs_world s" for t
    using that wr_enabled_rules_valid [OF assms(4) wf]
    by (simp add: install_rules_def read_order_def set_rules_valid)
  have main: "er = None \<and> rs_registry s' = reg \<and> en_rules (rs_engine s') = wr_enabled_rules ?p reg"
  proof (cases "rs_storage s")
    case None
    with assms(5) reg install [of "s\<lparr>rs_registry := reg\<rparr>"] show ?thesis
      by (simp add: reload_workflows_def register_all_workflows_eq)
  next
    case (Some d)
    obtain d' where "op_replace_workflows ops ws d = (None, d')"
      using assms(3) [OF Some] by (metis prod.collapse)
    with Some assms(5) reg install [of "s\<lparr>rs_registry := reg, rs_storage := Some d'\<rparr>"] show ?thesis
      by (simp add: reload_workflows_def register_all_workflows_eq)
  qed
  then show "er = None" and "wr_get (rs_registry s') i = find (\<lambda>w. wfID w = i) ws"
    using get by simp_all
  have "(\<exists>i w. find (\<lambda>w. wfID w = i) ws = Some w \<and> Q w) \<longleftrightarrow> (\<exists>w \<in> set ws. Q w)" for Q
    using find_unique [OF assms(2)] by (metis find_Some_iff nth_mem)
  with main get show "r \<in> set (en_rules (rs_engine s')) \<longleftrightarrow>
      (\<exists>w \<in> set ws. wfEnabled w \<and> r \<in> set (wfRules w) \<and> rlEnabled r)"
    by (simp add: wr_enabled_rules_set [OF assms(4) wf])
qed

lemma reload_failed:
  assumes "reload_workflows ops ws s = (Some e, s')"
    and "valid_order (wd_order (rs_world s) (wd_tick (rs_world s)))"
  shows "rs_registry s' = rs_registry s \<and> rs_engine s' = rs_engine s"
proof (cases "register_all_workflows ws new_wf_registry")
  case (Inl e')
  with assms show ?thesis by (simp add: reload_workflows_def)
next
  case (Inr reg)
  then have "wr_wf reg" using wr_register_all_wf by (simp add: register_all_workflows_eq)
  have install: "install_rules t \<noteq> (Some e, s')" if "rs_registry t = reg" "rs_world t = rs_world s" for t
    using that wr_enabled_rules_valid [OF assms(2) \<open>wr_wf reg\<close>]
    by (simp add: install_rules_def read_order_def set_rules_valid)
  from assms(1) Inr show ?thesis
    using install [of "s\<lparr>rs_registry := reg\<rparr>"] install [of "s\<lparr>rs_registry := reg, rs_storage := Some d\<rparr>" for d]
    by (auto simp: reload_workflows_def split: option.splits prod.splits)
qed

lemma reload_inv: "reload_workflows ops ws s = (er, s') \<Longrightarrow> rt_inv s \<Longrightarrow> rt_inv s'"
proof (cases "register_all_workflows ws new_wf_registry")
  case (Inr reg)
  then have reg: "wr_wf reg" using wr_register_all_wf by (simp add: register_all_workflows_eq)
  assume "reload_workflows ops ws s = (er, s')" and inv: "rt_inv s"
  moreover have "rt_inv (s\<lparr>rs_registry := reg\<rparr>)" "rt_inv (s\<lparr>rs_registry := reg, rs_storage := x\<rparr>)"
    "rt_inv (s\<lparr>rs_storage := x\<rparr>)" for x
    using inv reg by (simp_all add: rt_inv_def)
  moreover have "install_rules t = (er, s') \<Longrightarrow> rt_inv t \<Longrightarrow> rt_inv s'" for t
    using install_rules_inv [of t] by simp
  ultimately show ?thesis
    using Inr by (auto simp: reload_workflows_def split: option.splits prod.splits)
qed (simp add: reload_workflows_def)

section \<open>Enabling and disabling\<close>

lemma set_enabled_in_changed: "snd (set_enabled_in i b ws) \<longleftrightarrow> i \<in> wfID ` set ws"
  by (induction ws) (auto simp: case_prod_beta)

lemma set_enabled_in_map:
  "distinct (map wfID ws) \<Longrightarrow>
     fst (set_enabled_in i b ws) = map (\<lambda>w. if wfID w = i then w\<lparr>wfEnabled := b\<rparr> else w) ws"
proof (induction ws)
  case Nil
  then show ?case by simp
next
  case (Cons w ws)
  show ?case
  proof (cases "wfID w = i")
    case True
    with Cons.prems have "\<forall>v \<in> set ws. wfID v \<noteq> i" by (auto simp: image_iff)
    then have "map (\<lambda>w. if wfID w = i then w\<lparr>wfEnabled := b\<rparr> else w) ws = ws"
      by (induction ws) auto
    with True show ?thesis by simp
  next
    case False
    with Cons show ?thesis by (simp add: case_prod_beta)
  qed
qed

lemma find_wr_list:
  assumes "valid_order p" "wr_wf reg"
  shows "find (\<lambda>w. wfID w = i) (wr_list p reg) = wr_get reg i"
proof (cases "wr_get reg i")
  case None
  then have "\<forall>w \<in> set (wr_list p reg). wfID w \<noteq> i"
    using assms by (auto simp: wr_list_set)
  with None show ?thesis by (simp add: find_None_iff)
next
  case (Some w)
  then have "wfID w = i" and "w \<in> set (wr_list p reg)"
    using assms by (auto simp: wr_list_set wr_wf_def)
  with find_unique [OF wr_list_distinct [OF assms]] have "find (\<lambda>w. wfID w = i) (wr_list p reg) = Some w"
    by auto
  with Some show ?thesis by simp
qed

text \<open>Toggling an identifier that is not registered is an error and changes nothing.\<close>

lemma toggle_unknown:
  assumes "wr_wf (rs_registry s)" "valid_order (wd_order (rs_world s) (wd_tick (rs_world s)))"
    and "wr_get (rs_registry s) i = None"
  shows "toggle_workflow b ops i s = (Some (New (''workflow not found: '' @ i)), tick s)"
proof -
  have "i \<notin> wfID ` set (wr_list (wd_order (rs_world s) (wd_tick (rs_world s))) (rs_registry s))"
    using assms by (auto simp: wr_list_set)
  then have "\<not> snd (set_enabled_in i b (wr_list (wd_order (rs_world s) (wd_tick (rs_world s))) (rs_registry s)))"
    by (simp only: set_enabled_in_changed) simp
  then show ?thesis by (simp add: toggle_workflow_def read_order_def case_prod_beta Let_def)
qed

text \<open>Toggling a registered identifier changes that workflow's flag and no other workflow.\<close>

lemma toggle_known:
  assumes wf: "wr_wf (rs_registry s)" and orders: "\<And>n. valid_order (wd_order (rs_world s) n)"
    and w: "wr_get (rs_registry s) i = Some w"
    and store: "\<And>d ws. rs_storage s = Some d \<Longrightarrow> fst (op_replace_workflows ops ws d) = None"
    and toggle: "toggle_workflow b ops i s = (er, s')"
  shows "er = None"
    and "wr_get (rs_registry s') j =
      (if j = i then Some (w\<lparr>wfEnabled := b\<rparr>) else wr_get (rs_registry s) j)"
proof -
  let ?p = "wd_order (rs_world s) (wd_tick (rs_world s))" and ?f = "\<lambda>w. if wfID w = i then w\<lparr>wfEnabled := b\<rparr> else w"
  let ?ws = "map ?f (wr_list ?p (rs_registry s))"
  note distinct = wr_list_distinct [OF orders [of "wd_tick (rs_world s)"] wf]
  have "wfID w = i" "w \<in> set (wr_list ?p (rs_registry s))"
    using wf w by (auto simp: wr_list_set [OF orders wf] wr_wf_def)
  then have "snd (set_enabled_in i b (wr_list ?p (rs_registry s)))"
    by (simp only: set_enabled_in_changed) blast
  with toggle have reload: "reload_workflows ops ?ws (tick s) = (er, s')"
    by (simp add: toggle_workflow_def read_order_def case_prod_beta Let_def set_enabled_in_map [OF distinct])
  have "\<forall>w \<in> set (wr_list ?p (rs_registry s)). workflow_validate w = None"
    using wf by (auto simp: wr_list_set [OF orders wf] wr_wf_def)
  then have valid: "\<forall>w \<in> set ?ws. workflow_validate w = None" by (auto simp: workflow_valid_iff)
  have "map wfID ?ws = map wfID (wr_list ?p (rs_registry s))" by simp
  with distinct have dist: "distinct (map wfID ?ws)" by metis
  have order: "valid_order (wd_order (rs_world (tick s)) (wd_tick (rs_world (tick s))))"
    using orders by (simp add: tick_def)
  have st: "rs_storage (tick s) = Some d \<Longrightarrow> fst (op_replace_workflows ops ?ws d) = None" for d
    using store by simp
  note done' = reload_ok [OF valid dist st order reload]
  show "er = None" by (rule done')
  have "find (\<lambda>w. wfID w = j) ?ws = map_option ?f (find (\<lambda>w. wfID w = j) (wr_list ?p (rs_registry s)))"
    by (rule find_map_key) simp
  with done'(2) [of j] show "wr_get (rs_registry s') j =
      (if j = i then Some (w\<lparr>wfEnabled := b\<rparr>) else wr_get (rs_registry s) j)"
    using wf w by (cases "wr_get (rs_registry s) j") (auto simp: find_wr_list [OF orders wf] wr_wf_def)
qed

section \<open>The failure counters of the health loop\<close>

definition below_limit :: "int gomap \<Rightarrow> bool" where
  "below_limit fails \<longleftrightarrow> (\<forall>i n. map_of fails i = Some n \<longrightarrow> 0 \<le> n \<and> n < 3)"

lemma health_one_counts:
  assumes "health_one publish i fails s = Some (fails', s')" and "below_limit fails"
  shows "below_limit fails'"
proof -
  have "0 \<le> (case map_of fails i of None \<Rightarrow> 0 | Some k \<Rightarrow> k)"
    using assms(2) by (auto simp: below_limit_def split: option.splits)
  with assms show ?thesis
    by (auto simp: health_one_def Let_def below_limit_def split: prod.splits option.splits if_splits)
qed

lemma health_each_counts:
  "health_each publish is fails s = Some (fails', s') \<Longrightarrow> below_limit fails \<Longrightarrow> below_limit fails'"
  by (induction "is" arbitrary: fails s) (auto split: option.splits dest: health_one_counts)

end
