(* ===== verification/FilePath.thy ===== *)
theory FilePath
  imports GoValues
begin

text \<open>
  What the program uses of Go's \<^verbatim>\<open>path/filepath\<close> on Unix: \<^verbatim>\<open>Clean\<close>, \<^verbatim>\<open>Join\<close>, \<^verbatim>\<open>Dir\<close>,
  \<^verbatim>\<open>IsAbs\<close> and \<^verbatim>\<open>Abs\<close>.
\<close>

definition is_abs :: "string \<Rightarrow> bool" where
  "is_abs s \<longleftrightarrow> has_prefix s ''/''"

text \<open>
  \<^verbatim>\<open>Clean\<close> drops empty and single-dot elements; a double dot takes away the element before it,
  is dropped at a root, and is kept at the start of a relative path.
\<close>

definition push_element :: "bool \<Rightarrow> string list \<Rightarrow> string \<Rightarrow> string list" where
  "push_element rooted st c =
     (if c = [] \<or> c = ''.'' then st
      else if c = ''..'' then
        (if st \<noteq> [] \<and> last st \<noteq> ''..'' then butlast st else if rooted then st else st @ [c])
      else st @ [c])"

definition elements :: "string \<Rightarrow> string list" where
  "elements s = foldl (push_element (is_abs s)) [] (split_on (CHR ''/'') s)"

definition clean :: "string \<Rightarrow> string" where
  "clean s =
     (if is_abs s then CHR ''/'' # joined ''/'' (elements s)
      else if elements s = [] then ''.'' else joined ''/'' (elements s))"

definition join_path :: "string list \<Rightarrow> string" where
  "join_path es =
     (case dropWhile (\<lambda>e. e = []) es of [] \<Rightarrow> [] | es' \<Rightarrow> clean (joined ''/'' es'))"

text \<open>\<^verbatim>\<open>Dir\<close> cleans what comes before and with the last slash.\<close>

definition dir :: "string \<Rightarrow> string" where
  "dir s = clean (rev (dropWhile (\<lambda>c. c \<noteq> CHR ''/'') (rev s)))"

text \<open>\<open>wd\<close> is the result of \<^verbatim>\<open>os.Getwd\<close>.\<close>

definition abs_path :: "string res \<Rightarrow> string \<Rightarrow> string res" where
  "abs_path wd s =
     (if is_abs s then Inr (clean s)
      else (case wd of Inl e \<Rightarrow> Inl e | Inr w \<Rightarrow> Inr (join_path [w, s])))"

section \<open>Facts\<close>

lemma is_abs_iff: "is_abs s \<longleftrightarrow> (\<exists>t. s = CHR ''/'' # t)"
  by (cases s) (auto simp: is_abs_def has_prefix_def)

lemma is_abs_clean [simp]: "is_abs s \<Longrightarrow> is_abs (clean s)"
  by (simp add: clean_def is_abs_def has_prefix_def)

lemma is_abs_append: "is_abs s \<Longrightarrow> is_abs (s @ t)"
  by (auto simp: is_abs_iff)

lemma is_abs_dir_part: "is_abs s \<Longrightarrow> is_abs (rev (dropWhile (\<lambda>c. c \<noteq> CHR ''/'') (rev s)))"
proof -
  assume "is_abs s"
  then obtain t where s: "s = CHR ''/'' # t" by (auto simp: is_abs_iff)
  have "dropWhile (\<lambda>c. c \<noteq> CHR ''/'') (rev t @ [CHR ''/'']) =
      (if CHR ''/'' \<in> set t then dropWhile (\<lambda>c. c \<noteq> CHR ''/'') (rev t) @ [CHR ''/''] else [CHR ''/''])"
    by (induction t rule: rev_induct) auto
  then show ?thesis by (auto simp: s is_abs_iff intro: exI [of _ "rev _"])
qed

lemma is_abs_dir: "is_abs s \<Longrightarrow> is_abs (dir s)"
  by (simp add: dir_def is_abs_dir_part)

lemma is_abs_joined: "is_abs s \<Longrightarrow> is_abs (joined sep (s # ss))"
  by (cases ss) (auto simp: is_abs_append)

lemma is_abs_nonempty: "is_abs s \<Longrightarrow> s \<noteq> []"
  by (auto simp: is_abs_iff)

lemma is_abs_join_path: "is_abs s \<Longrightarrow> is_abs (join_path (s # ss))"
  using is_abs_nonempty [of s] is_abs_joined [of s "''/''" ss] by (simp add: join_path_def)

text \<open>A working directory is absolute, so every resolved path is.\<close>

lemma abs_path_is_abs:
  assumes "abs_path wd s = Inr p" "\<And>w. wd = Inr w \<Longrightarrow> is_abs w"
  shows "is_abs p"
  using assms by (auto simp: abs_path_def is_abs_join_path split: if_splits sum.splits)

text \<open>The elements of a rooted path hold no dots and no slashes, so the path stays below its root.\<close>

definition plain_element :: "string \<Rightarrow> bool" where
  "plain_element c \<longleftrightarrow> c \<noteq> [] \<and> c \<noteq> ''.'' \<and> c \<noteq> ''..'' \<and> CHR ''/'' \<notin> set c"

lemma split_on_elements: "x \<in> set (split_on c s) \<Longrightarrow> c \<notin> set x"
proof (induction c s arbitrary: x rule: split_on.induct)
  case (2 c a s)
  then show ?case
    by (cases "split_on c s") (auto split: if_splits)
qed auto

lemma push_element_plain:
  "\<forall>c \<in> set st. plain_element c \<Longrightarrow> CHR ''/'' \<notin> set c \<Longrightarrow> \<forall>d \<in> set (push_element True st c). plain_element d"
  by (auto simp: push_element_def plain_element_def dest: in_set_butlastD)

lemma foldl_push_plain:
  assumes "\<forall>c \<in> set st. plain_element c" "\<forall>c \<in> set cs. CHR ''/'' \<notin> set c"
  shows "\<forall>c \<in> set (foldl (push_element True) st cs). plain_element c"
  using assms
proof (induction cs arbitrary: st)
  case (Cons c cs)
  have "\<forall>d \<in> set (push_element True st c). plain_element d"
    using push_element_plain [of st c] Cons.prems by simp
  with Cons show ?case by simp
qed simp

lemma elements_plain: "is_abs s \<Longrightarrow> \<forall>c \<in> set (elements s). plain_element c"
  using foldl_push_plain [of "[]" "split_on (CHR ''/'') s"] split_on_elements [of _ "CHR ''/''" s]
  by (auto simp: elements_def)

lemma split_on_joined:
  "xs \<noteq> [] \<Longrightarrow> \<forall>x \<in> set xs. c \<notin> set x \<Longrightarrow> split_on c (joined [c] xs) = xs"
  by (induction "[c]" xs rule: joined.induct) (auto simp: split_on_absent split_on_append)

lemma foldl_push_id: "\<forall>c \<in> set cs. plain_element c \<Longrightarrow> foldl (push_element r) st cs = st @ cs"
  by (induction cs arbitrary: st) (auto simp: push_element_def plain_element_def)

lemma elements_rooted:
  assumes "\<forall>c \<in> set cs. plain_element c"
  shows "elements (CHR ''/'' # joined ''/'' cs) = cs"
proof (cases "cs = []")
  case True
  then show ?thesis by (simp add: elements_def push_element_def)
next
  case False
  have "split_on (CHR ''/'') (CHR ''/'' # joined ''/'' cs) = [] # cs"
    using split_on_joined [OF False, of "CHR ''/''"] assms by (simp add: plain_element_def)
  moreover have "push_element r [] [] = []" for r by (simp add: push_element_def)
  ultimately show ?thesis using foldl_push_id [OF assms] by (simp add: elements_def)
qed

text \<open>A cleaned rooted path is its elements behind slashes, and cleaning it again changes nothing.\<close>

lemma clean_idem: "is_abs s \<Longrightarrow> clean (clean s) = clean s"
  using elements_rooted [OF elements_plain, of s] is_abs_clean [of s]
  by (simp add: clean_def is_abs_def has_prefix_def)

lemma clean_dir: "is_abs s \<Longrightarrow> clean (dir s) = dir s"
  by (simp add: dir_def clean_idem is_abs_dir_part)

lemma clean_join_path: "is_abs s \<Longrightarrow> clean (join_path (s # ss)) = join_path (s # ss)"
  using is_abs_nonempty [of s] is_abs_joined [of s "''/''" ss] by (simp add: join_path_def clean_idem)

lemma abs_path_clean:
  assumes "abs_path wd s = Inr p" "\<And>w. wd = Inr w \<Longrightarrow> is_abs w"
  shows "clean p = p"
  using assms by (auto simp: abs_path_def clean_idem clean_join_path split: if_splits sum.splits)

text \<open>Splitting and joining.\<close>

lemma length_split_on: "length (split_on c s) = Suc (length (filter (\<lambda>x. x = c) s))"
  by (induction s) (auto simp: Suc_length_conv)

lemma joined_Cons: "xs \<noteq> [] \<Longrightarrow> joined sep (x # xs) = x @ sep @ joined sep xs"
  by (cases xs) auto

lemma joined_append: "xs \<noteq> [] \<Longrightarrow> ys \<noteq> [] \<Longrightarrow> joined sep (xs @ ys) = joined sep xs @ sep @ joined sep ys"
  by (induction sep xs rule: joined.induct) (auto simp: joined_Cons)

lemma joined_split [simp]: "joined [c] (split_on c s) = s"
proof (induction s)
  case (Cons x s)
  obtain y ys where y: "split_on c s = y # ys" by (cases "split_on c s") auto
  then have ih: "joined [c] (y # ys) = s" using Cons.IH by (simp only:)
  show ?case
  proof (cases "x = c")
    case True
    with y have "split_on c (x # s) = [] # y # ys" by simp
    then have "joined [c] (split_on c (x # s)) = [c] @ joined [c] (y # ys)" by (simp only: joined.simps append_Nil)
    then show ?thesis unfolding ih True by (simp only: append_Cons append_Nil)
  next
    case False
    with y have "split_on c (x # s) = (x # y) # ys" by simp
    moreover have "joined [c] ((x # y) # ys) = x # joined [c] (y # ys)" by (cases ys) simp_all
    ultimately show ?thesis unfolding ih by (simp only:)
  qed
qed simp

text \<open>Whether a joined path ends in a slash.\<close>

lemma joined_end:
  assumes "cs \<noteq> []" "\<forall>c \<in> set cs. plain_element c"
  shows "joined ''/'' cs \<noteq> [] \<and> last (joined ''/'' cs) \<noteq> CHR ''/''"
  using assms
proof (induction cs)
  case (Cons c cs)
  have c: "c \<noteq> []" "CHR ''/'' \<notin> set c" using Cons.prems by (simp_all add: plain_element_def)
  show ?case
  proof (cases "cs = []")
    case True
    with c show ?thesis by (auto dest: last_in_set)
  next
    case False
    with Cons.IH Cons.prems(2) have "joined ''/'' cs \<noteq> [] \<and> last (joined ''/'' cs) \<noteq> CHR ''/''" by simp
    then show ?thesis unfolding joined_Cons [OF False] by (simp add: last_append)
  qed
qed simp

end
