(* ===== verification/Plugins.thy ===== *)
theory Plugins
  imports FilePath Types
begin

text \<open>
  Manifests and the registry of plugins, \<^verbatim>\<open>internal/plugins/manifest.go\<close> and \<^verbatim>\<open>registry.go\<close>,
  and the supervisor of a single plugin in \<^verbatim>\<open>internal/plugins/supervisor.go\<close>. The file system
  and the decoding of JSON are arguments.
\<close>

section \<open>Loading a manifest\<close>

record manifest_file =
  mnPath :: string
  mnDir :: string
  mnManifest :: manifest

text \<open>Reading a file, decoding a manifest, the working directory and the environment.\<close>

record files =
  fl_read :: "string \<Rightarrow> string res"
  fl_decode :: "string \<Rightarrow> manifest res"
  fl_wd :: "string res"
  fl_env :: "string \<Rightarrow> string option"

definition load_manifest :: "files \<Rightarrow> string \<Rightarrow> manifest_file res" where
  "load_manifest fl path =
     (case fl_read fl path of
        Inl e \<Rightarrow> Inl (Wrap ''read plugin manifest: '' e [])
      | Inr data \<Rightarrow>
          (case fl_decode fl data of
             Inl e \<Rightarrow> Inl (Wrap ''parse plugin manifest: '' e [])
           | Inr m \<Rightarrow>
               (case manifest_validate m of
                  Some e \<Rightarrow> Inl (Wrap ''validate plugin manifest: '' e [])
                | None \<Rightarrow>
                    (case abs_path (fl_wd fl) path of
                       Inl e \<Rightarrow> Inl (Wrap ''resolve plugin manifest path: '' e [])
                     | Inr p \<Rightarrow> Inr \<lparr>mnPath = p, mnDir = dir p, mnManifest = m\<rparr>))))"

lemma load_manifest_ok:
  assumes "load_manifest fl path = Inr mf" "\<And>w. fl_wd fl = Inr w \<Longrightarrow> is_abs w"
  shows "manifest_validate (mnManifest mf) = None \<and> is_abs (mnPath mf) \<and> is_abs (mnDir mf) \<and>
    clean (mnPath mf) = mnPath mf \<and> mnDir mf = dir (mnPath mf)"
proof -
  from assms(1) have p: "abs_path (fl_wd fl) path = Inr (mnPath mf)"
    and m: "manifest_validate (mnManifest mf) = None" "mnDir mf = dir (mnPath mf)"
    by (auto simp: load_manifest_def split: sum.splits option.splits)
  have "is_abs (mnPath mf)" by (rule abs_path_is_abs [OF p assms(2)])
  moreover have "clean (mnPath mf) = mnPath mf"
    by (rule abs_path_clean [OF p assms(2)])
  ultimately show ?thesis using m by (simp add: is_abs_dir)
qed

section \<open>The registry\<close>

record plugin =
  plManifestPath :: string
  plRootDir :: string
  plManifest :: manifest

record plugin_registry =
  pg_plugins :: "plugin gomap"

definition err_plugin_already_registered :: error where
  "err_plugin_already_registered = New ''plugin already registered''"

definition new_plugin_registry :: plugin_registry where
  "new_plugin_registry = \<lparr>pg_plugins = []\<rparr>"

definition pg_register :: "plugin \<Rightarrow> plugin_registry \<Rightarrow> plugin_registry res" where
  "pg_register pl r =
     (case manifest_validate (plManifest pl) of
        Some e \<Rightarrow> Inl e
      | None \<Rightarrow>
          (let i = mfID (plManifest pl)
           in case map_of (pg_plugins r) i of
                Some _ \<Rightarrow> Inl (Wrap [] err_plugin_already_registered ('': '' @ i))
              | None \<Rightarrow> Inr (r\<lparr>pg_plugins := AList.update i pl (pg_plugins r)\<rparr>)))"

definition pg_register_manifest :: "manifest_file \<Rightarrow> plugin_registry \<Rightarrow> plugin_registry res" where
  "pg_register_manifest mf r =
     pg_register \<lparr>plManifestPath = mnPath mf, plRootDir = mnDir mf, plManifest = mnManifest mf\<rparr> r"

definition pg_get :: "plugin_registry \<Rightarrow> string \<Rightarrow> plugin option" where
  "pg_get r i = map_of (pg_plugins r) i"

definition pg_list :: "iter_order \<Rightarrow> plugin_registry \<Rightarrow> plugin list" where
  "pg_list p r =
     map snd (sort_keys (map (\<lambda>pl. (mfID (plManifest pl), pl)) (map snd (ranged p (pg_plugins r)))))"

definition pg_count :: "plugin_registry \<Rightarrow> nat" where
  "pg_count r = length (pg_plugins r)"

text \<open>Every plugin is filed under the identifier of its manifest, which is valid.\<close>

definition pg_wf :: "plugin_registry \<Rightarrow> bool" where
  "pg_wf r \<longleftrightarrow> wf_map (pg_plugins r) \<and>
     (\<forall>i pl. pg_get r i = Some pl \<longrightarrow> mfID (plManifest pl) = i \<and> manifest_validate (plManifest pl) = None)"

interpretation plugin_table: once_registry pg_get pg_register "\<lambda>pl. mfID (plManifest pl)"
    "\<lambda>pl. manifest_validate (plManifest pl) = None"
  by unfold_locales (auto simp: pg_get_def pg_register_def Let_def split: option.splits if_splits)

lemma pg_wf_new [simp]: "pg_wf new_plugin_registry"
  by (simp add: pg_wf_def new_plugin_registry_def pg_get_def)

lemma pg_wf_register: "pg_register pl r = Inr r' \<Longrightarrow> pg_wf r \<Longrightarrow> pg_wf r'"
  by (auto simp: pg_wf_def pg_register_def pg_get_def Let_def split: option.splits if_splits)

text \<open>The list does not depend on the order of the map, and is in the order of the identifiers.\<close>

lemma pg_list_keys:
  assumes "valid_order p" "pg_wf r"
  shows "map (\<lambda>pl. (mfID (plManifest pl), pl)) (map snd (ranged p (pg_plugins r))) = ranged p (pg_plugins r)"
proof (rule nth_equalityI; simp)
  fix k assume "k < length (ranged p (pg_plugins r))"
  then have "ranged p (pg_plugins r) ! k \<in> set (pg_plugins r)"
    using assms(1) nth_mem set_ranged by metis
  then have "pg_get r (fst (ranged p (pg_plugins r) ! k)) = Some (snd (ranged p (pg_plugins r) ! k))"
    using assms(2) wf_map_map_of by (metis pg_get_def pg_wf_def prod.collapse)
  then show "(mfID (plManifest (snd (ranged p (pg_plugins r) ! k))), snd (ranged p (pg_plugins r) ! k)) = ranged p (pg_plugins r) ! k"
    using assms(2) by (simp add: pg_wf_def prod_eq_iff)
qed

lemma pg_list_eq:
  assumes "valid_order p" "pg_wf r"
  shows "pg_list p r = map snd (sort_keys (pg_plugins r))"
proof -
  have "wf_map (pg_plugins r)" "wf_map (ranged p (pg_plugins r))"
    using assms by (simp_all add: pg_wf_def)
  then have "sort_keys (ranged p (pg_plugins r)) = sort_keys (pg_plugins r)"
    using assms(1) by (intro key_sorted_unique) (simp_all add: key_sorted_sort)
  then show ?thesis by (simp only: pg_list_def pg_list_keys [OF assms])
qed

lemma pg_list_ids:
  assumes "valid_order p" "pg_wf r"
  shows "map (\<lambda>pl. mfID (plManifest pl)) (pg_list p r) = map fst (sort_keys (pg_plugins r))"
proof -
  have "mfID (plManifest (snd kv)) = fst kv" if "kv \<in> set (pg_plugins r)" for kv
    using that assms(2) wf_map_map_of by (metis pg_get_def pg_wf_def prod.collapse)
  then show ?thesis by (simp add: pg_list_eq [OF assms])
qed

section \<open>The supervisor of one plugin\<close>

text \<open>
  As in \<open>Process\<close>, operating system processes are numbered, \<open>ls_alive\<close> are those that run and
  \<open>ls_monitors\<close> those whose monitor still waits. Cancelling the context of the supervisor ends no
  process: the command was made with the caller's context.
\<close>

definition err_supervisor_running :: error where
  "err_supervisor_running = New ''plugin supervisor already running''"

definition err_supervisor_not_running :: error where
  "err_supervisor_not_running = New ''plugin supervisor is not running''"

record supervisor_options =
  soHealthInterval :: int
  soHealthTimeout :: int
  soRestartBackoff :: int
  soMaxRestarts :: int

record single =
  ls_plugin :: plugin
  ls_opts :: supervisor_options
  ls_cmd :: "nat option"
  ls_argv :: "string list"
  ls_running :: bool
  ls_restarts :: int
  ls_alive :: "nat list"
  ls_monitors :: "nat list"
  ls_started :: nat

definition new_single :: "plugin \<Rightarrow> supervisor_options \<Rightarrow> single" where
  "new_single pl opts =
     \<lparr>ls_plugin = pl,
      ls_opts = \<lparr>soHealthInterval = (if soHealthInterval opts \<le> 0 then 30 * 10 ^ 9 else soHealthInterval opts),
                 soHealthTimeout = (if soHealthTimeout opts \<le> 0 then 2 * 10 ^ 9 else soHealthTimeout opts),
                 soRestartBackoff = (if soRestartBackoff opts \<le> 0 then 10 ^ 9 else soRestartBackoff opts),
                 soMaxRestarts = (if soMaxRestarts opts \<le> 0 then 3 else soMaxRestarts opts)\<rparr>,
      ls_cmd = None, ls_argv = [], ls_running = False, ls_restarts = 0, ls_alive = [], ls_monitors = [],
      ls_started = 0\<rparr>"

datatype launch = StdinPipe error | StdoutPipe error | StderrPipe error | StartFailed error | Launched

definition single_start :: "launch \<Rightarrow> single \<Rightarrow> error option \<times> single" where
  "single_start out s =
     (if ls_running s then (Some err_supervisor_running, s)
      else case manifest_validate (plManifest (ls_plugin s)) of
        Some e \<Rightarrow> (Some (Wrap ''invalid manifest: '' e []), s)
      | None \<Rightarrow>
          (let entry = mfEntry (plManifest (ls_plugin s));
               path = (if is_abs entry then entry else join_path [plRootDir (ls_plugin s), entry]);
               n = ls_started s
           in (case out of
                 StdinPipe e \<Rightarrow> (Some (Wrap ''stdin pipe: '' e []), s)
               | StdoutPipe e \<Rightarrow> (Some (Wrap ''stdout pipe: '' e []), s)
               | StderrPipe e \<Rightarrow> (Some (Wrap ''stderr pipe: '' e []), s)
               | StartFailed e \<Rightarrow> (Some (Wrap ''start plugin: '' e []), s)
               | Launched \<Rightarrow>
                   (None, s\<lparr>ls_cmd := Some n, ls_argv := [mfRuntime (plManifest (ls_plugin s)), path],
                            ls_running := True, ls_restarts := 0, ls_alive := n # ls_alive s,
                            ls_monitors := n # ls_monitors s, ls_started := Suc n\<rparr>))))"

definition single_stop :: "single \<Rightarrow> error option \<times> single" where
  "single_stop s =
     (if \<not> ls_running s then (Some err_supervisor_not_running, s)
      else (None, s\<lparr>ls_alive := (case ls_cmd s of None \<Rightarrow> ls_alive s | Some n \<Rightarrow> removeAll n (ls_alive s)),
                    ls_running := False\<rparr>))"

definition single_running :: "single \<Rightarrow> bool" where
  "single_running s = ls_running s"

definition single_plugin :: "single \<Rightarrow> plugin" where
  "single_plugin s = ls_plugin s"

definition single_manifest :: "single \<Rightarrow> manifest" where
  "single_manifest s = plManifest (ls_plugin s)"

text \<open>The monitor, once process \<open>n\<close> has exited; it sleeps while it holds the lock.\<close>

definition single_exit :: "nat \<Rightarrow> single \<Rightarrow> single" where
  "single_exit n s =
     (let s1 = s\<lparr>ls_alive := removeAll n (ls_alive s), ls_monitors := removeAll n (ls_monitors s),
                 ls_running := False\<rparr>
      in if ls_restarts s1 < soMaxRestarts (ls_opts s1)
         then s1\<lparr>ls_restarts := ls_restarts s1 + 1\<rparr> else s1)"

text \<open>
  The monitor does not start the plugin again, and it clears the flag of whatever runs: after a
  stop and a start, the exit of the first process makes the second look stopped.
\<close>

lemma single_exit_started: "ls_started (single_exit n s) = ls_started s" "\<not> ls_running (single_exit n s)"
  by (simp_all add: single_exit_def Let_def)

lemma single_stale_exit:
  assumes "single_start Launched s = (None, s1)" "single_stop s1 = (None, s2)"
    and "single_start Launched s2 = (None, s3)" "ls_started s \<notin> set (ls_alive s)" "Suc (ls_started s) \<notin> set (ls_alive s)"
  shows "\<not> ls_running (single_exit (ls_started s) s3) \<and> Suc (ls_started s) \<in> set (ls_alive (single_exit (ls_started s) s3))"
  using assms
  by (auto simp: single_start_def single_stop_def single_exit_def Let_def split: option.splits if_splits)

end
