(* ===== verification/PluginLife.thy ===== *)
theory PluginLife
  imports Startup Plugins
begin

text \<open>
  The part of \<^verbatim>\<open>internal/runtime/runtime.go\<close> that deals with plugins as a whole: \<^verbatim>\<open>loadPlugins\<close>,
  \<^verbatim>\<open>Run\<close> up to the wait for its context, \<^verbatim>\<open>ConfigurePlugin\<close>, \<^verbatim>\<open>ConfiguredPlugins\<close>,
  \<^verbatim>\<open>shutdown\<close> and \<^verbatim>\<open>Logs\<close>.
\<close>

section \<open>Starting and stopping\<close>

definition read_failure :: "'d runtime \<Rightarrow> error option \<times> 'd runtime" where
  "read_failure s = (wd_failure (rs_world s) (wd_tick (rs_world s)), tick s)"

text \<open>A call of the supervisor with the status events that it causes.\<close>

definition start_plugin ::
  "'d publisher \<Rightarrow> string \<Rightarrow> 'd runtime \<Rightarrow> (error option \<times> 'd runtime) option" where
  "start_plugin publish i s =
     (let (failure, s1) = read_failure s; (now, s2) = read_now s1;
          (er, sts, sv) = sv_start failure now i (rs_supervisor s2)
      in map_option (Pair er) (emit_statuses publish sts (s2\<lparr>rs_supervisor := sv\<rparr>)))"

definition stop_plugin ::
  "'d publisher \<Rightarrow> string \<Rightarrow> 'd runtime \<Rightarrow> (error option \<times> 'd runtime) option" where
  "stop_plugin publish i s =
     (let (now, s1) = read_now s; (er, sts, sv) = sv_stop now i (rs_supervisor s1)
      in map_option (Pair er) (emit_statuses publish sts (s1\<lparr>rs_supervisor := sv\<rparr>)))"

section \<open>Loading the plugins\<close>

text \<open>The command line: the runtime with the entry, or the runtime as a program of the plugin.\<close>

definition command_of :: "manifest_file \<Rightarrow> string \<times> string list" where
  "command_of mf =
     (let m = mnManifest mf; entry = mfEntry m
      in if entry \<noteq> [] then (mfRuntime m, [if is_abs entry then entry else join_path [mnDir mf, entry]])
         else if \<not> is_abs (mfRuntime m) then (join_path [mnDir mf, mfRuntime m], [])
         else (mfRuntime m, []))"

definition spec_of :: "files \<Rightarrow> iter_order \<Rightarrow> plugin_config \<Rightarrow> manifest_file \<Rightarrow> process_spec" where
  "spec_of fl p pc mf =
     \<lparr>spID = mfID (mnManifest mf), spCommand = fst (command_of mf), spArgs = snd (command_of mf),
      spDir = mnDir mf, spEnv = resolved_env p (fl_env fl) pc\<rparr>"

fun load_capabilities ::
  "string \<Rightarrow> manifest \<Rightarrow> capability list \<Rightarrow> (string \<times> string) router \<Rightarrow> error option \<times> (string \<times> string) router" where
  "load_capabilities pluginID m [] r = (None, r)"
| "load_capabilities pluginID m (c # cs) r =
     (case router_register_capability pluginID m (cpName c) (Some (pluginID, cpName c)) r of
        Inl e \<Rightarrow> (Some e, r)
      | Inr r' \<Rightarrow> load_capabilities pluginID m cs r')"

definition load_plugin ::
  "'d publisher \<Rightarrow> files \<Rightarrow> plugin_config \<Rightarrow> 'd runtime \<Rightarrow> (error option \<times> 'd runtime) option" where
  "load_plugin publish fl pc s =
     (if \<not> pcEnabled pc \<or> pcManifest pc = [] then Some (None, s)
      else case load_manifest fl (pcManifest pc) of
        Inl e \<Rightarrow> Some (Some e, s)
      | Inr mf \<Rightarrow>
          (let (p, s1) = read_order s; m = mnManifest mf
           in (case sv_register (spec_of fl p pc mf) (rs_supervisor s1) of
                 Inl e \<Rightarrow> Some (Some e, s1)
               | Inr sv \<Rightarrow>
                   (case start_plugin publish (mfID m) (s1\<lparr>rs_supervisor := sv\<rparr>) of
                      None \<Rightarrow> None
                    | Some (Some e, s2) \<Rightarrow> Some (Some e, s2)
                    | Some (None, s2) \<Rightarrow>
                        (let (er, r) = load_capabilities (mfID m) m (mfCapabilities m) (rs_router s2)
                         in Some (er, s2\<lparr>rs_router := r\<rparr>))))))"

fun load_plugins ::
  "'d publisher \<Rightarrow> files \<Rightarrow> plugin_config list \<Rightarrow> 'd runtime \<Rightarrow> (error option \<times> 'd runtime) option" where
  "load_plugins publish fl [] s = Some (None, s)"
| "load_plugins publish fl (pc # pcs) s =
     (case load_plugin publish fl pc s of
        None \<Rightarrow> None
      | Some (Some e, s1) \<Rightarrow> Some (Some e, s1)
      | Some (None, s1) \<Rightarrow> load_plugins publish fl pcs s1)"

text \<open>\<^verbatim>\<open>Run\<close> up to the wait for its context; an error ends it there, without a shutdown.\<close>

definition run_start ::
  "'d publisher \<Rightarrow> (string \<Rightarrow> 'd res) \<Rightarrow> 'd ops \<Rightarrow> files \<Rightarrow> 'd runtime \<Rightarrow> (error option \<times> 'd runtime) option" where
  "run_start publish open_db ops fl s =
     (case run_setup open_db ops s of
        (Some e, s1) \<Rightarrow> Some (Some e, s1)
      | (None, s1) \<Rightarrow> load_plugins publish fl (cfPlugins (rs_config s1)) s1)"

section \<open>Configuring a plugin\<close>

definition configured_id :: "files \<Rightarrow> plugin_config \<Rightarrow> string" where
  "configured_id fl pc =
     (case pcInline pc of
        Some m \<Rightarrow> mfID m
      | None \<Rightarrow>
          if pcManifest pc \<noteq> [] then
            (case load_manifest fl (pcManifest pc) of Inl _ \<Rightarrow> [] | Inr mf \<Rightarrow> mfID (mnManifest mf))
          else [])"

fun configure_in ::
  "files \<Rightarrow> string \<Rightarrow> bool \<Rightarrow> string gomap \<Rightarrow> plugin_config list \<Rightarrow> plugin_config list \<times> bool" where
  "configure_in fl i enabled env [] = ([], False)"
| "configure_in fl i enabled env (pc # pcs) =
     (if configured_id fl pc = i
      then (pc\<lparr>pcEnabled := enabled,
               pcEnv := fold (\<lambda>(k, v) m. AList.update k v m) env (pcEnv pc)\<rparr> # pcs, True)
      else (let (pcs', changed) = configure_in fl i enabled env pcs in (pc # pcs', changed)))"

text \<open>
  \<^verbatim>\<open>ConfigurePlugin\<close> sleeps between stopping and starting, and other goroutines run meanwhile:
  it is two steps, the second of which is only taken when the first says so. Errors of the
  supervisor are dropped or only logged.
\<close>

definition configure_begin ::
  "'d publisher \<Rightarrow> files \<Rightarrow> string \<Rightarrow> bool \<Rightarrow> string gomap \<Rightarrow> 'd runtime \<Rightarrow> (bool res \<times> 'd runtime) option" where
  "configure_begin publish fl i enabled env s =
     (let (pcs, changed) = configure_in fl i enabled env (cfPlugins (rs_config s));
          s1 = s\<lparr>rs_config := (rs_config s)\<lparr>cfPlugins := pcs\<rparr>\<rparr>
      in if \<not> changed then Some (Inl (New (''plugin '' @ i @ '' not found in config'')), s)
         else if enabled then
           (if sv_is_running i (rs_supervisor s1)
            then map_option (\<lambda>(_, s2). (Inr True, s2)) (stop_plugin publish i s1)
            else Some (Inr True, s1))
         else map_option (\<lambda>(_, s2). (Inr False, s2)) (stop_plugin publish i s1))"

definition configure_end :: "'d publisher \<Rightarrow> string \<Rightarrow> 'd runtime \<Rightarrow> 'd runtime option" where
  "configure_end publish i s = map_option snd (start_plugin publish i s)"

text \<open>\<open>pause\<close> is what happens during the sleep.\<close>

definition configure_plugin ::
  "'d publisher \<Rightarrow> files \<Rightarrow> ('d runtime \<Rightarrow> 'd runtime) \<Rightarrow> string \<Rightarrow> bool \<Rightarrow> string gomap \<Rightarrow> 'd runtime \<Rightarrow>
     (error option \<times> 'd runtime) option" where
  "configure_plugin publish fl pause i enabled env s =
     (case configure_begin publish fl i enabled env s of
        None \<Rightarrow> None
      | Some (Inl e, s1) \<Rightarrow> Some (Some e, s1)
      | Some (Inr False, s1) \<Rightarrow> Some (None, s1)
      | Some (Inr True, s1) \<Rightarrow>
          map_option (Pair None)
            (configure_end publish i (if sv_is_running i (rs_supervisor s) then pause s1 else s1)))"

text \<open>What the control API shows of a configured plugin; the last field has the manifest if it is known.\<close>

record plugin_item =
  piManifest :: string
  piEnabled :: bool
  piKnown :: "manifest option"

definition configured_plugins :: "files \<Rightarrow> 'd runtime \<Rightarrow> plugin_item list" where
  "configured_plugins fl s =
     map (\<lambda>pc. \<lparr>piManifest = pcManifest pc, piEnabled = pcEnabled pc,
                piKnown = (case pcInline pc of
                   Some m \<Rightarrow> Some m
                 | None \<Rightarrow> if pcManifest pc \<noteq> []
                           then (case load_manifest fl (pcManifest pc) of
                                   Inl _ \<Rightarrow> None | Inr mf \<Rightarrow> Some (mnManifest mf))
                           else None)\<rparr>)
         (cfPlugins (rs_config s))"

section \<open>Shutdown\<close>

text \<open>The loop over the plugins: the reply to the call and the error of the stop are dropped.\<close>

fun stop_each :: "'d publisher \<Rightarrow> string list \<Rightarrow> 'd runtime \<Rightarrow> 'd runtime option" where
  "stop_each publish [] s = Some s"
| "stop_each publish (i # is) s =
     (let (env, s1) = read_call s; (_, sv) = sv_call env i (rs_supervisor s1)
      in (case stop_plugin publish i (s1\<lparr>rs_supervisor := sv\<rparr>) of
            None \<Rightarrow> None
          | Some (_, s2) \<Rightarrow> stop_each publish is s2))"

text \<open>
  \<^verbatim>\<open>wg.Wait()\<close>: every execution that was started runs to its end, in an order \<open>sched\<close> of the
  scheduler, and so do those they start; \<open>None\<close> when \<open>n\<close> executions were not enough.
\<close>

fun drain :: "'d publisher \<Rightarrow> 'd ops \<Rightarrow> (nat \<Rightarrow> nat) \<Rightarrow> nat \<Rightarrow> 'd runtime \<Rightarrow> 'd runtime option" where
  "drain publish ops sched 0 s = (if rs_spawned s = [] then Some s else None)"
| "drain publish ops sched (Suc n) s =
     (if rs_spawned s = [] then Some s
      else (case run_spawned publish ops (sched n mod length (rs_spawned s)) s of
              None \<Rightarrow> None
            | Some s1 \<Rightarrow> drain publish ops sched n s1))"

text \<open>
  \<open>close_http\<close> is what \<^verbatim>\<open>Shutdown\<close> of the control server returns with a context that is never
  cancelled, \<open>None\<close> when it does not return; there is a server when the API is enabled.
\<close>

definition shutdown ::
  "'d publisher \<Rightarrow> 'd ops \<Rightarrow> (nat \<Rightarrow> nat) \<Rightarrow> nat \<Rightarrow> error option option \<Rightarrow> ('d \<Rightarrow> error option) \<Rightarrow>
     'd runtime \<Rightarrow> (error option \<times> 'd runtime) option" where
  "shutdown publish ops sched n close_http close_db s =
     (let (p, s1) = read_order s
      in (case stop_each publish (sv_list p (rs_supervisor s1)) s1 of
            None \<Rightarrow> None
          | Some s2 \<Rightarrow>
              (case drain publish ops sched n s2 of
                 None \<Rightarrow> None
               | Some s3 \<Rightarrow>
                   if ccEnabled (cfControl (rs_config s3)) \<and> close_http = None then None
                   else Some (case rs_storage s3 of None \<Rightarrow> None | Some d \<Rightarrow> close_db d, s3))))"

section \<open>The log\<close>

text \<open>\<open>read_file\<close> is the content of a file, or the error of opening, measuring or reading it.\<close>

definition runtime_logs :: "(string \<Rightarrow> string res) \<Rightarrow> int \<Rightarrow> 'd runtime \<Rightarrow> string res" where
  "runtime_logs read_file limit s =
     (let path = rcLogPath (cfRuntime (rs_config s))
      in if path = [] then Inr []
         else (case read_file path of
                 Inl e \<Rightarrow> Inl e
               | Inr content \<Rightarrow>
                   (let l = (if limit \<le> 0 then 64 * 1024 else limit); start = int (length content) - l
                    in Inr (drop (nat (if start < 0 then 0 else start)) content))))"

end
