(* ===== verification/RuntimeSteps.thy ===== *)
theory RuntimeSteps
  imports PluginLife
begin

text \<open>
  The runtime as a transition system: the operations of the control API, the requests of the
  plugins, the goroutines that execute actions, the health loop and the lifecycle of the plugins
  as labelled steps, and what every reachable state satisfies.
\<close>

section \<open>Operations that keep a predicate\<close>

context runtime_keeps
begin

abbreviation quiet_publish :: "nat \<Rightarrow> event \<Rightarrow> 'd runtime \<Rightarrow> 'd runtime option" where
  "quiet_publish n \<equiv> publish_quietly (publish_event n ops)"

lemma quiet_keeps: "P s \<Longrightarrow> quiet_publish n e s = Some s' \<Longrightarrow> P s'"
  by (auto simp: publish_quietly_def intro: publish_keeps)

lemma status_keeps: "P s \<Longrightarrow> publish_action_status (publish_event n ops) t a s = Some s' \<Longrightarrow> P s'"
  by (rule status_event_keeps) (rule publish_keeps)

lemma core_publish_keeps:
  "P s \<Longrightarrow> core_event pre t x pl s = (e, s1) \<Longrightarrow> quiet_publish n (f e) s1 = Some s' \<Longrightarrow> P s'"
  by (rule quiet_keeps) (rule core_event_keeps)

text \<open>The equation that names the state before comes first, so that chains can be followed.\<close>

lemmas chain = publish_keeps [rotated] stamp_keeps [rotated] read_now_keeps [rotated]
  read_order_keeps [rotated] core_event_keeps [rotated] quiet_keeps [rotated] status_keeps [rotated]

lemma plugin_status_keeps:
  "P s \<Longrightarrow> handle_plugin_status (publish_event n ops) st s = Some s' \<Longrightarrow> P s'"
  unfolding handle_plugin_status_def Let_def
  by (auto split: prod.splits intro: chain)

lemma emit_statuses_keeps:
  "P s \<Longrightarrow> emit_statuses (publish_event n ops) sts s = Some s' \<Longrightarrow> P s'"
  by (induction sts arbitrary: s) (auto split: option.splits intro: plugin_status_keeps)

end

text \<open>What running the executions that were started changes besides.\<close>

locale runtime_keeps_runs = runtime_keeps +
  assumes keeps_call: "P s \<Longrightarrow> sv_call env i (rs_supervisor s) = (r, sv) \<Longrightarrow> P (s\<lparr>rs_supervisor := sv\<rparr>)"
    and keeps_status: "P s \<Longrightarrow> as_update_status i t (rs_actions s) = (ar, as) \<Longrightarrow> P (s\<lparr>rs_actions := as\<rparr>)"
    and keeps_execute: "P s \<Longrightarrow> mx_execute c a (rs_executor s) = (xr, mx) \<Longrightarrow> P (s\<lparr>rs_executor := mx\<rparr>)"
begin

lemma call_plugin_keeps:
  assumes "P s" "call_plugin h params s = (r, s')"
  shows "P s'"
proof -
  obtain env s1 where e: "read_call s = (env, s1)" by (meson surj_pair)
  obtain res sv where c: "sv_call env (fst h) (rs_supervisor s1) = (res, sv)" by (meson surj_pair)
  have "P s1" using e assms(1) by (auto simp: read_call_def intro: keeps_tick)
  from keeps_call [OF this c] assms(2) e c show ?thesis
    by (auto simp: call_plugin_def Let_def split: sum.splits)
qed

lemma perform_keeps:
  assumes "P s" "perform_action ops a s = (r, s')"
  shows "P s'"
proof (cases "is_workflow_action_type (acType a)")
  case True
  obtain ce s1 where r1: "read_ctx_err s = (ce, s1)" by (meson surj_pair)
  obtain xr mx where x: "mx_execute ce a (rs_executor s1) = (xr, mx)" by (meson surj_pair)
  have "P s1" using r1 assms(1) by (auto simp: read_ctx_err_def intro: keeps_tick)
  from keeps_execute [OF this x] assms(2) True r1 x show ?thesis
    by (auto simp: perform_action_def engine_execute_action_def Let_def split: sum.splits)
next
  case False
  have call: "P s1" if "router_call call_plugin (rs_router s) p c ps s = (x, s1)" for p c ps x s1
    using that assms(1) by (auto simp: router_call_def split: option.splits if_splits intro: call_plugin_keeps)
  show ?thesis
  proof (cases "\<exists>p c. split_n2 (CHR ''.'') (acType a) = [p, c]")
    case True
    then obtain p c where pc: "split_n2 (CHR ''.'') (acType a) = [p, c]" by blast
    obtain y s1 where y: "router_call call_plugin (rs_router s) p c (VMap (acPayload a)) s = (y, s1)"
      by (meson surj_pair)
    obtain i s2 where i: "stamp (''exec-'' @ acID a) s1 = (i, s2)" by (meson surj_pair)
    obtain t s3 where t: "read_now s2 = (t, s3)" by (meson surj_pair)
    from False assms(2) pc y i t have "\<exists>u. read_now s3 = (u, s')"
      by (auto simp: perform_action_def simp del: append.simps split: prod.splits)
    with read_now_keeps [OF stamp_keeps [OF call [OF y] i] t] show ?thesis
      by (auto intro: read_now_keeps)
  next
    case False
    with \<open>\<not> is_workflow_action_type (acType a)\<close> assms show ?thesis
      by (auto simp: perform_action_def split: list.splits)
  qed
qed

lemma settle_keeps: "P s \<Longrightarrow> P (settle_action ops i t s)"
  by (auto simp: settle_action_def Let_def split: prod.splits sum.splits
      intro: persist_action_keeps keeps_status)

lemma execute_keeps:
  assumes "P s" "execute_action (publish_event n ops) ops a s = Some s'"
  shows "P s'"
proof -
  obtain x er s1 where p: "perform_action ops a s = ((x, er), s1)" by (metis prod.exhaust)
  have "P (settle_action ops (acID a) (if er = None then ''executed'' else ''failed'') s1)"
    by (rule settle_keeps) (rule perform_keeps [OF assms(1) p])
  with assms(2) p show ?thesis
    by (auto simp: execute_action_def Let_def split: prod.splits intro: chain)
qed

end

text \<open>And every other operation.\<close>

locale runtime_keeps_all = runtime_keeps_runs +
  assumes keeps_stop: "P s \<Longrightarrow> sv_stop now i (rs_supervisor s) = (er, st, sv) \<Longrightarrow> P (s\<lparr>rs_supervisor := sv\<rparr>)"
    and keeps_start: "P s \<Longrightarrow> sv_start failure now i (rs_supervisor s) = (er, st, sv) \<Longrightarrow> P (s\<lparr>rs_supervisor := sv\<rparr>)"
    and keeps_register: "P s \<Longrightarrow> sv_register spec (rs_supervisor s) = Inr sv \<Longrightarrow> P (s\<lparr>rs_supervisor := sv\<rparr>)"
    and keeps_router: "P s \<Longrightarrow> P (s\<lparr>rs_router := rt\<rparr>)"
    and keeps_plugins: "P s \<Longrightarrow> P (s\<lparr>rs_config := (rs_config s)\<lparr>cfPlugins := pcs\<rparr>\<rparr>)"
begin

lemma emit_event_keeps: "P s \<Longrightarrow> emit_event (publish_event n ops) e s = Some (er, s') \<Longrightarrow> P s'"
  by (auto simp: emit_event_def Let_def split: if_splits prod.splits intro: chain)
     (blast intro: chain)+

lemma event_emit_keeps: "P s \<Longrightarrow> handle_event_emit (publish_event n ops) ops req s = Some (rep, s') \<Longrightarrow> P s'"
  by (auto simp: handle_event_emit_def Let_def split: if_splits prod.splits sum.splits option.splits
      intro: chain)
     (blast intro: chain)+

lemma action_request_keeps:
  assumes "P s" and req: "handle_action_request (publish_event n ops) ops rq s = Some (rep, s')"
  shows "P s'"
proof (cases "op_json_action ops (prParams rq)")
  case (Inl e)
  with assms show ?thesis by (simp add: handle_action_request_def)
next
  case (Inr a)
  obtain a1 s1 where c: "complete_action (prPluginID rq) (prPluginID rq @ ''-action'') a s = (a1, s1)"
    by (meson surj_pair)
  with \<open>P s\<close> have P1: "P s1" by (rule complete_action_keeps)
  obtain st err where g: "gate_decide m a1 = (st, err)" by (meson surj_pair)
  with mode_fixed [OF P1] have g': "gate_decide (rs_mode s1) a1 = (st, err)" by simp
  show ?thesis
  proof (cases "err \<noteq> None \<and> st = []")
    case True
    with req c g' P1 Inr show ?thesis by (simp add: handle_action_request_def)
  next
    case False
    have st: "st \<noteq> []" using False gate_err_denied [of m a1] g by auto
    let ?a2 = "a1\<lparr>acStatus := st\<rparr>"
    have P2: "P (s1\<lparr>rs_actions := as_save ?a2 (rs_actions s1)\<rparr>)"
      by (rule keeps_save [OF P1 g st])
    from False req c g' Inr obtain e s3 s4 where
      e: "core_event (acID ?a2 @ ''-event'') ''action.requested'' (acSessionID ?a2) (status_payload ?a2)
        (s1\<lparr>rs_actions := as_save ?a2 (rs_actions s1)\<rparr>) = (e, s3)"
      and q: "quiet_publish n e s3 = Some s4"
      and s': "s' = (if st = ''allowed'' then execute_action_async ?a2 s4 else s4)"
      by (auto simp: handle_action_request_def Let_def split: option.splits prod.splits)
    have P4: "P s4" by (rule core_publish_keeps [OF P2 e, where f = "\<lambda>e. e"]) (rule q)
    then show ?thesis
      using s' g keeps_spawn [OF P4, of a1 err] by (cases "st = ''allowed''") (auto simp: execute_action_async_def)
  qed
qed

lemma plugin_stop_keeps:
  assumes "P s" "handle_plugin_stop (publish_event n ops) rq s = Some (rep, s')"
  shows "P s'"
proof -
  let ?i = "prPluginID rq"
  obtain e s1 where e: "core_event (?i @ ''-stop'') ''plugin.stop.requested'' [] [(''id'', VStr ?i)] s = (e, s1)"
    by (meson surj_pair)
  with assms(2) obtain s2 where s2: "quiet_publish n e s1 = Some s2"
    by (auto simp: handle_plugin_stop_def split: option.splits)
  have P2: "P s2" by (rule core_publish_keeps [OF assms(1) e, where f = "\<lambda>e. e"]) (rule s2)
  obtain now s3 where s3: "read_now s2 = (now, s3)" by (meson surj_pair)
  obtain er sts sv where stop: "sv_stop now ?i (rs_supervisor s3) = (er, sts, sv)" by (metis prod.exhaust)
  have "P (s3\<lparr>rs_supervisor := sv\<rparr>)"
    by (rule keeps_stop [OF read_now_keeps [OF P2 s3] stop])
  with assms(2) e s2 s3 stop show ?thesis
    by (auto simp: handle_plugin_stop_def Let_def split: option.splits intro: emit_statuses_keeps)
qed

lemma plugin_request_keeps:
  "P s \<Longrightarrow> handle_plugin_request (publish_event n ops) ops rq s = Some (rep, s') \<Longrightarrow> P s'"
  by (auto simp: handle_plugin_request_def split: if_splits
      intro: event_emit_keeps action_request_keeps plugin_stop_keeps)

lemma deny_keeps:
  assumes "P s" "deny_action (publish_event n ops) ops i s = Some (r, s')"
  shows "P s'"
proof -
  obtain ar as where u: "as_update_status i ''denied'' (rs_actions s) = (ar, as)" by (meson surj_pair)
  note P1 = keeps_status [OF assms(1) u]
  with assms(2) u show ?thesis
    by (auto simp: deny_action_def Let_def split: sum.splits intro: chain persist_action_keeps)
qed

lemma health_check_keeps:
  "P s \<Longrightarrow> sv_health_check env i (rs_supervisor s) = (res, sv) \<Longrightarrow> P (s\<lparr>rs_supervisor := sv\<rparr>)"
  by (auto simp: sv_health_check_def split: prod.splits sum.splits intro: keeps_call)

lemma health_one_keeps:
  assumes "P s" "health_one (publish_event n ops) i fails s = Some (fails', s')"
  shows "P s'"
proof -
  obtain env s1 where r: "read_call s = (env, s1)" by (meson surj_pair)
  have P1: "P s1" using r assms(1) by (auto simp: read_call_def intro: keeps_tick)
  obtain res sv where c: "sv_health_check env i (rs_supervisor s1) = (res, sv)" by (meson surj_pair)
  note P2 = health_check_keeps [OF P1 c]
  with assms(2) r c show ?thesis
    by (auto simp: health_one_def Let_def split: option.splits if_splits prod.splits
        intro: chain)
qed

lemma health_each_keeps:
  "P s \<Longrightarrow> health_each (publish_event n ops) is fails s = Some (fails', s') \<Longrightarrow> P s'"
  by (induction "is" arbitrary: s fails) (auto split: option.splits intro: health_one_keeps)

lemma health_round_keeps:
  "P s \<Longrightarrow> health_round (publish_event n ops) fails s = Some (fails', s') \<Longrightarrow> P s'"
  by (auto simp: health_round_def Let_def split: prod.splits intro: chain health_each_keeps [rotated])

text \<open>Starting, stopping, loading and configuring plugins.\<close>

lemma start_plugin_keeps:
  assumes "P s" "start_plugin (publish_event n ops) i s = Some (er, s')"
  shows "P s'"
proof -
  obtain f s1 where f: "read_failure s = (f, s1)" by (meson surj_pair)
  obtain now s2 where now: "read_now s1 = (now, s2)" by (meson surj_pair)
  obtain er' sts sv where st: "sv_start f now i (rs_supervisor s2) = (er', sts, sv)" by (metis prod.exhaust)
  have "P s1" using f assms(1) by (auto simp: read_failure_def intro: keeps_tick)
  from keeps_start [OF read_now_keeps [OF this now] st] assms(2) f now st show ?thesis
    by (auto simp: start_plugin_def Let_def intro: emit_statuses_keeps)
qed

lemma stop_plugin_keeps:
  assumes "P s" "stop_plugin (publish_event n ops) i s = Some (er, s')"
  shows "P s'"
proof -
  obtain now s2 where now: "read_now s = (now, s2)" by (meson surj_pair)
  obtain er' sts sv where st: "sv_stop now i (rs_supervisor s2) = (er', sts, sv)" by (metis prod.exhaust)
  from keeps_stop [OF read_now_keeps [OF assms(1) now] st] assms(2) now st show ?thesis
    by (auto simp: stop_plugin_def Let_def intro: emit_statuses_keeps)
qed

lemma load_plugin_keeps:
  assumes "P s" "load_plugin (publish_event n ops) fl pc s = Some (er, s')"
  shows "P s'"
proof (cases "\<exists>mf. pcEnabled pc \<and> pcManifest pc \<noteq> [] \<and> load_manifest fl (pcManifest pc) = Inr mf")
  case False
  with assms show ?thesis by (auto simp: load_plugin_def split: if_splits sum.splits)
next
  case True
  then obtain mf where mf: "pcEnabled pc" "pcManifest pc \<noteq> []" "load_manifest fl (pcManifest pc) = Inr mf" by blast
  obtain p s1 where o: "read_order s = (p, s1)" by (meson surj_pair)
  have P1: "P s1" by (rule read_order_keeps [OF assms(1) o])
  show ?thesis
  proof (cases "sv_register (spec_of fl p pc mf) (rs_supervisor s1)")
    case (Inl e)
    with assms(2) mf o P1 show ?thesis by (simp add: load_plugin_def Let_def)
  next
    case (Inr sv)
    with assms(2) mf o obtain er' s2 where st: "start_plugin (publish_event n ops) (mfID (mnManifest mf))
        (s1\<lparr>rs_supervisor := sv\<rparr>) = Some (er', s2)"
      by (auto simp: load_plugin_def Let_def split: option.splits)
    have "P s2" by (rule start_plugin_keeps [OF keeps_register [OF P1 Inr] st])
    with assms(2) mf o Inr st show ?thesis
      by (auto simp: load_plugin_def Let_def split: option.splits prod.splits intro: keeps_router)
  qed
qed

lemma load_plugins_keeps:
  "P s \<Longrightarrow> load_plugins (publish_event n ops) fl pcs s = Some (er, s') \<Longrightarrow> P s'"
  by (induction pcs arbitrary: s) (auto split: option.splits dest: load_plugin_keeps)

lemma configure_begin_keeps:
  "P s \<Longrightarrow> configure_begin (publish_event n ops) fl i b env s = Some (r, s') \<Longrightarrow> P s'"
  by (auto simp: configure_begin_def Let_def split: if_splits prod.splits
      intro: keeps_plugins stop_plugin_keeps)

lemma configure_end_keeps:
  "P s \<Longrightarrow> configure_end (publish_event n ops) i s = Some s' \<Longrightarrow> P s'"
  by (auto simp: configure_end_def intro: start_plugin_keeps)

end

end
