(* ===== verification/RuntimeReach.thy ===== *)
theory RuntimeReach
  imports RuntimeSteps
begin

text \<open>The steps of the runtime, the states they reach, and what holds in all of them.\<close>

section \<open>The laws extended to all operations\<close>

interpretation invariant_all: runtime_keeps_all ops m "\<lambda>s. rs_mode s = m \<and> rt_inv s" for ops m
proof unfold_locales
  fix s :: "'a runtime" and i t ar as
  assume "rs_mode s = m \<and> rt_inv s" "as_update_status i t (rs_actions s) = (ar, as)"
  moreover from this have "as_wf as"
    using as_wf_update_status [of "rs_actions s" i t] by (simp add: rt_inv_def)
  ultimately show "rs_mode (s\<lparr>rs_actions := as\<rparr>) = m \<and> rt_inv (s\<lparr>rs_actions := as\<rparr>)"
    by (simp add: rt_inv_def)
next
  fix s :: "'a runtime" and c a xr mx
  assume "rs_mode s = m \<and> rt_inv s" "mx_execute c a (rs_executor s) = (xr, mx)"
  moreover from this have "mx_wf mx"
    using mx_wf_execute [of "rs_executor s" c a] by (simp add: rt_inv_def)
  ultimately show "rs_mode (s\<lparr>rs_executor := mx\<rparr>) = m \<and> rt_inv (s\<lparr>rs_executor := mx\<rparr>)"
    by (simp add: rt_inv_def)
qed (auto simp: rt_inv_def intro: sv_stop_wf sv_call_wf sv_start_wf sv_register_wf)

interpretation spawning_all: runtime_keeps_all ops m "\<lambda>s. rs_mode s = m \<and> spawned_since m base s"
  for ops m base
  by unfold_locales (auto intro: spawned_since_same)

section \<open>Steps\<close>

text \<open>
  \<open>LLife\<close> is what the plugins do on their own: a step of one plugin's lifecycle, and the
  report of a status to the runtime; \<open>LRead\<close> is a read of the clock or of the order of a map.
\<close>

datatype label = LEmit | LPlugin | LApprove string | LDeny string | LExecute | LHealth | LReload | LLife | LRead

inductive rt_step :: "'d ops \<Rightarrow> 'd runtime \<Rightarrow> label \<Rightarrow> 'd runtime \<Rightarrow> bool" for ops where
  emit: "emit_event (publish_event n ops) e s = Some (er, s') \<Longrightarrow> rt_step ops s LEmit s'"
| plugin: "handle_plugin_request (publish_event n ops) ops rq s = Some (rep, s') \<Longrightarrow> rt_step ops s LPlugin s'"
| approve: "approve_action (publish_event n ops) ops i s = Some (r, s') \<Longrightarrow> rt_step ops s (LApprove i) s'"
| deny: "deny_action (publish_event n ops) ops i s = Some (r, s') \<Longrightarrow> rt_step ops s (LDeny i) s'"
| execute: "run_spawned (publish_event n ops) ops k s = Some s' \<Longrightarrow> rt_step ops s LExecute s'"
| health: "health_round (publish_event n ops) fails s = Some (fails', s') \<Longrightarrow> rt_step ops s LHealth s'"
| reload: "reload_workflows ops ws s = (er, s') \<Longrightarrow> rt_step ops s LReload s'"
| toggle: "toggle_workflow b ops i s = (er, s') \<Longrightarrow> rt_step ops s LReload s'"
| life: "sv_get (rs_supervisor s) i = Some p \<Longrightarrow> proc_step p p' \<Longrightarrow>
    rt_step ops s LLife (s\<lparr>rs_supervisor := sv_put i p' (rs_supervisor s)\<rparr>)"
| configure: "configure_begin (publish_event n ops) fl i b env s = Some (r, s') \<Longrightarrow> rt_step ops s LPlugin s'"
| configured: "configure_end (publish_event n ops) i s = Some s' \<Longrightarrow> rt_step ops s LPlugin s'"
| report: "handle_plugin_status (publish_event n ops) st s = Some s' \<Longrightarrow> rt_step ops s LLife s'"
| observe: "rt_step ops s LRead (tick s)"

inductive rt_reachable :: "'d ops \<Rightarrow> 'd runtime \<Rightarrow> 'd runtime \<Rightarrow> bool" for ops s0 where
  start: "rt_reachable ops s0 s0"
| step: "rt_reachable ops s0 s \<Longrightarrow> rt_step ops s l s' \<Longrightarrow> rt_reachable ops s0 s'"

section \<open>The invariant along every run\<close>

lemma proc_step_id: "proc_step p p' \<Longrightarrow> pp_id p' = pp_id p"
proof (induction rule: proc_step.induct)
  case (start failure now p er st p')
  then show ?case by (rule proc_start_id)
next
  case (stop now p er st p')
  then show ?case by (rule proc_stop_id)
next
  case (exit n p err now st p')
  then show ?case by (auto simp: monitor_exit_def Let_def)
next
  case (restart p failure now st p')
  then show ?case
    by (auto simp: monitor_restart_def start_locked_def Let_def split: option.splits)
next
  case (health p res now st p')
  then show ?case by (auto simp: health_tick_def Let_def split: option.splits)
next
  case (health_end p)
  then show ?case by (simp add: health_done_def)
next
  case (call env p res p')
  then show ?case by (rule proc_call_id)
qed

lemma rt_inv_unspawn:
  "rt_inv s \<Longrightarrow> rt_inv (s\<lparr>rs_spawned := take k (rs_spawned s) @ drop (Suc k) (rs_spawned s)\<rparr>)"
  by (auto simp: rt_inv_def dest: in_set_takeD in_set_dropD)

lemma approve_inv:
  assumes "approve_action (publish_event n ops) ops i s = Some (r, s')" and "rt_inv s"
  shows "rt_inv s' \<and> rs_mode s' = rs_mode s"
proof -
  let ?P = "\<lambda>t. rs_mode t = rs_mode s \<and> rt_inv t"
  obtain ar as where u: "as_update_status i ''allowed'' (rs_actions s) = (ar, as)" by (meson surj_pair)
  have P1: "?P (s\<lparr>rs_actions := as\<rparr>)"
    by (rule invariant_all.keeps_status [OF _ u]) (use assms(2) in simp)
  show ?thesis
  proof (cases ar)
    case (Inl e)
    with assms(1) u P1 show ?thesis by (auto simp: approve_action_def Let_def)
  next
    case (Inr a)
    then have a: "acStatus a = ''allowed''"
      using u by (auto simp: as_update_status_def Let_def split: option.splits)
    from Inr assms(1) u obtain s2 where s2: "publish_action_status (publish_event n ops) ''action.approved'' a
        (persist_action ops a (s\<lparr>rs_actions := as\<rparr>)) = Some s2"
      and s': "s' = execute_action_async a s2"
      by (auto simp: approve_action_def Let_def split: option.splits)
    have "?P s2"
      by (rule invariant.status_keeps [OF invariant.persist_action_keeps [OF P1] s2])
    with a s' show ?thesis by (auto simp: execute_action_async_def rt_inv_def)
  qed
qed

lemma reload_config: "reload_workflows ops ws s = (er, s') \<Longrightarrow> rs_config s' = rs_config s \<and> rs_spawned s' = rs_spawned s"
proof -
  assume *: "reload_workflows ops ws s = (er, s')"
  have "install_rules t = (er, s') \<Longrightarrow> rs_config s' = rs_config t \<and> rs_spawned s' = rs_spawned t" for t
    using install_rules_frame [of t] by auto
  with * show ?thesis
    by (auto simp: reload_workflows_def split: sum.splits option.splits prod.splits)
qed

lemma toggle_cases:
  "toggle_workflow b ops i s = (er, s') \<Longrightarrow> s' = tick s \<or> (\<exists>ws. reload_workflows ops ws (tick s) = (er, s'))"
  by (auto simp: toggle_workflow_def read_order_def Let_def split: prod.splits if_splits)

lemma rt_inv_tick [simp]: "rt_inv (tick s) = rt_inv s"
  by (simp add: rt_inv_def)

lemma toggle_config: "toggle_workflow b ops i s = (er, s') \<Longrightarrow> rs_config s' = rs_config s \<and> rs_spawned s' = rs_spawned s"
  using toggle_cases [of b ops i s er s'] reload_config [of ops _ "tick s" er s'] by fastforce

lemma toggle_inv: "toggle_workflow b ops i s = (er, s') \<Longrightarrow> rt_inv s \<Longrightarrow> rt_inv s'"
  using toggle_cases [of b ops i s er s'] reload_inv [of ops _ "tick s" er s'] by fastforce

lemma start_inv: "rt_inv s \<Longrightarrow> rs_mode s = rs_mode s \<and> rt_inv s"
  by simp

lemma rt_step_keeps: "rt_step ops s l s' \<Longrightarrow> rt_inv s \<Longrightarrow> rt_inv s' \<and> rs_mode s' = rs_mode s"
proof (induction rule: rt_step.induct)
  case (emit n e s er s')
  from invariant_all.emit_event_keeps [OF start_inv [OF emit(2)] emit(1)] show ?case by simp
next
  case (plugin n rq s rep s')
  from invariant_all.plugin_request_keeps [OF start_inv [OF plugin(2)] plugin(1)] show ?case by simp
next
  case (approve n i s r s')
  then show ?case by (rule approve_inv)
next
  case (deny n i s r s')
  from invariant_all.deny_keeps [OF start_inv [OF deny(2)] deny(1)] show ?case by simp
next
  case (execute n k s s')
  let ?t = "s\<lparr>rs_spawned := take k (rs_spawned s) @ drop (Suc k) (rs_spawned s)\<rparr>"
  show ?case
  proof (cases "k < length (rs_spawned s)")
    case True
    with execute(1) have "execute_action (publish_event n ops) ops (rs_spawned s ! k) ?t = Some s'"
      by (simp add: run_spawned_def)
    from invariant_all.execute_keeps [OF start_inv [OF rt_inv_unspawn [OF execute(2)]] this]
    show ?thesis by simp
  next
    case False
    with execute show ?thesis by (simp add: run_spawned_def)
  qed
next
  case (health n fails s fails' s')
  from invariant_all.health_round_keeps [OF start_inv [OF health(2)] health(1)] show ?case by simp
next
  case (reload ws s er s')
  with reload_config [OF reload(1)] reload_inv [OF reload(1)] show ?case by simp
next
  case (toggle b i s er s')
  with toggle_config [OF toggle(1)] toggle_inv [OF toggle(1)] show ?case by simp
next
  case (life s i p p')
  then have "sv_wf (sv_put i p' (rs_supervisor s))"
    by (intro sv_put_step [OF _ life(1,2)] proc_step_id [OF life(2)]) (simp add: rt_inv_def)
  with life show ?case by (simp add: rt_inv_def)
next
  case (configure n fl i b env s r s')
  from invariant_all.configure_begin_keeps [OF start_inv [OF configure(2)] configure(1)] show ?case by simp
next
  case (configured n i s s')
  from invariant_all.configure_end_keeps [OF start_inv [OF configured(2)] configured(1)] show ?case by simp
next
  case (report n st s s')
  from invariant.plugin_status_keeps [OF start_inv [OF report(2)] report(1)] show ?case by simp
next
  case (observe s)
  then show ?case by simp
qed

lemma rt_reachable_inv: "rt_reachable ops s0 s \<Longrightarrow> rt_inv s0 \<Longrightarrow> rt_inv s \<and> rs_mode s = rs_mode s0"
  by (induction rule: rt_reachable.induct) (auto dest: rt_step_keeps)

section \<open>Who starts executions\<close>

text \<open>
  Every execution that a step other than an approval starts is one the gate allows in the
  mode of the runtime.
\<close>

definition new_allowed :: "'d runtime \<Rightarrow> 'd runtime \<Rightarrow> bool" where
  "new_allowed s s' \<longleftrightarrow> (\<forall>a \<in> set (rs_spawned s'). a \<in> set (rs_spawned s) \<or> fst (gate_decide (rs_mode s) a) = ''allowed'')"

lemma spawned_since_start: "rs_mode s = rs_mode s \<and> spawned_since (rs_mode s) (rs_spawned s) s"
  by (auto simp: spawned_since_def intro: exI [of _ "[]"])

lemma spawned_since_new: "spawned_since (rs_mode s) (rs_spawned s) s' \<Longrightarrow> new_allowed s s'"
  by (auto simp: spawned_since_def new_allowed_def)

lemma rt_step_spawns:
  assumes "rt_step ops s l s'" and "\<nexists>i. l = LApprove i"
  shows "new_allowed s s'"
  using assms
proof (induction rule: rt_step.induct)
  case (emit n e s er s')
  then show ?case using spawning_all.emit_event_keeps [OF spawned_since_start]
    by (blast intro: spawned_since_new)
next
  case (plugin n rq s rep s')
  then show ?case using spawning_all.plugin_request_keeps [OF spawned_since_start]
    by (blast intro: spawned_since_new)
next
  case (deny n i s r s')
  then show ?case using spawning_all.deny_keeps [OF spawned_since_start]
    by (blast intro: spawned_since_new)
next
  case (execute n k s s')
  let ?t = "s\<lparr>rs_spawned := take k (rs_spawned s) @ drop (Suc k) (rs_spawned s)\<rparr>"
  show ?case
  proof (cases "k < length (rs_spawned s)")
    case True
    with execute have "execute_action (publish_event n ops) ops (rs_spawned s ! k) ?t = Some s'"
      by (simp add: run_spawned_def)
    from spawning_all.execute_keeps [OF spawned_since_start this] have "new_allowed ?t s'"
      by (blast intro: spawned_since_new)
    then show ?thesis by (auto simp: new_allowed_def dest: in_set_takeD in_set_dropD)
  next
    case False
    with execute show ?thesis by (simp add: run_spawned_def new_allowed_def)
  qed
next
  case (health n fails s fails' s')
  then show ?case using spawning_all.health_round_keeps [OF spawned_since_start]
    by (blast intro: spawned_since_new)
next
  case (reload ws s er s')
  from reload_config [OF reload(1)] show ?case by (simp add: new_allowed_def)
next
  case (toggle b i s er s')
  from toggle_config [OF toggle(1)] show ?case by (simp add: new_allowed_def)
next
  case (configure n fl i b env s r s')
  then show ?case using spawning_all.configure_begin_keeps [OF spawned_since_start]
    by (blast intro: spawned_since_new)
next
  case (configured n i s s')
  then show ?case using spawning_all.configure_end_keeps [OF spawned_since_start]
    by (blast intro: spawned_since_new)
next
  case (report n st s s')
  then show ?case using spawning.plugin_status_keeps [OF spawned_since_start]
    by (blast intro: spawned_since_new)
qed (auto simp: new_allowed_def)

end
