(* ===== verification/Pipeline.thy ===== *)
theory Pipeline
  imports RuntimeReach
begin

text \<open>
  From an event to the actions it leads to, end to end: when no rule reacts to status events,
  the handler of workflow events stores and starts exactly the requests that the pure function
  \<open>event_requests\<close> computes from the rules.
\<close>

section \<open>Status events of requests, when every rule is silent\<close>

definition status_event :: "event \<Rightarrow> bool" where
  "status_event e \<longleftrightarrow> evType e = ''action.requested'' \<and> evSource e = ''core.runtime''"

text \<open>A session may get a new time of its last update, and sessions may be added.\<close>

definition sessions_kept :: "session_manager \<Rightarrow> session_manager \<Rightarrow> bool" where
  "sessions_kept m m' \<longleftrightarrow>
     (\<forall>i x. sm_look m i = Some x \<longrightarrow> (\<exists>t. sm_look m' i = Some (x\<lparr>ssUpdatedAt := t\<rparr>)))"

lemma same_updated [simp]: "\<exists>t. x = x\<lparr>ssUpdatedAt := t\<rparr>" for x :: session
  by (rule exI [of _ "ssUpdatedAt x"]) simp

lemma sessions_kept_refl [simp]: "sessions_kept m m"
  by (simp add: sessions_kept_def)

lemma sessions_kept_trans: "sessions_kept a b \<Longrightarrow> sessions_kept b c \<Longrightarrow> sessions_kept a c"
  by (fastforce simp: sessions_kept_def)

lemma sessions_kept_create: "sm_create x m = Inr m' \<Longrightarrow> sessions_kept m m'"
proof -
  assume c: "sm_create x m = Inr m'"
  have "sm_look m i = Some y \<Longrightarrow> sm_look m' i = Some y" for i y
    using session_table.register_keeps [OF c] .
  then show ?thesis by (auto simp: sessions_kept_def)
qed

lemma sessions_kept_update:
  assumes "sm_update (x\<lparr>ssUpdatedAt := t\<rparr>) m = Inr m'" "sm_look m (ssID x) = Some x"
  shows "sessions_kept m m'"
  using assms by (auto simp: sessions_kept_def sm_update_look [OF assms(1)])

text \<open>What a status event leaves alone, and a property of the database that saving events and sessions keeps.\<close>

definition same_core :: "'d runtime \<Rightarrow> 'd runtime \<Rightarrow> bool" where
  "same_core s t \<longleftrightarrow>
     rs_config t = rs_config s \<and> rs_actions t = rs_actions s \<and> rs_registry t = rs_registry s \<and>
     rs_engine t = rs_engine s \<and> rs_executor t = rs_executor s \<and> rs_supervisor t = rs_supervisor s \<and>
     rs_router t = rs_router s \<and> rs_spawned t = rs_spawned s \<and>
     sm_wf (rs_sessions t) \<and> sessions_kept (rs_sessions s) (rs_sessions t)"

definition stored :: "('d \<Rightarrow> bool) \<Rightarrow> 'd runtime \<Rightarrow> bool" where
  "stored Q s \<longleftrightarrow> (case rs_storage s of None \<Rightarrow> True | Some d \<Rightarrow> Q d)"

definition log_keeps :: "'d ops \<Rightarrow> ('d \<Rightarrow> bool) \<Rightarrow> bool" where
  "log_keeps ops Q \<longleftrightarrow>
     (\<forall>e d. Q d \<longrightarrow> Q (snd (op_save_event ops e d))) \<and> (\<forall>x d. Q d \<longrightarrow> Q (snd (op_save_session ops x d)))"

lemma log_keeps_True [simp]: "log_keeps ops (\<lambda>_. True)" "stored (\<lambda>_. True) s"
  by (simp_all add: log_keeps_def stored_def split: option.split)

lemma same_core_refl: "sm_wf (rs_sessions s) \<Longrightarrow> same_core s s"
  by (simp add: same_core_def)

lemma same_core_trans: "same_core a b \<Longrightarrow> same_core b c \<Longrightarrow> same_core a c"
  by (auto simp: same_core_def intro: sessions_kept_trans)

lemma same_core_tick [simp]: "same_core s (tick t) = same_core s t" "stored Q (tick t) = stored Q t"
  by (simp_all add: same_core_def stored_def)

lemma session_tracking_core:
  assumes "handle_session_tracking ops e t = (er, t')" and "same_core s t" "stored Q t" and "log_keeps ops Q"
  shows "same_core s t' \<and> stored Q t'"
proof (cases "evSessionID e = []")
  case True
  with assms show ?thesis by (simp add: handle_session_tracking_def)
next
  case False
  have wf: "sm_wf (rs_sessions t)" using assms(2) by (simp add: same_core_def)
  have save: "same_core s (save_session ops x u) \<and> stored Q (save_session ops x u)"
    if "same_core s u" "stored Q u" for u x
    using that assms(4) by (auto simp: save_session_def same_core_def stored_def log_keeps_def split: option.split)
  have sess: "same_core s (u\<lparr>rs_sessions := m\<rparr>) \<and> stored Q (u\<lparr>rs_sessions := m\<rparr>)"
    if "same_core s u" "stored Q u" "sm_wf m" "sessions_kept (rs_sessions u) m" for u m
    using that by (auto simp: same_core_def stored_def intro: sessions_kept_trans)
  show ?thesis
  proof (cases "sm_look (rs_sessions t) (evSessionID e)")
    case None
    let ?x = "\<lparr>ssID = evSessionID e, ssChannel = evSource e, ssParticipants = [],
        ssMessages = [], ssState = ''active'', ssMetadata = [],
        ssCreatedAt = fst (read_now t), ssUpdatedAt = fst (read_now (snd (read_now t)))\<rparr>"
    let ?u = "tick (tick t)"
    have u: "same_core s ?u" "stored Q ?u" using assms(2,3) by simp_all
    show ?thesis
    proof (cases "sm_create ?x (rs_sessions ?u)")
      case (Inl e')
      with False None assms(1) u show ?thesis
        by (auto simp: handle_session_tracking_def sm_get_look read_now_def)
    next
      case (Inr m)
      have "sm_wf m" "sessions_kept (rs_sessions ?u) m"
        using sm_create_wf [OF Inr] sessions_kept_create [OF Inr] wf by simp_all
      with save sess u False None assms(1) Inr show ?thesis
        by (auto simp: handle_session_tracking_def sm_get_look read_now_def)
    qed
  next
    case (Some x)
    let ?x = "x\<lparr>ssUpdatedAt := fst (read_now t)\<rparr>" and ?u = "tick t"
    have u: "same_core s ?u" "stored Q ?u" using assms(2,3) by simp_all
    have x: "sm_look (rs_sessions ?u) (ssID x) = Some x"
      using Some wf by (simp add: sm_wf_def)
    show ?thesis
    proof (cases "sm_update ?x (rs_sessions ?u)")
      case (Inl e')
      with save u False Some assms(1) show ?thesis
        by (auto simp: handle_session_tracking_def sm_get_look read_now_def)
    next
      case (Inr m)
      have "sm_wf m" "sessions_kept (rs_sessions ?u) m"
        using sm_update_wf [OF Inr] sessions_kept_update [OF Inr x] wf by simp_all
      with save sess u False Some assms(1) Inr show ?thesis
        by (auto simp: handle_session_tracking_def sm_get_look read_now_def)
    qed
  qed
qed

lemma status_no_request:
  assumes "\<forall>r \<in> set (en_rules (rs_engine t)). silent r" "status_event e"
  shows "\<exists>er. handle_workflow_event publish ops e t = Some (er, tick t)"
proof -
  have "\<forall>r \<in> set (en_rules (rs_engine t)). \<not> rule_matches r e x" for x
    using assms silent_no_match by (auto simp: status_event_def)
  then show ?thesis
    by (auto simp: handle_workflow_event_def handle_event_def rt_engine_host_def handle_rules_no_match
        read_order_def split: option.splits)
qed

text \<open>The bus meets its contract for status events with a much stronger invariant.\<close>

lemma status_bus:
  assumes "\<forall>r \<in> set (en_rules (rs_engine s)). silent r" and "log_keeps ops Q"
  shows "bus_system (rt_bus_host (run_handler (Suc n) ops)) (\<lambda>t. same_core s t \<and> stored Q t) status_event"
proof -
  have invoke: "same_core s t' \<and> stored Q t'"
    if e: "status_event e" and t: "same_core s t \<and> stored Q t" and h: "run_handler (Suc n) ops h e t = Some (er, t')"
    for h e t er t'
  proof (cases h)
    case HPersist
    with h t assms(2) show ?thesis
      by (auto simp: handle_persistence_event_def same_core_def stored_def log_keeps_def Let_def
          split: option.splits prod.splits) (metis snd_conv)
  next
    case HWorkflow
    from t assms(1) have "\<forall>r \<in> set (en_rules (rs_engine t)). silent r" by (simp add: same_core_def)
    from status_no_request [OF this e, of "publish_event n ops" ops] HWorkflow h t show ?thesis by auto
  next
    case HSession
    with h have "handle_session_tracking ops e t = (er, t')" by simp
    with t assms(2) session_tracking_core show ?thesis by blast
  qed
  have rec: "same_core s (t\<lparr>rs_bus := b\<rparr>) = same_core s t" "stored Q (t\<lparr>rs_bus := b\<rparr>) = stored Q t" for t b
    by (simp_all add: same_core_def stored_def)
  show ?thesis
    by unfold_locales (auto simp: rt_bus_host_def rec reads intro: invoke dest: invoke)
qed

lemma status_publish:
  assumes "\<forall>r \<in> set (en_rules (rs_engine s)). silent r" and "log_keeps ops Q"
    and "status_event e" "same_core s t" "stored Q t"
  shows "\<exists>er t'. publish_event (Suc n) ops e t = Some (er, t') \<and> same_core s t' \<and> stored Q t'"
proof -
  from assms have "publish_event (Suc n) ops e t \<noteq> None"
    by (intro status_event_returns) (auto simp: same_core_def status_event_def)
  then obtain er t' where p: "publish_event (Suc n) ops e t = Some (er, t')" by auto
  then have "same_core s t' \<and> stored Q t'"
    using assms(3-5) bus_system.publish_inv [OF status_bus [OF assms(1,2)]]
    unfolding publish_event_def by blast
  with p show ?thesis by blast
qed

section \<open>A request\<close>

text \<open>What the gate makes of a request, and whether it starts an execution.\<close>

definition decided :: "mode \<Rightarrow> action \<Rightarrow> action" where
  "decided m a = a\<lparr>acStatus := fst (gate_decide m a)\<rparr>"

definition granted :: "mode \<Rightarrow> action list \<Rightarrow> action list" where
  "granted m as = filter (\<lambda>a. acStatus a = ''allowed'') (map (decided m) as)"

text \<open>The state after a list of requests: \<open>t\<close> differs from \<open>s\<close> by the actions and the executions.\<close>

definition requested_core :: "action list \<Rightarrow> 'd runtime \<Rightarrow> 'd runtime \<Rightarrow> bool" where
  "requested_core as s t \<longleftrightarrow>
     same_core (s\<lparr>rs_actions := fold as_save (map (decided (rs_mode s)) as) (rs_actions s),
                 rs_spawned := rs_spawned s @ granted (rs_mode s) as\<rparr>) t"

lemma requested_core_Nil: "sm_wf (rs_sessions s) \<Longrightarrow> requested_core [] s s"
  by (simp add: requested_core_def granted_def same_core_def)

lemma requested_core_append:
  assumes "requested_core as s t" "requested_core bs t u"
  shows "requested_core (as @ bs) s u"
  using assms by (auto simp: requested_core_def granted_def same_core_def intro: sessions_kept_trans)

lemma requested_core_rules: "requested_core as s t \<Longrightarrow> en_rules (rs_engine t) = en_rules (rs_engine s) \<and>
    rs_engine t = rs_engine s \<and> rs_mode t = rs_mode s \<and> sm_wf (rs_sessions t) \<and>
    sessions_kept (rs_sessions s) (rs_sessions t)"
  by (simp add: requested_core_def same_core_def)

abbreviation known_mode :: "mode \<Rightarrow> bool" where
  "known_mode m \<equiv> m \<in> {mode_dev, mode_local, mode_strict}"

lemma request_silent:
  assumes rules: "\<forall>r \<in> set (en_rules (rs_engine s)). silent r" and valid: "action_validate a = None"
    and mode: "known_mode (rs_mode s)" and wf: "sm_wf (rs_sessions s)"
  shows "\<exists>t. request_action (publish_event (Suc n) ops) ops a s = Some (None, t) \<and> requested_core [a] s t"
proof -
  from valid have "acID a \<noteq> []" "acSource a \<noteq> []" "acStatus a \<noteq> []" "\<not> is_zero (acCreatedAt a)"
    by (auto simp: action_valid_iff action_statuses_def)
  then have c: "complete_action ''workflow'' ''workflow-action'' a s = (a, s)"
    by (rule complete_action_id)
  obtain st err where g: "gate_decide (rs_mode s) a = (st, err)" by (meson surj_pair)
  with mode valid have st: "st \<noteq> []" using gate_undecided [of "rs_mode s" a] by auto
  let ?a = "a\<lparr>acStatus := st\<rparr>"
  let ?s2 = "s\<lparr>rs_actions := as_save ?a (rs_actions s)\<rparr>"
  let ?s3 = "persist_action ops ?a ?s2"
  have dec: "decided (rs_mode s) a = ?a" using g by (simp add: decided_def)
  obtain e s4 where e: "core_event ''action.requested'' ''action.requested'' (acSessionID ?a)
      (status_payload ?a) ?s3 = (e, s4)" by (meson surj_pair)
  have status: "status_event e" and core: "same_core ?s2 s4"
    using e wf
    by (auto simp: core_event_def stamp_def reads status_event_def persist_action_def same_core_def
        split: option.splits)
  obtain er t where p: "publish_event (Suc n) ops e s4 = Some (er, t)" "same_core ?s2 t"
    using status_publish [where s = ?s2 and ops = ops and n = n, OF _ log_keeps_True(1) status core] rules
    by auto
  let ?t = "if st = ''allowed'' then execute_action_async ?a t else t"
  have "request_action (publish_event (Suc n) ops) ops a s = Some (None, ?t)"
    using c g st e p(1)
    by (simp add: request_action_def publish_action_status_def publish_quietly_def Let_def)
  moreover have "requested_core [a] s ?t"
    using p(2) dec by (auto simp: requested_core_def granted_def same_core_def execute_action_async_def)
  ultimately show ?thesis by blast
qed

lemma submit_silent:
  assumes rules: "\<forall>r \<in> set (en_rules (rs_engine s)). silent r" and mode: "known_mode (rs_mode s)"
    and wf: "sm_wf (rs_sessions s)" and valid: "\<forall>a \<in> set as. action_validate a = None"
  shows "\<exists>t. submit_all (Some (request_action (publish_event (Suc n) ops) ops)) as done s =
      Some ((done @ as, None), t) \<and> requested_core as s t"
  using assms
proof (induction as arbitrary: "done" s)
  case Nil
  then show ?case by (simp add: requested_core_Nil)
next
  case (Cons a as)
  from request_silent [OF Cons.prems(1) _ Cons.prems(2,3), of a n ops] Cons.prems(4)
  obtain t where t: "request_action (publish_event (Suc n) ops) ops a s = Some (None, t)" "requested_core [a] s t"
    by auto
  note frame = requested_core_rules [OF t(2)]
  with Cons.IH [of t "done @ [a]"] Cons.prems obtain u where
    "submit_all (Some (request_action (publish_event (Suc n) ops) ops)) as (done @ [a]) t =
      Some ((done @ a # as, None), u)" "requested_core as t u"
    by auto
  with t Cons.prems(4) requested_core_append [OF t(2)] show ?case by fastforce
qed

section \<open>The requests of an event\<close>

fun event_requests ::
  "iter_order \<Rightarrow> event \<Rightarrow> session \<Rightarrow> rule list \<Rightarrow> engine \<Rightarrow> action list \<times> engine" where
  "event_requests p e x [] en = ([], en)"
| "event_requests p e x (r # rs) en =
     (if \<not> rule_matches r e x then event_requests p e x rs en
      else (let (as, en1) = new_requests p r e x (get_actions r) en;
                (bs, en2) = event_requests p e x rs en1
            in (as @ bs, en2)))"

text \<open>The time of a session's last update does not show in a request.\<close>

lemma interpolate_updated [simp]: "interpolate p v e (x\<lparr>ssUpdatedAt := t\<rparr>) = interpolate p v e x"
  by (induction p v e x rule: interpolate.induct) (simp_all add: interpolate_string_def)

lemma new_requests_updated [simp]:
  "new_requests p r e (x\<lparr>ssUpdatedAt := t\<rparr>) was en = new_requests p r e x was en"
  by (induction was arbitrary: en) (simp_all add: new_request_def request_payload_def)

text \<open>The session of an event is stable when it exists or when the event names none.\<close>

definition session_stable :: "event \<Rightarrow> 'd runtime \<Rightarrow> bool" where
  "session_stable e s \<longleftrightarrow> evSessionID e = [] \<or> sm_look (rs_sessions s) (evSessionID e) \<noteq> None"

abbreviation event_session :: "event \<Rightarrow> 'd runtime \<Rightarrow> session" where
  "event_session e s \<equiv>
     (if evSessionID e = [] then zero_session
      else case sm_look (rs_sessions s) (evSessionID e) of None \<Rightarrow> zero_session | Some x \<Rightarrow> x)"

lemma rt_engine_host_engine: "ho_engine (rt_engine_host publish ops) = rs_engine"
  by (simp add: rt_engine_host_def)

lemma resolve_event_session: "resolve_session (rt_engine_host publish ops) e s = event_session e s"
  by (simp add: resolve_session_def rt_engine_host_def sm_get_look split: option.split)

lemma event_session_kept:
  assumes "session_stable e s" "sessions_kept (rs_sessions s) (rs_sessions t)"
  shows "\<exists>u. event_session e t = (event_session e s)\<lparr>ssUpdatedAt := u\<rparr>"
proof (cases "evSessionID e = []")
  case True
  then show ?thesis by (simp add: exI [of _ "ssUpdatedAt zero_session"] zero_session_def)
next
  case False
  with assms(1) obtain x where x: "sm_look (rs_sessions s) (evSessionID e) = Some x"
    by (auto simp: session_stable_def)
  with assms(2) obtain u where "sm_look (rs_sessions t) (evSessionID e) = Some (x\<lparr>ssUpdatedAt := u\<rparr>)"
    by (auto simp: sessions_kept_def)
  with False x show ?thesis by auto
qed

lemma session_stable_kept:
  "session_stable e s \<Longrightarrow> sessions_kept (rs_sessions s) (rs_sessions t) \<Longrightarrow> session_stable e t"
  by (fastforce simp: session_stable_def sessions_kept_def)

text \<open>The state after an event: the requests are made, and the engine has counted them.\<close>

definition served :: "action list \<Rightarrow> engine \<Rightarrow> 'd runtime \<Rightarrow> 'd runtime \<Rightarrow> bool" where
  "served as en s t \<longleftrightarrow> requested_core as (s\<lparr>rs_engine := en\<rparr>) t"

lemma handle_rules_silent:
  assumes "\<forall>r \<in> set (en_rules (rs_engine s)). silent r" "known_mode (rs_mode s)" "sm_wf (rs_sessions s)"
    and "\<forall>r \<in> set rs. rule_validate r = None" "\<And>k. \<not> is_zero (en_now (rs_engine s) k)"
    and "session_stable e s" "event_session e s = x\<lparr>ssUpdatedAt := u\<rparr>"
    and "event_requests p e x rs (rs_engine s) = (as, en)"
  shows "\<exists>t. handle_rules (rt_engine_host (publish_event (Suc n) ops) ops) p e x rs done s =
      Some ((done @ as, None), t) \<and> served as en s t"
  using assms
proof (induction rs arbitrary: "done" s u as)
  case Nil
  then show ?case by (auto simp: served_def requested_core_def granted_def same_core_def)
next
  case (Cons r rs)
  let ?ho = "rt_engine_host (publish_event (Suc n) ops) ops"
  show ?case
  proof (cases "rule_matches r e x")
    case False
    with Cons show ?thesis by simp
  next
    case True
    obtain bs en1 where b: "new_requests p r e x (get_actions r) (rs_engine s) = (bs, en1)" by (meson surj_pair)
    obtain cs where cs: "event_requests p e x rs en1 = (cs, en)" and as: "as = bs @ cs"
      using Cons.prems(8) True b by (auto split: prod.splits)
    let ?s1 = "s\<lparr>rs_engine := en1\<rparr>"
    have en1: "en_rules en1 = en_rules (rs_engine s)" "en_now en1 = en_now (rs_engine s)"
      using new_requests_engine [of p r e x "get_actions r" "rs_engine s"] b by simp_all
    have new: "new_actions ?ho p r e s = (bs, ?s1)"
      using b Cons.prems(7) by (simp add: new_actions_def resolve_event_session) (simp add: rt_engine_host_def)
    have "\<forall>a \<in> set bs. action_validate a = None"
      using new_requests_valid [of r "rs_engine s" p e x] Cons.prems(4,5) b by simp
    with submit_silent [of ?s1 bs n ops "done"] Cons.prems(1-3) en1 obtain t where
      t: "submit_all (Some (request_action (publish_event (Suc n) ops) ops)) bs done ?s1 = Some ((done @ bs, None), t)"
        "requested_core bs ?s1 t"
      by auto
    note frame = requested_core_rules [OF t(2)]
    then have kept: "sessions_kept (rs_sessions s) (rs_sessions t)" and te: "rs_engine t = en1" by simp_all
    from event_session_kept [OF Cons.prems(6) kept] Cons.prems(7)
    obtain v where v: "event_session e t = x\<lparr>ssUpdatedAt := v\<rparr>" by auto
    have "\<exists>u. handle_rules ?ho p e x rs (done @ bs) t = Some (((done @ bs) @ cs, None), u) \<and> served cs en t u"
    proof (rule Cons.IH)
      show "event_session e t = x\<lparr>ssUpdatedAt := v\<rparr>" by (rule v)
      show "session_stable e t" by (rule session_stable_kept [OF Cons.prems(6) kept])
    qed (use frame te en1 cs Cons.prems in simp_all)
    then obtain u where u: "handle_rules ?ho p e x rs (done @ bs) t = Some ((done @ as, None), u)"
      and served: "served cs en t u" by (auto simp: as)
    have "served as en s u"
      using t(2) served te by (auto simp: served_def as requested_core_def same_core_def granted_def
          intro: sessions_kept_trans)
    with True new t(1) u show ?thesis by (simp add: rt_engine_host_def)
  qed
qed

text \<open>The handler implements the pure function.\<close>

lemma workflow_event_silent:
  assumes "\<forall>r \<in> set (en_rules (rs_engine s)). silent r \<and> rule_validate r = None"
    and "known_mode (rs_mode s)" "sm_wf (rs_sessions s)"
    and "\<And>k. \<not> is_zero (en_now (rs_engine s) k)" "session_stable e s" "event_validate e = None"
    and "event_requests (fst (read_order s)) e (event_session e s) (en_rules (rs_engine s)) (rs_engine s) = (as, en)"
  shows "\<exists>t. handle_workflow_event (publish_event (Suc n) ops) ops e s = Some (None, t) \<and> served as en s t"
proof -
  let ?s = "tick s" and ?x = "event_session e s"
  have x: "event_session e ?s = ?x\<lparr>ssUpdatedAt := ssUpdatedAt ?x\<rparr>" by simp
  have stable: "session_stable e ?s" using assms(5) by (simp add: session_stable_def)
  obtain t where "handle_rules (rt_engine_host (publish_event (Suc n) ops) ops) (fst (read_order s)) e ?x
      (en_rules (rs_engine s)) [] ?s = Some (([] @ as, None), t)" "served as en ?s t"
    using handle_rules_silent [OF _ _ _ _ _ stable x, of "en_rules (rs_engine s)" "fst (read_order s)" as en n ops "[]"]
      assms by auto
  then show ?thesis
    using assms(6)
    by (auto simp: handle_workflow_event_def read_order_def handle_event_def resolve_event_session
        served_def requested_core_def same_core_def rt_engine_host_engine)
qed

section \<open>A request of a plugin\<close>

lemma complete_action_core:
  assumes "complete_action src pre a s = (a1, s1)" "sm_wf (rs_sessions s)"
  shows "same_core s s1" "rs_storage s1 = rs_storage s"
  using assms by (auto simp: complete_action_def stamp_def reads same_core_def split: if_splits)

text \<open>
  The request of a plugin is decided, kept in memory, announced and, when allowed, started, like
  the request of a workflow; but only the log of events and sessions reaches the database.
\<close>

lemma plugin_action_silent:
  assumes rules: "\<forall>r \<in> set (en_rules (rs_engine s)). silent r" and mode: "known_mode (rs_mode s)"
    and wf: "sm_wf (rs_sessions s)" and json: "op_json_action ops (prParams rq) = Inr a"
    and c: "complete_action (prPluginID rq) (prPluginID rq @ ''-action'') a s = (a1, s1)"
    and valid: "action_validate a1 = None" and log: "log_keeps ops Q" "stored Q s"
  shows "\<exists>t. handle_action_request (publish_event (Suc n) ops) ops rq s = Some (RespAction (decided (rs_mode s) a1), t) \<and>
    requested_core [a1] s t \<and> stored Q t"
proof -
  note c1 = complete_action_core [OF c wf]
  then have mode1: "rs_mode s1 = rs_mode s" by (simp add: same_core_def)
  obtain st err where g: "gate_decide (rs_mode s) a1 = (st, err)" by (meson surj_pair)
  with mode valid have st: "st \<noteq> []" using gate_undecided [of "rs_mode s" a1] by auto
  let ?a = "a1\<lparr>acStatus := st\<rparr>"
  let ?s2 = "s1\<lparr>rs_actions := as_save ?a (rs_actions s1)\<rparr>"
  have dec: "decided (rs_mode s) a1 = ?a" using g by (simp add: decided_def)
  obtain e s3 where e: "core_event (acID ?a @ ''-event'') ''action.requested'' (acSessionID ?a)
      (status_payload ?a) ?s2 = (e, s3)" by (meson surj_pair)
  have "sm_wf (rs_sessions s1)" using c1 by (simp add: same_core_def)
  then have status: "status_event e" and core: "same_core ?s2 s3" and st3: "stored Q s3"
    using e log(2) c1(2)
    by (auto simp: core_event_def stamp_def reads status_event_def same_core_def stored_def)
  obtain er t where p: "publish_event (Suc n) ops e s3 = Some (er, t)" "same_core ?s2 t" "stored Q t"
    using status_publish [where s = ?s2 and ops = ops and n = n, OF _ log(1) status core st3] rules c1
    by (auto simp: same_core_def)
  let ?t = "if st = ''allowed'' then execute_action_async ?a t else t"
  have "handle_action_request (publish_event (Suc n) ops) ops rq s = Some (RespAction ?a, ?t)"
    using json c g st e p(1) mode1
    by (simp add: handle_action_request_def publish_quietly_def Let_def)
  moreover have "requested_core [a1] s ?t"
    using p(2) dec c1 by (auto simp: requested_core_def granted_def same_core_def execute_action_async_def
        intro: sessions_kept_trans)
  moreover have "stored Q ?t" using p(3) by (simp add: stored_def execute_action_async_def)
  ultimately show ?thesis using dec by auto
qed

end
