(* ===== verification/Samples.thy ===== *)
theory Samples
  imports Pipeline
begin

text \<open>Concrete values on which the properties are exercised.\<close>

definition sample_time :: gotime where
  "sample_time = utc 1"

lemma sample_time [simp]: "\<not> is_zero sample_time"
  by (simp add: sample_time_def)

definition sample_action :: "string \<Rightarrow> action" where
  "sample_action r =
     \<lparr>acID = ''a1'', acType = ''send_message'', acRisk = r, acStatus = ''requested'', acSource = ''web'',
      acSessionID = [], acTraceID = [], acDepth = 0, acPayload = [], acCreatedAt = sample_time\<rparr>"

lemma sample_texts [simp]:
  "\<not> blank ''a1''" "\<not> blank ''send_message''" "\<not> blank ''web''" "\<not> blank ''e1''" "\<not> blank ''m1''"
  "\<not> blank ''s1''" "\<not> blank ''r1''" "\<not> blank ''w1''" "\<not> blank ''u1''" "\<not> blank ''p1''" "\<not> blank ''cap''"
  "\<not> blank ''*''" "\<not> blank ''text.received''"
  by code_simp+

lemma sample_action_valid [simp]: "r \<in> set risks \<Longrightarrow> action_validate (sample_action r) = None"
  using sample_texts
  by (simp add: action_validate_def sample_action_def action_statuses_def del: sample_texts)

lemma sample_action_risk [simp]: "acRisk (sample_action r) = r" "acStatus (sample_action r) = ''requested''"
    "acID (sample_action r) = ''a1''" "acDepth (sample_action r) = 0" "acType (sample_action r) = ''send_message''"
  by (simp_all add: sample_action_def)

lemma sample_risks [simp]: "''low'' \<in> set risks" "''medium'' \<in> set risks" "''high'' \<in> set risks"
  by (simp_all add: risks_def)

definition sample_event :: event where
  "sample_event =
     \<lparr>evID = ''e1'', evType = ''text.received'', evSource = ''web'', evSessionID = [], evTraceID = [],
      evDepth = 0, evPayload = [], evCreatedAt = sample_time\<rparr>"

lemma sample_event_valid [simp]: "event_validate sample_event = None"
  using sample_texts by (simp add: event_validate_def sample_event_def del: sample_texts)

lemma sample_event_fields [simp]: "evDepth sample_event = 0" "evSessionID sample_event = []"
    "evType sample_event = ''text.received''"
  by (simp_all add: sample_event_def)

definition sample_message :: message where
  "sample_message =
     \<lparr>msID = ''m1'', msSessionID = ''s1'', msAuthorID = ''u1'', msText = ''hi'', msDirection = ''inbound'',
      msSource = ''web'', msMetadata = [], msCreatedAt = sample_time\<rparr>"

definition sample_session :: session where
  "sample_session =
     \<lparr>ssID = ''s1'', ssChannel = ''web'', ssParticipants = [], ssMessages = [], ssState = ''active'',
      ssMetadata = [], ssCreatedAt = sample_time, ssUpdatedAt = sample_time\<rparr>"

lemma sample_session_valid [simp]: "session_validate sample_session = None"
  using sample_texts by (simp add: session_validate_def sample_session_def del: sample_texts)

lemma sample_message_valid [simp]: "message_validate sample_message = None"
  using sample_texts by (simp add: message_validate_def sample_message_def del: sample_texts)

text \<open>A rule that asks for one action when an event of a type arrives.\<close>

definition sample_rule :: "string \<Rightarrow> string \<Rightarrow> rule" where
  "sample_rule t r =
     \<lparr>rlID = ''r1'', rlName = [], rlEnabled = True,
      rlTrigger = \<lparr>tgEventType = t, tgSource = [], tgConditions = []\<rparr>, rlAction = None,
      rlActions = [\<lparr>waType = ''send_message'', waRisk = r, waPayload = []\<rparr>]\<rparr>"

lemma sample_rule_valid: "\<not> blank t \<Longrightarrow> r \<in> set risks \<Longrightarrow> rule_validate (sample_rule t r) = None"
  using sample_texts by (simp add: rule_valid_iff sample_rule_def get_actions_def del: sample_texts)

definition sample_workflow :: "rule \<Rightarrow> workflow" where
  "sample_workflow r = \<lparr>wfID = ''w1'', wfName = [], wfEnabled = True, wfRules = [r]\<rparr>"

lemma sample_workflow_valid: "rule_validate r = None \<Longrightarrow> workflow_validate (sample_workflow r) = None"
  using sample_texts by (simp add: workflow_valid_iff sample_workflow_def del: sample_texts)

definition sample_manifest :: manifest where
  "sample_manifest =
     \<lparr>mfID = ''p1'', mfName = ''p1'', mfVersion = ''1'', mfRuntime = ''node'', mfEntry = [], mfKind = ''tool'',
      mfPermissions = [], mfCapabilities = [\<lparr>cpName = ''cap'', cpInputSchema = [], cpOutputSchema = []\<rparr>]\<rparr>"

lemma sample_manifest_valid [simp]: "manifest_validate sample_manifest = None"
  by code_simp

end
