(* ===== verification/ComponentProps.thy ===== *)
theory ComponentProps
  imports Samples
begin

text \<open>The properties of the single components, each with an instance that shows it can be used.\<close>

section \<open>The gate\<close>

text \<open>C26: In a known mode, the gate's decision on a valid action is the one of the policy table
  (allowed, confirmed, denied by mode and risk); it reports an error exactly when it denies.\<close>
theorem gate_follows_policy:
  assumes "action_validate a = None" and "m \<in> {mode_dev, mode_local, mode_strict}"
  shows "permission (fst (gate_decide m a)) = policy m (acRisk a) \<and>
    (snd (gate_decide m a) = None \<longleftrightarrow> policy m (acRisk a) \<noteq> 0)"
proof -
  have perm: "permission (fst (gate_decide m a)) = policy m (acRisk a)"
    using assms by (rule gate_policy)
  have "fst (gate_decide m a) \<noteq> []" using assms by (simp add: gate_undecided)
  with gate_status [of m a] have "permission (fst (gate_decide m a)) = 0 \<longleftrightarrow> fst (gate_decide m a) = ''denied''"
    by (auto simp: permission_def)
  with perm gate_err_denied [of m a] \<open>fst (gate_decide m a) \<noteq> []\<close> show ?thesis by auto
qed

theorem gate_follows_policy_witness:
  "permission (fst (gate_decide mode_local (sample_action ''medium''))) = policy mode_local ''medium''"
  using gate_follows_policy [of "sample_action ''medium''" mode_local] by simp

text \<open>A stricter mode or a riskier action never gets a more permissive decision.\<close>
theorem gate_antimono:
  assumes "action_validate a = None" "action_validate b = None"
    and "m \<in> {mode_dev, mode_local, mode_strict}" "m' \<in> {mode_dev, mode_local, mode_strict}"
    and "strictness m \<le> strictness m'" "risk_level (acRisk a) \<le> risk_level (acRisk b)"
  shows "permission (fst (gate_decide m' b)) \<le> permission (fst (gate_decide m a))"
  using assms by (simp only: gate_policy policy_antimono)

theorem gate_antimono_witness:
  "permission (fst (gate_decide mode_strict (sample_action ''high''))) \<le>
     permission (fst (gate_decide mode_local (sample_action ''low'')))"
  using gate_antimono [of "sample_action ''low''" "sample_action ''high''" mode_local mode_strict]
  by (simp add: strictness_def risk_level_def mode_defs)

section \<open>Stores\<close>

text \<open>The pending actions are listed once each, and are exactly the stored actions that wait
  for a decision or a confirmation; updating a status changes that action's status and nothing else.\<close>
theorem pending_exact:
  assumes "valid_order p" "as_wf s"
  shows "distinct (map acID (as_pending p s)) \<and>
    (a \<in> set (as_pending p s) \<longleftrightarrow>
       as_get s (acID a) = Some a \<and> (acStatus a = ''requested'' \<or> acStatus a = ''confirmed'')) \<and>
    as_wf (snd (as_update_status i st s)) \<and>
    as_get (snd (as_update_status i st s)) j =
      (if j = i then map_option (\<lambda>a. a\<lparr>acStatus := st\<rparr>) (as_get s i) else as_get s j)"
  using assms as_list_distinct [OF assms]
  by (auto simp: as_pending_list as_list_set as_get_update_status is_pending_def distinct_map_filter)

theorem pending_exact_witness:
  "sample_action ''low'' \<in> set (as_pending reverse_order (as_save (sample_action ''low'') new_action_store))"
  using pending_exact [of reverse_order "as_save (sample_action ''low'') new_action_store" "sample_action ''low''"]
  by simp

text \<open>Appending a message succeeds exactly for a valid message and a known session; it adds the
  message at the end of that session, keeps the earlier ones in order, touches no other session,
  and the table of sessions stays well formed.\<close>
theorem append_message_correct:
  assumes "sm_wf m" "\<not> is_zero now"
  shows "(is_ok (sm_append_message now i msg m) \<longleftrightarrow> message_validate msg = None \<and> sm_look m i \<noteq> None) \<and>
    (\<forall>m'. sm_append_message now i msg m = Inr m' \<longrightarrow>
       sm_wf m' \<and>
       (\<forall>j. map_option ssMessages (sm_look m' j) =
          (if j = i then map_option (\<lambda>x. ssMessages x @ [msg]) (sm_look m i)
           else map_option ssMessages (sm_look m j))))"
proof (intro conjI allI impI)
  show "is_ok (sm_append_message now i msg m) \<longleftrightarrow> message_validate msg = None \<and> sm_look m i \<noteq> None"
    by (auto simp: sm_append_message_def sm_look_def Let_def split: option.splits)
  fix m' j assume app: "sm_append_message now i msg m = Inr m'"
  then show "sm_wf m'" using assms by (rule sm_append_message_wf)
  from sm_append_message_cases [OF app] show "map_option ssMessages (sm_look m' j) =
      (if j = i then map_option (\<lambda>x. ssMessages x @ [msg]) (sm_look m i)
       else map_option ssMessages (sm_look m j))"
    by (auto simp: sm_look_def)
qed

definition one_session :: session_manager where
  "one_session = \<lparr>sm_sessions = [(''s1'', sample_session)]\<rparr>"

lemma one_session_wf [simp]: "sm_wf one_session"
  by (simp add: sm_wf_def one_session_def sm_look_def wf_map_def) (simp add: sample_session_def)

theorem append_message_correct_witness:
  "is_ok (sm_append_message sample_time ''s1'' sample_message one_session)"
proof -
  have "sm_look one_session ''s1'' \<noteq> None" by (simp add: one_session_def sm_look_def)
  with append_message_correct [of one_session sample_time "''s1''" sample_message] show ?thesis by simp
qed

text \<open>The context given to a model is the header of the session and one line for each of the
  last messages, as many as the builder's limit, in order.\<close>
theorem context_is_last_messages:
  assumes "ssMessages x = old @ recent" "int (length recent) = min n (int (length (ssMessages x)))" "0 < n"
  shows "build_context (new_builder n) x =
    ''Session: '' @ ssID x @ '' ('' @ ssChannel x @ '')'' @ [CHR 0x0A] @ concat (map message_line recent)"
proof -
  have "window n (ssMessages x) = recent"
    using assms by (auto simp: window_def)
  with assms(3) show ?thesis by (simp add: build_context_def new_builder_def Let_def)
qed

theorem context_is_last_messages_witness:
  "build_context (new_builder 1) (sample_session\<lparr>ssMessages := [sample_message, sample_message\<lparr>msText := ''yo''\<rparr>]\<rparr>) =
     ''Session: '' @ ''s1'' @ '' ('' @ ''web'' @ '')'' @ [CHR 0x0A] @
     concat (map message_line [sample_message\<lparr>msText := ''yo''\<rparr>])"
  using context_is_last_messages [of "sample_session\<lparr>ssMessages := [sample_message, sample_message\<lparr>msText := ''yo''\<rparr>]\<rparr>"
      "[sample_message]" "[sample_message\<lparr>msText := ''yo''\<rparr>]" 1]
  by (simp add: sample_session_def)

section \<open>Capabilities\<close>

text \<open>A call reaches a handler exactly when the capability is registered with a handler by the
  plugin that the caller names; otherwise nothing runs and the error says what is missing.\<close>
theorem call_needs_owner:
  shows "(\<forall>i h. map_of (rt_capabilities r) c = Some i \<and> ciPluginID i = pid \<and> ciHandler i = Some h \<longrightarrow>
      router_call invoke r pid c ps s = invoke h ps s) \<and>
    ((\<nexists>i h. map_of (rt_capabilities r) c = Some i \<and> ciPluginID i = pid \<and> ciHandler i = Some h) \<longrightarrow>
      (\<exists>e. router_call invoke r pid c ps s = ((None, Some e), s) \<and>
        (errors_is e err_capability_not_found \<longleftrightarrow> \<not> router_has_capability r c) \<and>
        (errors_is e err_permission_denied \<longleftrightarrow>
           (\<exists>i. map_of (rt_capabilities r) c = Some i \<and> ciPluginID i \<noteq> pid))))"
proof (intro conjI allI impI)
  show "router_call invoke r pid c ps s = invoke h ps s"
    if "map_of (rt_capabilities r) c = Some i \<and> ciPluginID i = pid \<and> ciHandler i = Some h" for i h
    using that by (simp add: router_call_def)
  assume none: "\<nexists>i h. map_of (rt_capabilities r) c = Some i \<and> ciPluginID i = pid \<and> ciHandler i = Some h"
  show "\<exists>e. router_call invoke r pid c ps s = ((None, Some e), s) \<and>
      (errors_is e err_capability_not_found \<longleftrightarrow> \<not> router_has_capability r c) \<and>
      (errors_is e err_permission_denied \<longleftrightarrow>
         (\<exists>i. map_of (rt_capabilities r) c = Some i \<and> ciPluginID i \<noteq> pid))"
  proof (cases "map_of (rt_capabilities r) c")
    case None
    then show ?thesis
      by (simp add: router_call_def router_has_capability_def err_capability_not_found_def err_permission_denied_def)
  next
    case (Some i)
    show ?thesis
    proof (cases "ciPluginID i = pid")
      case True
      with none Some have "ciHandler i = None" by (cases "ciHandler i") auto
      with True Some show ?thesis
        by (simp add: router_call_def router_has_capability_def err_capability_not_found_def err_permission_denied_def)
    next
      case False
      with Some show ?thesis
        by (simp add: router_call_def router_has_capability_def err_capability_not_found_def err_permission_denied_def)
    qed
  qed
qed

definition one_cap :: "nat router" where
  "one_cap = \<lparr>rt_capabilities =
     [(''cap'', \<lparr>ciPluginID = ''p1'', ciManifest = sample_manifest, ciHandler = Some 7\<rparr>)]\<rparr>"

theorem call_needs_owner_witness:
  "router_call (\<lambda>h ps s. ((Some h, None), s)) one_cap ''p1'' ''cap'' VNil (0 :: nat) = ((Some 7, None), 0)"
proof -
  have "map_of (rt_capabilities one_cap) ''cap'' =
      Some \<lparr>ciPluginID = ''p1'', ciManifest = sample_manifest, ciHandler = Some 7\<rparr>"
    by (simp add: one_cap_def)
  with call_needs_owner [of one_cap "''cap''" "''p1''" "\<lambda>h ps s. ((Some h, None), s)" VNil "0 :: nat"]
  show ?thesis by simp
qed

text \<open>C39: Registering a plugin succeeds exactly when its manifest is valid, its capabilities are
  pairwise different and none of them is taken; a registered capability is never replaced.\<close>
theorem register_plugin_ok:
  shows "(fst (router_register pid m h r) = None \<longleftrightarrow>
      manifest_validate m = None \<and> distinct (map cpName (mfCapabilities m)) \<and>
      (\<forall>c \<in> set (mfCapabilities m). \<not> router_has_capability r (cpName c))) \<and>
    (\<forall>c i. map_of (rt_capabilities r) c = Some i \<longrightarrow>
       map_of (rt_capabilities (snd (router_register pid m h r))) c = Some i)"
proof (intro conjI allI impI)
  show "fst (router_register pid m h r) = None \<longleftrightarrow>
      manifest_validate m = None \<and> distinct (map cpName (mfCapabilities m)) \<and>
      (\<forall>c \<in> set (mfCapabilities m). \<not> router_has_capability r (cpName c))"
    by (rule router_register_ok)
  show "map_of (rt_capabilities (snd (router_register pid m h r))) c = Some i"
    if "map_of (rt_capabilities r) c = Some i" for c i
    using that router_register_loop_keeps [OF that] by (simp add: router_register_def split: option.split)
qed

theorem register_plugin_ok_witness:
  "fst (router_register ''p1'' sample_manifest (Some (7 :: nat)) new_router) = None"
  using register_plugin_ok [of "''p1''" sample_manifest "Some (7 :: nat)" new_router]
  by (simp add: router_has_capability_def new_router_def) (simp add: sample_manifest_def)

text \<open>Registration is not atomic: when a later capability of the plugin is taken, the call
  reports an error and the earlier ones stay registered.\<close>
theorem register_plugin_partial:
  assumes "manifest_validate m = None" "mfCapabilities m = cs @ d # ds"
    and "distinct (map cpName cs)" "\<forall>c \<in> set cs. \<not> router_has_capability r (cpName c)"
    and "router_has_capability r (cpName d)"
  shows "\<exists>e r'. router_register pid m h r = (Some e, r') \<and>
    (\<forall>x. router_has_capability r' x \<longleftrightarrow> router_has_capability r x \<or> x \<in> cpName ` set cs)"
  using router_register_loop_partial [OF assms(1,5,3,4), of pid h ds] assms(1,2)
  by (simp add: router_register_def)

definition two_caps :: manifest where
  "two_caps = sample_manifest\<lparr>mfCapabilities :=
     [\<lparr>cpName = ''new'', cpInputSchema = [], cpOutputSchema = []\<rparr>,
      \<lparr>cpName = ''cap'', cpInputSchema = [], cpOutputSchema = []\<rparr>]\<rparr>"

theorem register_plugin_partial_witness:
  "\<exists>e r'. router_register ''p2'' two_caps (Some 8) one_cap = (Some e, r') \<and> router_has_capability r' ''new''"
proof -
  have "manifest_validate two_caps = None" by code_simp
  moreover have "mfCapabilities two_caps = [\<lparr>cpName = ''new'', cpInputSchema = [], cpOutputSchema = []\<rparr>] @
      \<lparr>cpName = ''cap'', cpInputSchema = [], cpOutputSchema = []\<rparr> # []"
    by (simp add: two_caps_def)
  moreover have "router_has_capability one_cap ''cap''" "\<not> router_has_capability one_cap ''new''"
    by (simp_all add: one_cap_def router_has_capability_def)
  ultimately show ?thesis
    using register_plugin_partial [of two_caps "[\<lparr>cpName = ''new'', cpInputSchema = [], cpOutputSchema = []\<rparr>]"
        "\<lparr>cpName = ''cap'', cpInputSchema = [], cpOutputSchema = []\<rparr>" "[]" one_cap "''p2''" "Some 8"] by auto
qed

section \<open>Workflows\<close>

text \<open>The rules the registry gives to the engine are exactly the enabled rules of the enabled
  workflows, in whatever order the map is visited, and every one is valid.\<close>
theorem enabled_rules_exact:
  assumes "valid_order p" "wr_wf reg"
  shows "(r \<in> set (wr_enabled_rules p reg) \<longleftrightarrow>
      (\<exists>i w. wr_get reg i = Some w \<and> wfEnabled w \<and> r \<in> set (wfRules w) \<and> rlEnabled r)) \<and>
    (r \<in> set (wr_enabled_rules p reg) \<longrightarrow> rule_validate r = None)"
  using wr_enabled_rules_set [OF assms] wr_enabled_rules_valid [OF assms] by blast

definition one_workflow :: "rule \<Rightarrow> wf_registry" where
  "one_workflow r = \<lparr>wr_workflows = [(''w1'', sample_workflow r)]\<rparr>"

lemma one_workflow_wf: "rule_validate r = None \<Longrightarrow> wr_wf (one_workflow r)"
  using sample_workflow_valid
  by (auto simp: wr_wf_def one_workflow_def wr_get_def wf_map_def sample_workflow_def split: if_splits)

theorem enabled_rules_exact_witness:
  "sample_rule ''text.received'' ''low'' \<in> set (wr_enabled_rules reverse_order (one_workflow (sample_rule ''text.received'' ''low'')))"
proof -
  let ?r = "sample_rule ''text.received'' ''low''"
  have "wr_wf (one_workflow ?r)" by (rule one_workflow_wf) (simp add: sample_rule_valid)
  moreover have "wr_get (one_workflow ?r) ''w1'' = Some (sample_workflow ?r)" "wfEnabled (sample_workflow ?r)"
    "?r \<in> set (wfRules (sample_workflow ?r))" "rlEnabled ?r"
    by (simp_all add: one_workflow_def wr_get_def sample_workflow_def) (simp add: sample_rule_def)
  ultimately show ?thesis
    using enabled_rules_exact [of reverse_order "one_workflow ?r" ?r] by blast
qed

text \<open>C40: A workflow is accepted exactly when it has an identifier and at least one rule, its rule
  identifiers are unique and not blank, and every rule has an event type and actions that have a
  type and a known risk.\<close>
theorem workflow_accepted:
  "workflow_validate w = None \<longleftrightarrow>
     \<not> blank (wfID w) \<and> wfRules w \<noteq> [] \<and> distinct (map rlID (wfRules w)) \<and>
     (\<forall>r \<in> set (wfRules w). \<not> blank (rlID r) \<and> \<not> blank (tgEventType (rlTrigger r)) \<and> get_actions r \<noteq> [] \<and>
        (\<forall>a \<in> set (get_actions r). \<not> blank (waType a) \<and> waRisk a \<in> {''low'', ''medium'', ''high''}))"
  by (auto simp: workflow_valid_iff rule_valid_iff risks_def)

theorem workflow_accepted_witness:
  "workflow_validate (sample_workflow (sample_rule ''text.received'' ''low'')) = None"
  unfolding workflow_accepted
  using sample_texts by (simp add: sample_workflow_def sample_rule_def get_actions_def del: sample_texts)

text \<open>A number of one million or more in a payload is compared in exponent form: no condition
  that asks for the plain digits of the number is ever met by it.\<close>
theorem million_is_not_equal:
  "condition_matches \<lparr>cnField = ''payload.n'', cnOperator = ''equals'', cnValue = ''1000000''\<rparr>
     (sample_event\<lparr>evPayload := [(''n'', VFloat (Dec False [1] 7))]\<rparr>) s = False \<and>
   condition_matches \<lparr>cnField = ''payload.n'', cnOperator = ''equals'', cnValue = ''1e+06''\<rparr>
     (sample_event\<lparr>evPayload := [(''n'', VFloat (Dec False [1] 7))]\<rparr>) s"
proof -
  have "sprint (VFloat (Dec False [1] 7)) = ''1e+06''" by code_simp
  then show ?thesis
    by (simp add: condition_matches_def condition_actual_def condition_holds_def has_prefix_def trim_prefix_def
        sample_event_def)
qed


definition sample_engine :: "rule list \<Rightarrow> engine" where
  "sample_engine rs = \<lparr>en_rules = rs, en_now = (\<lambda>_. sample_time), en_seq = 0\<rparr>"


text \<open>The identifiers of requests start over with every engine: after a restart the same rule
  reuses the identifiers of the requests it made before, whatever the events and the times.\<close>
theorem request_ids_repeat:
  assumes "en_seq en = 0" "en_seq en' = 0"
  shows "map acID (fst (new_requests p r e x was en)) = map acID (fst (new_requests p' r e' x' was en'))"
  using assms by (simp add: new_requests_ids)

theorem request_ids_repeat_witness:
  "acID (fst (new_request insertion_order (sample_rule ''*'' ''low'') sample_event zero_session
      \<lparr>waType = ''send_message'', waRisk = ''low'', waPayload = []\<rparr> (sample_engine []))) =
   acID (fst (new_request insertion_order (sample_rule ''*'' ''low'') (sample_event\<lparr>evID := ''e2''\<rparr>) zero_session
      \<lparr>waType = ''send_message'', waRisk = ''low'', waPayload = []\<rparr> ((sample_engine [])\<lparr>en_now := (\<lambda>_. utc 5)\<rparr>)))"
  using request_ids_repeat [of "sample_engine []" "(sample_engine [])\<lparr>en_now := (\<lambda>_. utc 5)\<rparr>" insertion_order
      "sample_rule ''*'' ''low''" sample_event zero_session
      "[\<lparr>waType = ''send_message'', waRisk = ''low'', waPayload = []\<rparr>]" insertion_order
      "sample_event\<lparr>evID := ''e2''\<rparr>" zero_session]
  by (simp add: sample_engine_def case_prod_beta Let_def)

section \<open>Templates\<close>

text \<open>C28: A template of literal text and placeholders is filled with the meaning of each placeholder,
  independently of the order in which the maps are visited, when no substituted value brings an
  opening brace of its own.\<close>
theorem template_meaning:
  assumes "valid_order p" "plain_context e s" "flat ts"
  shows "interpolate p (VStr (render ts)) e s = VStr (concat (map (meaning e s) ts))"
  using interpolate_string_flat [OF assms] by simp

theorem template_meaning_witness:
  "interpolate reverse_order (VStr ''Hi {{payload.name}} from {{event.source}}'')
     (sample_event\<lparr>evPayload := [(''name'', VStr ''Bo'')]\<rparr>) zero_session = VStr ''Hi Bo from web''"
proof -
  let ?e = "sample_event\<lparr>evPayload := [(''name'', VStr ''Bo'')]\<rparr>"
  let ?ts = "[Lit ''Hi '', Ph ''payload.name'', Lit '' from '', Ph ''event.source'']"
  have "plain_context ?e zero_session" by code_simp
  moreover have "flat ?ts" by code_simp
  moreover have "render ?ts = ''Hi {{payload.name}} from {{event.source}}''" by code_simp
  moreover have "concat (map (meaning ?e zero_session) ?ts) = ''Hi Bo from web''" by code_simp
  ultimately show ?thesis
    using template_meaning [of reverse_order ?e zero_session ?ts] by simp
qed

definition injected_event :: event where
  "injected_event = sample_event\<lparr>evPayload := [(''a'', VStr ''{{payload.b}}''), (''b'', VStr ''secret'')]\<rparr>"

text \<open>A value of the payload is itself searched for placeholders by the replacements that follow
  it: what a payload text turns into depends on the order in which Go visits the map.\<close>
theorem template_injection:
  "interpolate insertion_order (VStr ''{{payload.a}}'') injected_event zero_session = VStr ''secret'' \<and>
   interpolate reverse_order (VStr ''{{payload.a}}'') injected_event zero_session = VStr ''{{payload.b}}''"
  by (intro conjI; code_simp)

section \<open>Execution\<close>

text \<open>The dry-run executor accepts every valid workflow action under a live context, records the
  execution with the action's type and identifier, and never holds a record that is not a completed
  dry run; a cancelled context or an action of another type leaves no record.\<close>
theorem executor_dry_run:
  assumes "mx_wf mx"
  shows "(\<forall>c a. mx_wf (snd (mx_execute c a mx))) \<and>
    (\<forall>a. action_validate a = None \<and> is_workflow_action_type (acType a) \<and> \<not> is_zero (mx_now mx (mx_seq mx + 1)) \<longrightarrow>
      (\<exists>x mx'. mx_execute None a mx = (Inr x, mx') \<and> mx_executions mx' = mx_executions mx @ [x] \<and>
         xcActionID x = acID a \<and> xcType x = acType a \<and> xcDryRun x)) \<and>
    (\<forall>c a. c \<noteq> None \<or> \<not> is_workflow_action_type (acType a) \<longrightarrow>
       (\<exists>er. fst (mx_execute c a mx) = Inl er) \<and> mx_executions (snd (mx_execute c a mx)) = mx_executions mx)"
proof (intro conjI allI impI)
  show "mx_wf (snd (mx_execute c a mx))" for c a using assms by (rule mx_wf_execute)
next
  fix a :: action assume a: "action_validate a = None \<and> is_workflow_action_type (acType a) \<and> \<not> is_zero (mx_now mx (mx_seq mx + 1))"
  then obtain x mx' where x: "mx_execute None a mx = (Inr x, mx')" using mx_execute_total by blast
  from x [unfolded mx_execute_cases] show "\<exists>x mx'. mx_execute None a mx = (Inr x, mx') \<and>
      mx_executions mx' = mx_executions mx @ [x] \<and> xcActionID x = acID a \<and> xcType x = acType a \<and> xcDryRun x"
    using x by (intro exI conjI) (auto simp: mx_new_execution_def Let_def)
next
  fix c :: "error option" and a :: action
  assume *: "c \<noteq> None \<or> \<not> is_workflow_action_type (acType a)"
  then show "\<exists>er. fst (mx_execute c a mx) = Inl er"
    by (auto simp: mx_execute_def split: option.split)
  from * show "mx_executions (snd (mx_execute c a mx)) = mx_executions mx"
    by (auto simp: mx_execute_def split: option.split)
qed

theorem executor_dry_run_witness:
  "\<exists>x mx'. mx_execute None (sample_action ''low'') (new_mock_executor (\<lambda>_. sample_time)) = (Inr x, mx') \<and> xcDryRun x"
proof -
  have "is_workflow_action_type (acType (sample_action ''low''))" "action_validate (sample_action ''low'') = None"
    "\<not> is_zero (mx_now (new_mock_executor (\<lambda>_. sample_time)) n)" for n
    by (simp_all add: is_workflow_action_type_def workflow_action_types_def) (simp add: new_mock_executor_def)
  with executor_dry_run [OF mx_wf_new, of "\<lambda>_. sample_time"] show ?thesis by blast
qed

section \<open>The event bus\<close>

text \<open>C37: Cancelling a subscription undoes it: every other handler of every type, and every wildcard
  handler, is subscribed as before, and cancelling again changes nothing.\<close>
theorem unsubscribe_undoes_subscribe:
  assumes "bus_wf b" "unat (bs_next b) < 2 ^ 64 - 1" "bus_subscribe t (Some h) b = (Inr su, b')"
    and "bus_unsubscribe (Some su) b' = (sub, b'')"
  shows "bs_wildcards b'' = bs_wildcards b \<and> (\<forall>u. typed_handlers b'' u = typed_handlers b u) \<and>
    h \<in> set (map snd (typed_handlers b' t)) \<union> set (map snd (bs_wildcards b')) \<and>
    bus_unsubscribe sub b'' = (sub, b'')"
proof -
  note undo = subscribe_unsubscribe [OF assms(1-3)]
  have "b'' = snd (bus_unsubscribe (Some su) b')" using assms(4) by simp
  moreover have "\<not> su_done su" using assms(3) by (auto simp: bus_subscribe_def Let_def split: if_splits)
  then have "sub = Some (su\<lparr>su_done := True\<rparr>)" using assms(4) by (simp add: bus_unsubscribe_def)
  moreover have "h \<in> set (map snd (typed_handlers b' t)) \<union> set (map snd (bs_wildcards b'))"
    using assms(3) map_of_in_set [of "AList.update i h m" i h for i m]
    by (force simp: bus_subscribe_def Let_def split: if_splits)
  ultimately show ?thesis using undo by (simp add: bus_unsubscribe_def)
qed

theorem unsubscribe_undoes_subscribe_witness:
  "bs_wildcards (snd (bus_unsubscribe (Some \<lparr>su_type = ''t'', su_id = 1, su_done = False\<rparr>)
     (snd (bus_subscribe ''t'' (Some (7 :: nat)) (new_bus 0 10))))) = []"
proof -
  have "bus_subscribe ''t'' (Some (7 :: nat)) (new_bus 0 10) =
      (Inr \<lparr>su_type = ''t'', su_id = 1, su_done = False\<rparr>, snd (bus_subscribe ''t'' (Some 7) (new_bus 0 10)))"
    by (simp add: bus_subscribe_def new_bus_def Let_def)
  moreover have "unat (bs_next (new_bus 0 10)) < 2 ^ 64 - 1" "bs_wildcards (new_bus 0 10) = []"
    by (simp_all add: new_bus_def)
  ultimately show ?thesis
    using unsubscribe_undoes_subscribe [OF bus_wf_new, of 0 10 "''t''" "7 :: nat"] by (metis prod.collapse)
qed

text \<open>The history is a window: after restoring a log and recording more events it holds the last
  ones, as many as its limit, in the order of publication; with a limit of zero or less, none.\<close>
theorem history_is_window:
  "bs_history (fold bus_record es (bus_restore_history log (new_bus t l))) =
     (if l \<le> 0 then [] else drop (length (log @ es) - nat l) (log @ es))"
  (is "bs_history (fold _ _ ?b) = _")
proof -
  have lim: "bs_limit (fold bus_record es b) = bs_limit b" for b :: "'a bus"
    by (induction es arbitrary: b) (auto simp: bus_record_def)
  have fold: "history_of log' b \<Longrightarrow> history_of (log' @ es) (fold bus_record es b)" for log' and b :: "'a bus"
  proof (induction es arbitrary: b log')
    case (Cons e es)
    from Cons.IH [OF history_of_record [OF Cons.prems, of e]] show ?case by simp
  qed simp
  have limit: "bs_limit ?b = l" "bs_limit (new_bus t l) = l"
    by (simp_all add: bus_restore_history_def new_bus_def)
  show ?thesis
  proof (cases "l \<le> 0")
    case True
    then have "history_of [] ?b" using history_of_new [of t l] by (simp add: bus_restore_history_def limit)
    from fold [OF this] True show ?thesis by (simp add: history_of_def lim limit)
  next
    case False
    then have "history_of log ?b" by (intro history_of_restore) (simp add: limit)
    from fold [OF this] False have "bs_history (fold bus_record es ?b) = keep_last l (log @ es)"
      by (simp add: history_of_def lim limit)
    moreover have "keep_last l (log @ es) = drop (length (log @ es) - nat l) (log @ es)"
      using keep_last_nonneg [of "nat l" "log @ es"] False by simp
    ultimately show ?thesis using False by simp
  qed
qed


text \<open>A program whose handlers write down that they were called.\<close>

definition logging_host :: "(nat, nat bus \<times> nat list) bus_host" where
  "logging_host =
     \<lparr>bh_get = fst, bh_set = (\<lambda>b s. (b, snd s)), bh_invoke = (\<lambda>h e s. Some (None, fst s, snd s @ [h])),
      bh_orders = (\<lambda>s. (insertion_order, reverse_order, s)), bh_select = (\<lambda>s. (Finished, s))\<rparr>"


interpretation logging: bus_system logging_host "\<lambda>_. True" "\<lambda>_. True"
  by unfold_locales (simp_all add: logging_host_def)


section \<open>The configuration\<close>

text \<open>Loading a configuration never returns one that is not valid: the mode is known, the limits
  are positive, the plugins and the workflows pass their own checks; without a path it returns the
  defaults.\<close>
theorem load_config_checks:
  "(\<forall>c. load_config read_file decode path = Inr c \<longrightarrow>
      cfMode c \<in> {mode_dev, mode_local, mode_strict} \<and>
      0 < rcRequestTimeout (cfRuntime c) \<and> 0 < rcHealthTimeout (cfRuntime c) \<and>
      0 < rcMaxPayloadSize (cfRuntime c) \<and> 0 < rcMaxEventsPerSecond (cfRuntime c) \<and>
      (\<forall>p \<in> set (cfPlugins c). plugin_config_validate p = None) \<and>
      (\<forall>w \<in> set (cfWorkflows c). workflow_validate w = None)) \<and>
   (blank path \<longrightarrow> load_config read_file decode path = Inr default_config)"
proof (intro conjI impI allI)
  show "load_config read_file decode path = Inr default_config" if "blank path"
    using that by (simp add: load_config_def default_config_valid)
qed (drule load_config_valid, simp add: config_valid_iff)+

theorem load_config_checks_witness:
  "load_config (\<lambda>_. Inl (New ''no file'')) (\<lambda>_ c. Inr c) '' '' = Inr default_config"
proof -
  have "blank '' ''" by code_simp
  with load_config_checks [of "\<lambda>_. Inl (New ''no file'')" "\<lambda>_ c. Inr c" "'' ''"] show ?thesis by blast
qed

text \<open>In a setting of a plugin every reference to a variable is replaced by the variable's value
  (by nothing when it is not set), literal text is kept, and the values are not expanded again.\<close>
theorem environment_expanded:
  assumes "valid_order p" "\<forall>(k, ts) \<in> set settings. list_all env_token_ok ts"
    and "pcEnv pc = map (\<lambda>(k, ts). (k, concat (map env_render ts))) settings"
  shows "mset (resolved_env p lookup pc) =
    mset (map (\<lambda>(k, ts). k @ ''='' @ concat (map (env_meaning lookup) ts)) settings)"
proof -
  have "mset (resolved_env p lookup pc) =
      mset (map (\<lambda>kv. fst kv @ ''='' @ expand_env lookup (snd kv)) (pcEnv pc))"
    using assms(1) by (simp add: resolved_env_def del: append.simps)
  also have "map (\<lambda>kv. fst kv @ ''='' @ expand_env lookup (snd kv)) (pcEnv pc) =
      map (\<lambda>(k, ts). k @ ''='' @ concat (map (env_meaning lookup) ts)) settings"
    unfolding assms(3) using assms(2) by (auto simp: expand_env_tokens)
  finally show ?thesis .
qed

theorem environment_expanded_witness:
  "resolved_env insertion_order (\<lambda>v. if v = ''HOME'' then Some ''/root'' else None)
     \<lparr>pcManifest = [], pcEnabled = True, pcEnv = [(''P'', ''${HOME}/x'')], pcConfig = [], pcInline = None\<rparr> =
   [''P=/root/x'']"
proof -
  let ?pc = "\<lparr>pcManifest = [], pcEnabled = True, pcEnv = [(''P'', ''${HOME}/x'')], pcConfig = [], pcInline = None\<rparr>"
  let ?lookup = "\<lambda>v. if v = ''HOME'' then Some ''/root'' else None"
  have "list_all env_token_ok [EnvVar ''HOME'', EnvLit ''/x'']" by code_simp
  then have "mset (resolved_env insertion_order ?lookup ?pc) = mset [''P=/root/x'']"
    using environment_expanded [of insertion_order "[(''P'', [EnvVar ''HOME'', EnvLit ''/x''])]" ?pc ?lookup] by simp
  then show ?thesis by simp
qed

section \<open>Plugin processes\<close>

text \<open>C33: Whatever happens to a plugin, it is restarted at most as often as the options say, every
  running operating system process has a monitor of its own that waits for it, and a restart that
  sleeps has been counted.\<close>
theorem restarts_bounded:
  assumes "proc_reachable i opts p"
  shows "0 \<le> pp_restarts p \<and> pp_restarts p \<le> max 0 (poMaxRestarts opts) \<and>
    int (pp_sleeping p) \<le> pp_restarts p \<and> set (pp_alive p) \<subseteq> set (pp_monitors p) \<and> distinct (pp_monitors p)"
proof -
  have "poMaxRestarts (pp_opts p) = poMaxRestarts opts"
    using proc_reachable_opts [OF assms] by (simp add: default_options_def)
  with proc_reachable_wf [OF assms] show ?thesis by (simp add: proc_wf_def)
qed

definition sample_spec :: process_spec where
  "sample_spec = \<lparr>spID = ''p1'', spCommand = ''node'', spArgs = [''/p/index.js''], spDir = ''/p'', spEnv = []\<rparr>"

definition sample_options :: process_options where
  "sample_options =
     \<lparr>poCallTimeout = 0, poHealthInterval = 0, poRestartBackoff = 0, poMaxRestarts = 3,
      poMaxHealthFailures = 0, poMaxPayloadSize = 0\<rparr>"

theorem restarts_bounded_witness:
  "pp_restarts (new_proc sample_spec sample_options) \<le> 3"
  using restarts_bounded [OF proc_reachable.init, of sample_spec sample_options] by (simp add: sample_options_def)

text \<open>The states of a plugin that is started, exits, is started again, ...\<close>

definition after_start :: "proc \<Rightarrow> proc" where
  "after_start p = snd (snd (proc_start None sample_time p))"

definition after_stop :: "proc \<Rightarrow> proc" where
  "after_stop p = snd (snd (proc_stop sample_time p))"

definition after_exit :: "nat \<Rightarrow> proc \<Rightarrow> proc" where
  "after_exit n p = snd (monitor_exit n (Some (New ''signal: killed'')) sample_time p)"

definition after_restart :: "proc \<Rightarrow> proc" where
  "after_restart p = snd (monitor_restart None sample_time p)"

lemmas after_defs = after_start_def after_stop_def after_exit_def after_restart_def

lemma proc_reachable_after:
  "proc_reachable i opts p \<Longrightarrow> proc_reachable i opts (after_start p)"
  "proc_reachable i opts p \<Longrightarrow> proc_reachable i opts (after_stop p)"
  "proc_reachable i opts p \<Longrightarrow> n \<in> set (pp_monitors p) \<Longrightarrow> proc_reachable i opts (after_exit n p)"
  "proc_reachable i opts p \<Longrightarrow> 0 < pp_sleeping p \<Longrightarrow> proc_reachable i opts (after_restart p)"
proof -
  show "proc_reachable i opts (after_start p)" if "proc_reachable i opts p"
    using proc_reachable.step [OF that proc_step.start] by (metis after_start_def prod.collapse)
  show "proc_reachable i opts (after_stop p)" if "proc_reachable i opts p"
    using proc_reachable.step [OF that proc_step.stop] by (metis after_stop_def prod.collapse)
  show "proc_reachable i opts (after_exit n p)" if "proc_reachable i opts p" "n \<in> set (pp_monitors p)"
    using proc_reachable.step [OF that(1) proc_step.exit [OF that(2)]] by (metis after_exit_def prod.collapse)
  show "proc_reachable i opts (after_restart p)" if "proc_reachable i opts p" "0 < pp_sleeping p"
    using proc_reachable.step [OF that(1) proc_step.restart [OF that(2)]] by (metis after_restart_def prod.collapse)
qed

text \<open>Starting a plugin again before the monitor of the process that was stopped has returned
  makes that monitor restart a plugin that runs: two operating system processes of one plugin are
  then alive at the same time.\<close>
theorem two_processes:
  "\<exists>p. proc_reachable sample_spec sample_options p \<and> pp_running p \<and> length (pp_alive p) = 2 \<and> distinct (pp_alive p)"
proof -
  define p1 where "p1 = after_start (new_proc sample_spec sample_options)"
  define p2 where "p2 = after_start (after_stop p1)"
  define p3 where "p3 = after_exit 0 p2"
  define p4 where "p4 = after_restart p3"
  note defs = p1_def p2_def p3_def p4_def after_defs new_proc_def proc_start_def start_locked_def
    proc_stop_def stop_locked_def monitor_exit_def monitor_restart_def ctx_live_def sample_options_def
    default_options_def Let_def
  have "proc_reachable sample_spec sample_options p2"
    unfolding p1_def p2_def by (intro proc_reachable_after proc_reachable.init)
  moreover have "0 \<in> set (pp_monitors p2)" by (simp add: defs)
  ultimately have "proc_reachable sample_spec sample_options p3"
    unfolding p3_def by (rule proc_reachable_after(3))
  moreover have "0 < pp_sleeping p3" by (simp add: defs)
  ultimately have "proc_reachable sample_spec sample_options p4"
    unfolding p4_def by (rule proc_reachable_after(4))
  moreover have "pp_running p4 \<and> pp_alive p4 = [2, 1]" by (simp add: defs)
  ultimately show ?thesis by (intro exI [of _ p4]) simp
qed

text \<open>A restart adds a health loop and ends none: after one crash of the process two loops watch
  the one process that runs, so its failures are counted twice.\<close>
theorem health_loops_accumulate:
  "\<exists>p. proc_reachable sample_spec sample_options p \<and> pp_running p \<and> length (pp_alive p) = 1 \<and> pp_loops p = 2"
proof -
  define p1 where "p1 = after_start (new_proc sample_spec sample_options)"
  define p2 where "p2 = after_exit 0 p1"
  define p3 where "p3 = after_restart p2"
  note defs = p1_def p2_def p3_def after_defs new_proc_def proc_start_def start_locked_def
    monitor_exit_def monitor_restart_def ctx_live_def sample_options_def default_options_def Let_def
  have "proc_reachable sample_spec sample_options p1"
    unfolding p1_def by (intro proc_reachable_after proc_reachable.init)
  moreover have "0 \<in> set (pp_monitors p1)" by (simp add: defs)
  ultimately have "proc_reachable sample_spec sample_options p2"
    unfolding p2_def by (rule proc_reachable_after(3))
  moreover have "0 < pp_sleeping p2" by (simp add: defs)
  ultimately have "proc_reachable sample_spec sample_options p3"
    unfolding p3_def by (rule proc_reachable_after(4))
  moreover have "pp_running p3 \<and> pp_alive p3 = [1] \<and> pp_loops p3 = 2" by (simp add: defs)
  ultimately show ?thesis by (intro exI [of _ p3]) simp
qed

text \<open>C29: A call takes at most three sequence numbers, changes nothing of the plugin but the counter
  and the table of waiting calls, and a result it returns is the successful reply to one of its at
  most three attempts, every earlier one of which timed out.\<close>
theorem call_attempts:
  "(\<exists>n \<le> 3. pp_seq (snd (proc_call env p)) = pp_seq p + of_nat n) \<and>
   (\<exists>seq pending. snd (proc_call env p) = p\<lparr>pp_seq := seq, pp_pending := pending\<rparr>) \<and>
   (\<forall>r. fst (proc_call env p) = Inr r \<longrightarrow>
     (\<exists>j resp. 1 \<le> j \<and> j \<le> 3 \<and> atWait (env j) = Replied resp \<and> rsError resp = None \<and> rsResult resp = r \<and>
       (\<forall>l. 1 \<le> l \<and> l < j \<longrightarrow> (\<exists>e. atWait (env l) = Expired e True))))"
  using call_with_retry_seq [of 1 env p] call_with_retry_frame [of env 1 p] call_with_retry_result [of env 1 p]
  by (auto simp: proc_call_def)

definition late_reply :: "nat \<Rightarrow> attempt" where
  "late_reply k =
     \<lparr>atMarshal = None, atSize = 10, atWrite = None,
      atWait = (if k < 2 then Expired (New ''context deadline exceeded'') True
                else Replied \<lparr>rsID = ''p1-2'', rsResult = ''ok'', rsError = None\<rparr>)\<rparr>"

theorem call_attempts_witness:
  "fst (proc_call late_reply (after_start (new_proc sample_spec sample_options))) = Inr ''ok'' \<and>
   (\<exists>j resp. j \<le> 3 \<and> atWait (late_reply j) = Replied resp)"
proof -
  have "fst (proc_call late_reply (after_start (new_proc sample_spec sample_options))) = Inr ''ok''"
    by (simp add: proc_call_def call_with_retry.simps late_reply_def after_start_def new_proc_def
        proc_start_def start_locked_def sample_options_def default_options_def begin_call_def
        delete_pending_def Let_def)
  with call_attempts [of late_reply "after_start (new_proc sample_spec sample_options)"] show ?thesis by blast
qed

text \<open>A request that is too large, or that cannot be written, fails and leaves its identifier in the
  table of waiting calls, where nothing removes it but a message of the plugin that names it.\<close>
theorem failed_call_leaks:
  assumes "pp_running p" "atMarshal (env 1) = None"
    and "atSize (env 1) + 1 > poMaxPayloadSize (pp_opts p) \<or> atWrite (env 1) \<noteq> None"
  shows "(\<exists>e. fst (proc_call env p) = Inl e) \<and> pp_pending (snd (proc_call env p)) = call_id p # removeAll (call_id p) (pp_pending p)"
  unfolding proc_call_def using assms
  by (subst (1 2) call_with_retry.simps) (auto simp: Let_def begin_call_def split: option.split)

theorem failed_call_leaks_witness:
  "pp_pending (snd (proc_call (\<lambda>_. (late_reply 1)\<lparr>atSize := 2 ^ 20\<rparr>) (after_start (new_proc sample_spec sample_options)))) =
     [call_id (after_start (new_proc sample_spec sample_options))]"
proof -
  let ?p = "after_start (new_proc sample_spec sample_options)"
  have "pp_running ?p" "poMaxPayloadSize (pp_opts ?p) = 1024 * 1024" "pp_pending ?p = []"
    by (simp_all add: after_start_def new_proc_def proc_start_def start_locked_def sample_options_def
        default_options_def Let_def)
  with failed_call_leaks [of ?p "\<lambda>_. (late_reply 1)\<lparr>atSize := 2 ^ 20\<rparr>"] show ?thesis
    by (simp add: late_reply_def)
qed

text \<open>C35: A response is handed to a caller at most once, and only when a call waits under its
  identifier; the message of a plugin that names a method never reaches a caller.\<close>
theorem response_delivered_once:
  assumes "handle_message (Some en) p = (d, p')"
  shows "(\<forall>r. d = ToCaller r \<longrightarrow> enMethod en = [] \<and> enID en \<in> set (pp_pending p) \<and> rsID r = enID en) \<and>
    (enMethod en \<noteq> [] \<longrightarrow> d = ToHandler en \<and> p' = p) \<and>
    (enMethod en = [] \<longrightarrow> enID en \<notin> set (pp_pending p') \<and> handle_message (Some en) p' = (Dropped, p'))"
  using assms by (auto simp: handle_message_def delete_pending_def split: if_splits)

theorem response_delivered_once_witness:
  "fst (handle_message (Some \<lparr>enID = ''x'', enMethod = [], enParams = [], enResult = ''1'', enError = None\<rparr>)
     (snd (handle_message (Some \<lparr>enID = ''x'', enMethod = [], enParams = [], enResult = ''1'', enError = None\<rparr>)
        ((new_proc sample_spec sample_options)\<lparr>pp_pending := [''x'']\<rparr>)))) = Dropped"
  using response_delivered_once
    [of "\<lparr>enID = ''x'', enMethod = [], enParams = [], enResult = ''1'', enError = None\<rparr>"
        "(new_proc sample_spec sample_options)\<lparr>pp_pending := [''x'']\<rparr>", OF prod.collapse [symmetric]]
  by simp

end
