(* ===== verification/SampleRuntime.thy ===== *)
theory SampleRuntime
  imports Samples
begin

text \<open>
  A runtime as \<^verbatim>\<open>New\<close> and \<^verbatim>\<open>Run\<close> build it from a configuration with one workflow, with a
  database that only remembers the actions that were saved.
\<close>

definition sample_world :: world where
  "sample_world =
     \<lparr>wd_now = (\<lambda>_. 1), wd_order = (\<lambda>_. insertion_order), wd_select = (\<lambda>_. Finished), wd_ctx_err = (\<lambda>_. None),
      wd_call = (\<lambda>_ _. \<lparr>atMarshal = None, atSize = 10, atWrite = None,
                       atWait = Replied \<lparr>rsID = [], rsResult = ''1'', rsError = None\<rparr>\<rparr>),
      wd_failure = (\<lambda>_. None), wd_tick = 0\<rparr>"

definition sample_ops :: "action list ops" where
  "sample_ops =
     \<lparr>op_save_event = (\<lambda>e d. (None, d)), op_save_action = (\<lambda>a d. (None, a # d)),
      op_save_session = (\<lambda>x d. (None, d)), op_save_workflow = (\<lambda>w d. (None, d)),
      op_replace_workflows = (\<lambda>ws d. (None, d)), op_list_workflows = (\<lambda>d. Inr []),
      op_list_actions = (\<lambda>n d. Inr []), op_list_sessions = (\<lambda>n d. Inr []), op_list_events = (\<lambda>n d. Inr []),
      op_json_event = (\<lambda>s. Inr sample_event), op_json_action = (\<lambda>s. Inr (sample_action ''low'')),
      op_json = (\<lambda>s. Inl (New ''unexpected end of JSON input''))\<rparr>"

definition sample_config :: "mode \<Rightarrow> rule \<Rightarrow> config" where
  "sample_config m r = default_config\<lparr>cfMode := m, cfSQLitePath := ''db'', cfWorkflows := [sample_workflow r]\<rparr>"

definition created :: "mode \<Rightarrow> rule \<Rightarrow> action list runtime" where
  "created m r = the (new_runtime (\<lambda>_. sample_time) (\<lambda>_. sample_time) sample_world (sample_config m r))"

definition started :: "mode \<Rightarrow> rule \<Rightarrow> action list runtime" where
  "started m r = snd (run_setup (\<lambda>_. Inr []) sample_ops (created m r))"

lemma sample_orders [simp]: "valid_order (wd_order sample_world n)"
  by (simp add: sample_world_def)

lemma created_new:
  "new_runtime (\<lambda>_. sample_time) (\<lambda>_. sample_time) sample_world (sample_config m r) = Some (created m r)"
proof -
  obtain s :: "action list runtime" where
    "new_runtime (\<lambda>_. sample_time) (\<lambda>_. sample_time) sample_world (sample_config m r) = Some s"
    using new_runtime_shape [OF sample_orders] unfolding Let_def by blast
  then show ?thesis by (simp add: created_def)
qed

lemma sample_config_fields [simp]:
  "cfMode (sample_config m r) = m" "cfSQLitePath (sample_config m r) = ''db''"
  "cfWorkflows (sample_config m r) = [sample_workflow r]"
  by (simp_all add: sample_config_def)

lemma created_facts:
  "rt_inv (created m r)" "fresh_bus (rs_bus (created m r))" "rs_config (created m r) = sample_config m r"
  using new_runtime_inv [OF created_new] new_runtime_fresh [OF created_new] by simp_all

lemma created_shape:
  assumes "rule_validate r = None" "rlEnabled r"
  shows "rs_registry (created m r) = \<lparr>wr_workflows = [(''w1'', sample_workflow r)]\<rparr> \<and>
    en_now (rs_engine (created m r)) = (\<lambda>_. sample_time) \<and> rs_world (created m r) = sample_world\<lparr>wd_tick := 1\<rparr> \<and>
    rs_actions (created m r) = new_action_store \<and> rs_sessions (created m r) = new_session_manager \<and>
    rs_supervisor (created m r) = new_supervisor (runtime_options (sample_config m r)) \<and>
    rs_spawned (created m r) = []"
proof -
  have "wr_register (sample_workflow r) new_wf_registry = Inr \<lparr>wr_workflows = [(''w1'', sample_workflow r)]\<rparr>"
    using sample_workflow_valid [OF assms(1)]
    by (simp add: wr_register_def new_wf_registry_def) (simp add: sample_workflow_def)
  then show ?thesis
    using created_new [of m r] new_runtime_shape [of sample_world "\<lambda>_. sample_time" "\<lambda>_. sample_time" "sample_config m r", where 'a = "action list"]
    by (auto simp: Let_def tick_def sample_world_def)
qed

lemma created_rules:
  assumes "rule_validate r = None" "rlEnabled r"
  shows "en_rules (rs_engine (created m r)) = [r] \<and> rs_router (created m r) = new_router"
proof -
  have "wr_register (sample_workflow r) new_wf_registry = Inr \<lparr>wr_workflows = [(''w1'', sample_workflow r)]\<rparr>"
    using sample_workflow_valid [OF assms(1)]
    by (simp add: wr_register_def new_wf_registry_def) (simp add: sample_workflow_def)
  moreover have "enabled_rules (sample_workflow r) = [r]"
    using assms(2) by (simp add: sample_workflow_def enabled_rules_def)
  ultimately show ?thesis
    using created_new [of m r] new_runtime_shape [of sample_world "\<lambda>_. sample_time" "\<lambda>_. sample_time" "sample_config m r", where 'a = "action list"]
    by (auto simp: Let_def tick_def sample_world_def wr_enabled_rules_def)
qed

lemma started_run: "run_setup (\<lambda>_. Inr []) sample_ops (created m r) = (None, started m r)"
proof -
  have "fst (run_setup (\<lambda>_. Inr []) sample_ops (created m r)) = None"
    by (rule run_setup_ok [OF open_storage_ok [OF refl] created_facts(2)])
  then show ?thesis by (simp add: started_def prod_eq_iff)
qed

lemmas started_facts = run_setup_started [OF started_run created_facts(1,2)]

text \<open>The rules of the workflow are in force, and nothing has been requested yet.\<close>

lemma started_shape:
  assumes "rule_validate r = None" "rlEnabled r"
  shows "en_rules (rs_engine (started m r)) = [r] \<and> en_now (rs_engine (started m r)) = (\<lambda>_. sample_time) \<and>
    (\<exists>n. rs_world (started m r) = sample_world\<lparr>wd_tick := n\<rparr>) \<and> rs_storage (started m r) = Some [] \<and>
    rs_actions (started m r) = new_action_store \<and> rs_sessions (started m r) = new_session_manager \<and>
    rs_registry (started m r) = \<lparr>wr_workflows = [(''w1'', sample_workflow r)]\<rparr>"
proof -
  note c = created_shape [OF assms]
  have w: "workflow_validate (sample_workflow r) = None" by (rule sample_workflow_valid [OF assms(1)])
  have id: "wfID (sample_workflow r) = ''w1''" and rules: "enabled_rules (sample_workflow r) = [r]"
    using assms(2) by (simp_all add: sample_workflow_def enabled_rules_def)
  let ?s = "snd (open_storage (\<lambda>_. Inr []) sample_ops (created m r))"
  have "?s = snd (install_rules ((created m r)\<lparr>rs_registry := \<lparr>wr_workflows = [(''w1'', sample_workflow r)]\<rparr>,
      rs_storage := Some [],
      rs_bus := bus_restore_history [] (rs_bus (created m r))\<rparr>))"
    using c w id created_facts(3) [of m r]
    by (simp add: open_storage_def Let_def sample_ops_def wr_register_def)
  then have s: "en_rules (rs_engine ?s) = [r] \<and> en_now (rs_engine ?s) = (\<lambda>_. sample_time) \<and>
      (\<exists>n. rs_world ?s = sample_world\<lparr>wd_tick := n\<rparr>) \<and> rs_storage ?s = Some [] \<and>
      rs_actions ?s = new_action_store \<and> rs_sessions ?s = new_session_manager \<and>
      rs_registry ?s = \<lparr>wr_workflows = [(''w1'', sample_workflow r)]\<rparr>"
    using c rules assms(1)
    by (auto simp: install_rules_def read_order_def wr_enabled_rules_def sample_world_def set_rules_eq tick_def)
  have o: "open_storage (\<lambda>_. Inr []) sample_ops (created m r) = (None, ?s)"
    using open_storage_ok [of "\<lambda>_. Inr []" "created m r" "[]" sample_ops] by (simp add: prod_eq_iff)
  have "fresh_bus (rs_bus ?s)"
    using open_storage_frame [OF o] created_facts(2) [of m r] by (simp add: fresh_bus_def)
  note three = subscribe_three [OF this]
  have "started m r = snd (subscribe_all [HPersist, HWorkflow, HSession] ?s)"
    unfolding started_def run_setup_def by (subst o) simp
  with three s show ?thesis by (simp del: subscribe_all.simps)
qed

lemma sample_started:
  assumes "r \<in> set risks" "\<not> blank t" "m \<in> {mode_dev, mode_local, mode_strict}"
  shows "rule_validate (sample_rule t r) = None" "rlEnabled (sample_rule t r)"
    "en_rules (rs_engine (started m (sample_rule t r))) = [sample_rule t r]"
    "rs_mode (started m (sample_rule t r)) = m" "sm_wf (rs_sessions (started m (sample_rule t r)))"
    "\<not> is_zero (en_now (rs_engine (started m (sample_rule t r))) k)"
    "rs_actions (started m (sample_rule t r)) = new_action_store" "rs_spawned (started m (sample_rule t r)) = []"
proof -
  show v: "rule_validate (sample_rule t r) = None" and e: "rlEnabled (sample_rule t r)"
    using assms sample_rule_valid by (simp_all add: sample_rule_def)
  note shape = started_shape [OF v e, of m]
  show "en_rules (rs_engine (started m (sample_rule t r))) = [sample_rule t r]"
    "\<not> is_zero (en_now (rs_engine (started m (sample_rule t r))) k)"
    "sm_wf (rs_sessions (started m (sample_rule t r)))"
    "rs_actions (started m (sample_rule t r)) = new_action_store"
    using shape by simp_all
  show "rs_mode (started m (sample_rule t r)) = m" "rs_spawned (started m (sample_rule t r)) = []"
    using started_facts(3,4) [of m "sample_rule t r"] created_facts(3) [of m "sample_rule t r"]
      created_shape [OF v e, of m] by simp_all
qed

lemma sample_silent [simp]: "silent (sample_rule ''text.received'' r)"
  by (simp add: silent_def sample_rule_def)

end
