(* ===== verification/PluginFacts.thy ===== *)
theory PluginFacts
  imports RuntimeReach
begin

text \<open>What loading, configuring and stopping plugins does to the supervisor and the router.\<close>

section \<open>Status events leave plugins and routes alone\<close>

lemma emit_statuses_frame:
  assumes "emit_statuses (publish_event n ops) sts s = Some s'"
  shows "rs_supervisor s' = rs_supervisor s \<and> rs_router s' = rs_router s \<and> rs_config s' = rs_config s"
  using config_fixed.emit_statuses_keeps [OF _ assms, of "rs_config s" "rs_registry s" "rs_router s"
      "rs_supervisor s" "rs_executor s" "en_rules (rs_engine s)"] by simp

text \<open>What a start or a stop of one plugin leaves of the others and of the specifications.\<close>

lemma sv_get_put [simp]: "sv_get (sv_put i p s) j = (if j = i then Some p else sv_get s j)"
  by (simp add: sv_get_def sv_put_def)

lemma proc_start_spec: "proc_start f now p = (er, st, p') \<Longrightarrow> pp_spec p' = pp_spec p"
  by (auto simp: proc_start_def start_locked_def Let_def split: if_splits option.splits)

lemma proc_stop_spec: "proc_stop now p = (er, st, p') \<Longrightarrow> pp_spec p' = pp_spec p"
  by (auto simp: proc_stop_def stop_locked_def Let_def split: if_splits option.splits)

lemma proc_start_running: "proc_start f now p = (er, st, p') \<Longrightarrow> pp_running p \<Longrightarrow> pp_running p'"
  by (auto simp: proc_start_def)

lemma sv_start_known: "sv_start f now i s = (er, st, s') \<Longrightarrow> sv_known s' = sv_known s"
  by (rule ext) (auto simp: sv_start_def sv_known_def proc_start_spec split: option.splits prod.splits)

lemma sv_stop_known: "sv_stop now i s = (er, st, s') \<Longrightarrow> sv_known s' = sv_known s"
  by (rule ext) (auto simp: sv_stop_def sv_known_def proc_stop_spec split: option.splits prod.splits)

lemma sv_start_running:
  "sv_start f now i s = (er, st, s') \<Longrightarrow> sv_is_running j s \<Longrightarrow> sv_is_running j s'"
  by (auto simp: sv_start_def sv_is_running_def dest: proc_start_running split: option.splits prod.splits if_splits)

lemma sv_start_ok_running: "sv_start f now i s = (None, st, s') \<Longrightarrow> sv_is_running i s'"
  by (auto simp: sv_start_def sv_is_running_def proc_start_def start_locked_def Let_def
      split: option.splits prod.splits if_splits)

lemma sv_register_running: "sv_register spec s = Inr s' \<Longrightarrow> sv_is_running j s \<Longrightarrow> sv_is_running j s'"
  by (auto simp: sv_register_def sv_is_running_def sv_get_def split: option.splits if_splits)

lemma reads_frame:
  "read_failure s = (f, s1) \<Longrightarrow> rs_supervisor s1 = rs_supervisor s \<and> rs_router s1 = rs_router s \<and> rs_config s1 = rs_config s \<and> rs_engine s1 = rs_engine s"
  "read_now s = (t, s1) \<Longrightarrow> rs_supervisor s1 = rs_supervisor s \<and> rs_router s1 = rs_router s \<and> rs_config s1 = rs_config s \<and> rs_engine s1 = rs_engine s"
  "read_order s = (p, s1) \<Longrightarrow> rs_supervisor s1 = rs_supervisor s \<and> rs_router s1 = rs_router s \<and> rs_config s1 = rs_config s \<and> rs_engine s1 = rs_engine s"
  by (auto simp: read_failure_def read_now_def read_order_def tick_def)

lemma start_plugin_frame:
  assumes "start_plugin (publish_event n ops) i s = Some (er, s')"
  shows "\<exists>f now sts. sv_start f now i (rs_supervisor s) = (er, sts, rs_supervisor s') \<and>
    rs_router s' = rs_router s \<and> rs_config s' = rs_config s"
proof -
  obtain f s1 where f: "read_failure s = (f, s1)" by (meson surj_pair)
  obtain now s2 where now: "read_now s1 = (now, s2)" by (meson surj_pair)
  obtain er' sts sv where st: "sv_start f now i (rs_supervisor s2) = (er', sts, sv)" by (metis prod.exhaust)
  from assms f now st have e: "emit_statuses (publish_event n ops) sts (s2\<lparr>rs_supervisor := sv\<rparr>) = Some s'" "er = er'"
    by (auto simp: start_plugin_def Let_def)
  with emit_statuses_frame [OF e(1)] reads_frame(1) [OF f] reads_frame(2) [OF now] st show ?thesis by auto
qed

lemma stop_plugin_frame:
  assumes "stop_plugin (publish_event n ops) i s = Some (er, s')"
  shows "\<exists>now sts. sv_stop now i (rs_supervisor s) = (er, sts, rs_supervisor s') \<and>
    rs_router s' = rs_router s \<and> rs_config s' = rs_config s"
proof -
  obtain now s2 where now: "read_now s = (now, s2)" by (meson surj_pair)
  obtain er' sts sv where st: "sv_stop now i (rs_supervisor s2) = (er', sts, sv)" by (metis prod.exhaust)
  from assms now st have e: "emit_statuses (publish_event n ops) sts (s2\<lparr>rs_supervisor := sv\<rparr>) = Some s'" "er = er'"
    by (auto simp: stop_plugin_def Let_def)
  with emit_statuses_frame [OF e(1)] reads_frame(2) [OF now] st show ?thesis by auto
qed

section \<open>Loading\<close>

text \<open>A loaded plugin: registered with the specification of its manifest, its capabilities routed to it.\<close>

definition capability_entry :: "manifest \<Rightarrow> capability \<Rightarrow> (string \<times> string) cap_info" where
  "capability_entry m c = \<lparr>ciPluginID = mfID m, ciManifest = m, ciHandler = Some (mfID m, cpName c)\<rparr>"

definition routed :: "manifest \<Rightarrow> (string \<times> string) router \<Rightarrow> bool" where
  "routed m r \<longleftrightarrow> (\<forall>c \<in> set (mfCapabilities m). map_of (rt_capabilities r) (cpName c) = Some (capability_entry m c))"

definition loaded :: "files \<Rightarrow> plugin_config \<Rightarrow> 'd runtime \<Rightarrow> bool" where
  "loaded fl pc s \<longleftrightarrow>
     (\<exists>mf p. load_manifest fl (pcManifest pc) = Inr mf \<and>
        sv_known (rs_supervisor s) (mfID (mnManifest mf)) = Some (spec_of fl p pc mf) \<and>
        sv_is_running (mfID (mnManifest mf)) (rs_supervisor s) \<and> routed (mnManifest mf) (rs_router s))"

text \<open>Loading takes nothing back.\<close>

definition extends :: "'d runtime \<Rightarrow> 'd runtime \<Rightarrow> bool" where
  "extends s s' \<longleftrightarrow>
     (\<forall>i sp. sv_known (rs_supervisor s) i = Some sp \<longrightarrow> sv_known (rs_supervisor s') i = Some sp) \<and>
     (\<forall>i. sv_is_running i (rs_supervisor s) \<longrightarrow> sv_is_running i (rs_supervisor s')) \<and>
     (\<forall>c ci. map_of (rt_capabilities (rs_router s)) c = Some ci \<longrightarrow> map_of (rt_capabilities (rs_router s')) c = Some ci)"

lemma extends_refl [simp]: "extends s s"
  by (simp add: extends_def)

lemma extends_trans: "extends s t \<Longrightarrow> extends t u \<Longrightarrow> extends s u"
  by (simp add: extends_def)

lemma loaded_extends: "loaded fl pc s \<Longrightarrow> extends s s' \<Longrightarrow> loaded fl pc s'"
  unfolding loaded_def extends_def routed_def by blast

lemma load_capabilities_keeps:
  "load_capabilities i m cs r = (er, r') \<Longrightarrow> map_of (rt_capabilities r) c = Some ci \<Longrightarrow>
     map_of (rt_capabilities r') c = Some ci"
proof (induction cs arbitrary: r)
  case (Cons d cs)
  show ?case
  proof (cases "router_register_capability i m (cpName d) (Some (i, cpName d)) r")
    case (Inl e)
    with Cons.prems show ?thesis by simp
  next
    case (Inr r1)
    then have "map_of (rt_capabilities r1) c = Some ci"
      using Cons.prems(2) by (auto simp: router_register_capability_def split: option.splits if_splits)
    with Cons.IH Cons.prems(1) Inr show ?thesis by simp
  qed
qed simp

lemma load_capabilities_routes:
  "load_capabilities (mfID m) m cs r = (None, r') \<Longrightarrow>
     \<forall>c \<in> set cs. map_of (rt_capabilities r') (cpName c) = Some (capability_entry m c)"
proof (induction cs arbitrary: r)
  case (Cons d cs)
  then obtain r1 where r1: "router_register_capability (mfID m) m (cpName d) (Some (mfID m, cpName d)) r = Inr r1"
    "load_capabilities (mfID m) m cs r1 = (None, r')"
    by (auto split: sum.splits)
  then have "map_of (rt_capabilities r1) (cpName d) = Some (capability_entry m d)"
    by (auto simp: router_register_capability_def capability_entry_def split: option.splits)
  with load_capabilities_keeps [OF r1(2)] Cons.IH [OF r1(2)] show ?case by simp
qed simp

lemma load_plugin_effect:
  assumes "load_plugin (publish_event n ops) fl pc s = Some (er, s')"
  shows "extends s s' \<and> rs_config s' = rs_config s \<and>
    (er = None \<and> pcEnabled pc \<and> pcManifest pc \<noteq> [] \<longrightarrow> loaded fl pc s')"
proof (cases "\<exists>mf. pcEnabled pc \<and> pcManifest pc \<noteq> [] \<and> load_manifest fl (pcManifest pc) = Inr mf")
  case False
  with assms show ?thesis by (auto simp: load_plugin_def split: if_splits sum.splits)
next
  case True
  then obtain mf where mf: "pcEnabled pc" "pcManifest pc \<noteq> []" "load_manifest fl (pcManifest pc) = Inr mf" by blast
  obtain p s1 where o: "read_order s = (p, s1)" by (meson surj_pair)
  let ?m = "mnManifest mf" and ?spec = "spec_of fl p pc mf"
  have id: "spID ?spec = mfID ?m" by (simp add: spec_of_def)
  note same = reads_frame(3) [OF o]
  show ?thesis
  proof (cases "sv_register ?spec (rs_supervisor s1)")
    case (Inl e)
    with assms mf o same show ?thesis by (auto simp: load_plugin_def extends_def)
  next
    case (Inr sv)
    with assms mf o obtain er' s2 where st: "start_plugin (publish_event n ops) (mfID ?m) (s1\<lparr>rs_supervisor := sv\<rparr>) = Some (er', s2)"
      by (auto simp: load_plugin_def Let_def split: option.splits)
    obtain cer r where r: "load_capabilities (mfID ?m) ?m (mfCapabilities ?m) (rs_router s2) = (cer, r)" by (meson surj_pair)
    from start_plugin_frame [OF st] obtain f now sts where
      sv: "sv_start f now (mfID ?m) sv = (er', sts, rs_supervisor s2)" and s2: "rs_router s2 = rs_router s" "rs_config s2 = rs_config s"
      using same by auto
    have known: "sv_known (rs_supervisor s2) (mfID ?m) = Some ?spec"
      "sv_known (rs_supervisor s) i = Some sp \<Longrightarrow> sv_known (rs_supervisor s2) i = Some sp" for i sp
      using plugin_specs.register_look [OF Inr] plugin_specs.register_keeps [OF Inr] sv_start_known [OF sv] id same
      by auto
    have run: "sv_is_running i (rs_supervisor s) \<Longrightarrow> sv_is_running i (rs_supervisor s2)" for i
      using sv_register_running [OF Inr] sv_start_running [OF sv] same by auto
    have caps: "map_of (rt_capabilities (rs_router s)) c = Some ci \<Longrightarrow> map_of (rt_capabilities r) c = Some ci" for c ci
      using load_capabilities_keeps [OF r] s2 by simp
    show ?thesis
    proof (cases er')
      case (Some e)
      with assms mf o Inr st known run s2 show ?thesis by (auto simp: load_plugin_def extends_def)
    next
      case None
      with assms mf o Inr st r have res: "er = cer" "s' = s2\<lparr>rs_router := r\<rparr>"
        by (auto simp: load_plugin_def)
      have "loaded fl pc s'" if "cer = None"
        unfolding loaded_def routed_def
        using mf(3) known(1) sv_start_ok_running [OF sv [unfolded None]] load_capabilities_routes [of ?m _ _ r] r that res
        by (intro exI [of _ mf] exI [of _ p]) simp
      with res known(2) run caps s2 show ?thesis by (auto simp: extends_def)
    qed
  qed
qed

lemma load_plugins_effect:
  "load_plugins (publish_event n ops) fl pcs s = Some (er, s') \<Longrightarrow>
     extends s s' \<and> rs_config s' = rs_config s \<and>
     (er = None \<longrightarrow> (\<forall>pc \<in> set pcs. pcEnabled pc \<and> pcManifest pc \<noteq> [] \<longrightarrow> loaded fl pc s'))"
proof (induction pcs arbitrary: s)
  case (Cons pc pcs)
  then obtain er1 s1 where one: "load_plugin (publish_event n ops) fl pc s = Some (er1, s1)"
    by (auto split: option.splits)
  note eff = load_plugin_effect [OF one]
  show ?case
  proof (cases er1)
    case (Some e)
    with Cons.prems one eff show ?thesis by auto
  next
    case None
    with Cons.prems one have "load_plugins (publish_event n ops) fl pcs s1 = Some (er, s')" by simp
    from Cons.IH [OF this] eff None show ?thesis
      by (auto intro: extends_trans loaded_extends)
  qed
qed simp

text \<open>A plugin with a new identifier and new capabilities is loaded when its process can be started.\<close>

lemma handle_plugin_status_returns:
  assumes "\<forall>r \<in> set (en_rules (rs_engine s)). silent r"
  shows "\<exists>s'. handle_plugin_status (publish_event (Suc (Suc n)) ops) st s = Some s' \<and>
    en_rules (rs_engine s') = en_rules (rs_engine s)"
proof -
  obtain e s1 where e: "core_event (psID st @ ''-status'')
      (if psRunning st then ''plugin.started'' else if psLastError st \<noteq> [] then ''plugin.error'' else ''plugin.stopped'') []
      [(''id'', VStr (psID st)), (''running'', VBool (psRunning st)),
       (''restarts'', VInt (psRestarts st)), (''lastError'', VStr (psLastError st))] s = (e, s1)"
    by (meson surj_pair)
  then have "rs_engine s1 = rs_engine s"
    by (auto simp: core_event_def stamp_def read_now_def tick_def)
  with assms publish_silent_returns [of s1 n ops e] obtain er s' where
    p: "publish_event (Suc (Suc n)) ops e s1 = Some (er, s')" by auto
  have "rs_mode s' = rs_mode s1 \<and> en_rules (rs_engine s') = en_rules (rs_engine s1)"
    by (rule rules_fixed.publish_keeps [OF _ p]) simp
  with e p \<open>rs_engine s1 = rs_engine s\<close> show ?thesis
    by (simp add: handle_plugin_status_def publish_quietly_def)
qed

lemma emit_statuses_returns:
  "\<forall>r \<in> set (en_rules (rs_engine s)). silent r \<Longrightarrow> emit_statuses (publish_event (Suc (Suc n)) ops) sts s \<noteq> None"
proof (induction sts arbitrary: s)
  case (Cons st sts)
  from handle_plugin_status_returns [OF Cons.prems, of n ops st] obtain s' where
    s': "handle_plugin_status (publish_event (Suc (Suc n)) ops) st s = Some s'" "en_rules (rs_engine s') = en_rules (rs_engine s)"
    by blast
  with Cons.IH [of s'] Cons.prems show ?case by simp
qed simp

lemma load_capabilities_ok:
  "manifest_validate m = None \<Longrightarrow> distinct (map cpName cs) \<Longrightarrow>
     \<forall>c \<in> set cs. map_of (rt_capabilities r) (cpName c) = None \<Longrightarrow> fst (load_capabilities i m cs r) = None"
proof (induction cs arbitrary: r)
  case (Cons c cs)
  let ?r1 = "r\<lparr>rt_capabilities :=
    AList.update (cpName c) \<lparr>ciPluginID = i, ciManifest = m, ciHandler = Some (i, cpName c)\<rparr> (rt_capabilities r)\<rparr>"
  have "router_register_capability i m (cpName c) (Some (i, cpName c)) r = Inr ?r1"
    using Cons.prems by (simp add: router_register_capability_def)
  moreover have "fst (load_capabilities i m cs ?r1) = None"
    using Cons.prems by (intro Cons.IH; force simp: image_iff)
  ultimately show ?case by simp
qed simp

lemma load_plugin_succeeds:
  assumes "\<forall>r \<in> set (en_rules (rs_engine s)). silent r" "\<And>k. wd_failure (rs_world s) k = None"
    and "load_manifest fl (pcManifest pc) = Inr mf" "sv_known (rs_supervisor s) (mfID (mnManifest mf)) = None"
    and "distinct (map cpName (mfCapabilities (mnManifest mf)))"
    and "\<forall>c \<in> set (mfCapabilities (mnManifest mf)). \<not> router_has_capability (rs_router s) (cpName c)"
  shows "\<exists>s'. load_plugin (publish_event (Suc (Suc n)) ops) fl pc s = Some (None, s')"
proof (cases "pcEnabled pc \<and> pcManifest pc \<noteq> []")
  case False
  then show ?thesis by (auto simp: load_plugin_def)
next
  case True
  let ?m = "mnManifest mf"
  obtain p s1 where o: "read_order s = (p, s1)" by (meson surj_pair)
  have "sv_known (rs_supervisor s1) (spID (spec_of fl p pc mf)) = None"
    using reads_frame(3) [OF o] assms(4) by (simp add: spec_of_def)
  then obtain sv where sv: "sv_register (spec_of fl p pc mf) (rs_supervisor s1) = Inr sv"
    using plugin_specs.register_ok [of "spec_of fl p pc mf" "rs_supervisor s1"]
    by (cases "sv_register (spec_of fl p pc mf) (rs_supervisor s1)") auto
  let ?t = "s1\<lparr>rs_supervisor := sv\<rparr>"
  have same: "rs_engine s1 = rs_engine s" "wd_failure (rs_world s1) = wd_failure (rs_world s)"
    using o by (auto simp: read_order_def tick_def)
  obtain f t1 where f: "read_failure ?t = (f, t1)" by (meson surj_pair)
  obtain now t2 where now: "read_now t1 = (now, t2)" by (meson surj_pair)
  obtain er sts sv' where st: "sv_start f now (mfID ?m) (rs_supervisor t2) = (er, sts, sv')" by (metis prod.exhaust)
  have "f = None" using f same assms(2) by (auto simp: read_failure_def)
  moreover have "rs_supervisor t2 = sv" "rs_engine t2 = rs_engine s"
    using reads_frame(1) [OF f] reads_frame(2) [OF now] same by simp_all
  moreover have "sv_get sv (mfID ?m) = Some (new_proc (spec_of fl p pc mf) (sv_opts (rs_supervisor s1)))"
    using sv by (auto simp: sv_register_def sv_get_def spec_of_def split: option.splits)
  ultimately have "er = None" using st
    by (auto simp: sv_start_def proc_start_def new_proc_def start_locked_def Let_def split: prod.splits)
  obtain s2 where "emit_statuses (publish_event (Suc (Suc n)) ops) sts (t2\<lparr>rs_supervisor := sv'\<rparr>) = Some s2"
    using emit_statuses_returns [of "t2\<lparr>rs_supervisor := sv'\<rparr>" n ops sts] assms(1) \<open>rs_engine t2 = rs_engine s\<close> by auto
  then have start: "start_plugin (publish_event (Suc (Suc n)) ops) (mfID ?m) ?t = Some (None, s2)"
    using f now st \<open>er = None\<close> by (simp add: start_plugin_def)
  have "rs_router s2 = rs_router s"
    using start_plugin_frame [OF start] reads_frame(3) [OF o] by auto
  moreover have "manifest_validate ?m = None"
    using assms(3) by (auto simp: load_manifest_def split: sum.splits option.splits)
  ultimately have "fst (load_capabilities (mfID ?m) ?m (mfCapabilities ?m) (rs_router s2)) = None"
    using assms(5,6) by (intro load_capabilities_ok) (simp_all add: router_has_capability_def)
  then show ?thesis using True assms(3) o sv start by (auto simp: load_plugin_def Let_def split: prod.splits)
qed

section \<open>Starting the whole runtime\<close>

lemma run_start_started:
  assumes "run_start (publish_event n ops) open_db ops fl s = Some (None, s2)" "rt_inv s" "fresh_bus (rs_bus s)"
  shows "rt_inv s2 \<and> rs_mode s2 = rs_mode s"
proof -
  from assms(1) obtain s1 where prep: "run_setup open_db ops s = (None, s1)"
    and load: "load_plugins (publish_event n ops) fl (cfPlugins (rs_config s1)) s1 = Some (None, s2)"
    by (auto simp: run_start_def split: prod.splits option.splits)
  note started = run_setup_started [OF prep assms(2,3)]
  then have "rs_mode s1 = rs_mode s \<and> rt_inv s1" by simp
  from invariant_all.load_plugins_keeps [OF this load] show ?thesis by simp
qed

section \<open>Configuring\<close>

lemma map_of_fold_update:
  "map_of (fold (\<lambda>(k, v) m. AList.update k v m) env m) k =
     (case map_of (rev env) k of Some v \<Rightarrow> Some v | None \<Rightarrow> map_of m k)"
  by (induction env arbitrary: m) (auto simp: map_add_def split: option.splits)

lemma configure_in_shape:
  "case configure_in fl i b env pcs of
     (pcs', False) \<Rightarrow> pcs' = pcs \<and> (\<forall>pc \<in> set pcs. configured_id fl pc \<noteq> i)
   | (pcs', True) \<Rightarrow> (\<exists>xs pc ys. pcs = xs @ pc # ys \<and> (\<forall>x \<in> set xs. configured_id fl x \<noteq> i) \<and>
       configured_id fl pc = i \<and>
       pcs' = xs @ pc\<lparr>pcEnabled := b, pcEnv := fold (\<lambda>(k, v) m. AList.update k v m) env (pcEnv pc)\<rparr> # ys)"
proof (induction pcs)
  case (Cons pc pcs)
  show ?case
  proof (cases "configured_id fl pc = i")
    case True
    then show ?thesis by (force intro: exI [of _ "[]"])
  next
    case False
    obtain pcs' c where r: "configure_in fl i b env pcs = (pcs', c)" by (meson surj_pair)
    show ?thesis
    proof (cases c)
      case True
      with Cons r obtain xs y ys where "pcs = xs @ y # ys" "\<forall>x \<in> set xs. configured_id fl x \<noteq> i" "configured_id fl y = i"
        "pcs' = xs @ y\<lparr>pcEnabled := b, pcEnv := fold (\<lambda>(k, v) m. AList.update k v m) env (pcEnv y)\<rparr> # ys"
        by auto
      with r False True show ?thesis
        by (simp, intro exI [of _ "pc # xs"] exI [of _ y] exI [of _ ys]) simp
    next
      case c: False
      with Cons r False show ?thesis by simp
    qed
  qed
qed simp

lemma configure_begin_frame:
  assumes "configure_begin (publish_event n ops) fl i b env s = Some (r, s')"
  shows "sv_known (rs_supervisor s') = sv_known (rs_supervisor s) \<and>
    (case configure_in fl i b env (cfPlugins (rs_config s)) of
       (_, False) \<Rightarrow> (\<exists>e. r = Inl e) \<and> s' = s
     | (pcs, True) \<Rightarrow> r = Inr b \<and> cfPlugins (rs_config s') = pcs)"
proof -
  obtain pcs c where ci: "configure_in fl i b env (cfPlugins (rs_config s)) = (pcs, c)" by (meson surj_pair)
  let ?s1 = "s\<lparr>rs_config := (rs_config s)\<lparr>cfPlugins := pcs\<rparr>\<rparr>"
  have stop: "sv_known (rs_supervisor s2) = sv_known (rs_supervisor s) \<and> cfPlugins (rs_config s2) = pcs"
    if "stop_plugin (publish_event n ops) i ?s1 = Some (er, s2)" for er s2
    using stop_plugin_frame [OF that] by (auto dest: sv_stop_known)
  show ?thesis
  proof (cases c)
    case False
    with assms ci show ?thesis by (auto simp: configure_begin_def)
  next
    case True
    with assms ci show ?thesis
      by (auto simp: configure_begin_def Let_def dest: stop split: if_splits)
  qed
qed

text \<open>
  \<^verbatim>\<open>ConfigurePlugin\<close> succeeds exactly for an identifier of the configuration, whose first entry it
  changes; the specifications of the supervisor, and with them the environment that a process
  gets, stay as they are, whether or not it then starts a process.
\<close>

lemma configure_plugin_frame:
  assumes "configure_plugin (publish_event n ops) fl pause i b env s = Some (er, s')"
    and "\<And>t. sv_known (rs_supervisor (pause t)) = sv_known (rs_supervisor t) \<and> rs_config (pause t) = rs_config t"
  shows "sv_known (rs_supervisor s') = sv_known (rs_supervisor s) \<and>
    (case configure_in fl i b env (cfPlugins (rs_config s)) of
       (_, False) \<Rightarrow> er \<noteq> None \<and> s' = s
     | (pcs, True) \<Rightarrow> er = None \<and> cfPlugins (rs_config s') = pcs)"
proof -
  obtain r s1 where r: "configure_begin (publish_event n ops) fl i b env s = Some (r, s1)"
    using assms(1) by (auto simp: configure_plugin_def split: option.splits)
  obtain pcs c where ci: "configure_in fl i b env (cfPlugins (rs_config s)) = (pcs, c)" by (meson surj_pair)
  note eff = configure_begin_frame [OF r, unfolded ci]
  have start: "sv_known (rs_supervisor s') = sv_known (rs_supervisor t) \<and> rs_config s' = rs_config t"
    if "configure_end (publish_event n ops) i t = Some s'" for t
    using that start_plugin_frame [of n ops i t _ s'] by (auto simp: configure_end_def dest: sv_start_known)
  show ?thesis
  proof (cases "c \<and> b")
    case True
    with eff have "r = Inr True" by simp
    with assms(1) r have "er = None" and e: "configure_end (publish_event n ops) i
        (if sv_is_running i (rs_supervisor s) then pause s1 else s1) = Some s'"
      by (auto simp: configure_plugin_def)
    with start [OF e] eff assms(2) True ci show ?thesis by (auto split: if_splits)
  next
    case False
    with assms(1) r eff ci show ?thesis by (cases c) (auto simp: configure_plugin_def split: if_splits sum.splits bool.splits)
  qed
qed

end
