(* ===== verification/PluginProps.thy ===== *)
theory PluginProps
  imports ComponentProps SampleRuntime PluginFacts
begin

text \<open>The properties of manifests, of the plugin registry and of loading and configuring plugins.\<close>

section \<open>Manifests and the registry\<close>

text \<open>A manifest that is loaded is valid, and its path and directory are absolute and cleaned, with
  the directory the one of the path; so every file a plugin names relative to it is below a
  definite directory.\<close>
theorem manifest_paths_absolute:
  assumes "load_manifest fl path = Inr mf" "\<And>w. fl_wd fl = Inr w \<Longrightarrow> is_abs w"
  shows "manifest_validate (mnManifest mf) = None \<and> is_abs (mnPath mf) \<and> clean (mnPath mf) = mnPath mf \<and>
    mnDir mf = dir (mnPath mf) \<and> is_abs (mnDir mf) \<and>
    (mfEntry (mnManifest mf) \<noteq> [] \<longrightarrow> (\<exists>entry. snd (command_of mf) = [entry] \<and> is_abs entry)) \<and>
    (mfEntry (mnManifest mf) = [] \<longrightarrow> snd (command_of mf) = [] \<and> is_abs (fst (command_of mf)))"
  using load_manifest_ok [OF assms] by (auto simp: command_of_def Let_def is_abs_join_path)

definition sample_files :: files where
  "sample_files =
     \<lparr>fl_read = (\<lambda>_. Inr []), fl_decode = (\<lambda>_. Inr (sample_manifest\<lparr>mfEntry := ''index.js''\<rparr>)),
      fl_wd = Inr ''/srv'', fl_env = (\<lambda>_. None)\<rparr>"

lemma sample_entry_valid [simp]: "manifest_validate (sample_manifest\<lparr>mfEntry := ''index.js''\<rparr>) = None"
  by code_simp

lemma sample_load:
  "load_manifest sample_files ''p/../q/plugin.json'' =
     Inr \<lparr>mnPath = ''/srv/q/plugin.json'', mnDir = ''/srv/q'', mnManifest = sample_manifest\<lparr>mfEntry := ''index.js''\<rparr>\<rparr>"
proof -
  have "abs_path (Inr ''/srv'') ''p/../q/plugin.json'' = Inr ''/srv/q/plugin.json''" "''/srv/q'' = dir ''/srv/q/plugin.json''"
    by code_simp+
  then show ?thesis by (simp only: load_manifest_def sample_files_def files.simps sum.case option.case sample_entry_valid)
qed

theorem manifest_paths_absolute_witness:
  "\<exists>entry. snd (command_of \<lparr>mnPath = ''/srv/q/plugin.json'', mnDir = ''/srv/q'',
     mnManifest = sample_manifest\<lparr>mfEntry := ''index.js''\<rparr>\<rparr>) = [entry] \<and> is_abs entry"
proof -
  have "is_abs ''/srv''" by code_simp
  then have "\<And>w. fl_wd sample_files = Inr w \<Longrightarrow> is_abs w" by (simp add: sample_files_def)
  moreover have "mfEntry (mnManifest \<lparr>mnPath = ''/srv/q/plugin.json'', mnDir = ''/srv/q'',
     mnManifest = sample_manifest\<lparr>mfEntry := ''index.js''\<rparr>\<rparr>) \<noteq> []" by simp
  ultimately show ?thesis using manifest_paths_absolute [OF sample_load] by blast
qed

text \<open>A registry that is filled by registering plugins, whatever is refused on the way, lists exactly
  the plugins it would return for their identifiers, in the order of the identifiers and
  independently of the order in which Go visits the map.\<close>
theorem plugin_list_sorted:
  assumes "valid_order p"
  shows "let r = plugin_table.register_each pls new_plugin_registry in
    sorted_wrt str_less (map (\<lambda>pl. mfID (plManifest pl)) (pg_list p r)) \<and>
    (\<forall>pl. pl \<in> set (pg_list p r) \<longleftrightarrow> pg_get r (mfID (plManifest pl)) = Some pl) \<and>
    length (pg_list p r) = pg_count r \<and>
    (\<forall>i. pg_get r i = find (\<lambda>pl. mfID (plManifest pl) = i \<and> manifest_validate (plManifest pl) = None) pls)"
proof -
  let ?r = "plugin_table.register_each pls new_plugin_registry"
  have "pg_wf (plugin_table.register_each pls r)" if "pg_wf r" for r
    using that by (induction pls arbitrary: r) (auto split: sum.splits intro: pg_wf_register)
  then have wf: "pg_wf ?r" by simp
  then have wfm: "wf_map (pg_plugins ?r)" by (simp only: pg_wf_def)
  have "sorted_wrt str_less (map (\<lambda>pl. mfID (plManifest pl)) (pg_list p ?r))"
    using key_sorted_sort [of "pg_plugins ?r"] wf by (simp add: pg_list_ids [OF assms wf] pg_wf_def)
  moreover have "pl \<in> set (pg_list p ?r) \<longleftrightarrow> pg_get ?r (mfID (plManifest pl)) = Some pl" for pl
  proof -
    have "set (pg_list p ?r) = set (map snd (pg_plugins ?r))" by (simp add: pg_list_eq [OF assms wf])
    also have "\<dots> = {pl. \<exists>i. pg_get ?r i = Some pl}"
      using set_values [OF wfm] by (simp only: pg_get_def)
    finally have "pl \<in> set (pg_list p ?r) \<longleftrightarrow> (\<exists>i. pg_get ?r i = Some pl)" by simp
    moreover have "mfID (plManifest pl) = i" if "pg_get ?r i = Some pl" for i
      using wf that by (simp only: pg_wf_def)
    ultimately show ?thesis by blast
  qed
  moreover have "length (pg_list p ?r) = pg_count ?r"
    by (simp add: pg_list_eq [OF assms wf] pg_count_def)
  moreover have "pg_get ?r i = find (\<lambda>pl. mfID (plManifest pl) = i \<and> manifest_validate (plManifest pl) = None) pls" for i
    using plugin_table.register_each_look [of pls new_plugin_registry i]
    by (simp add: pg_get_def new_plugin_registry_def)
  ultimately show ?thesis by (simp add: Let_def)
qed

theorem plugin_list_sorted_witness:
  "pg_get (plugin_table.register_each [\<lparr>plManifestPath = [], plRootDir = [], plManifest = sample_manifest\<rparr>] new_plugin_registry) ''p1'' =
     Some \<lparr>plManifestPath = [], plRootDir = [], plManifest = sample_manifest\<rparr>"
proof -
  have "mfID sample_manifest = ''p1''" by (simp add: sample_manifest_def)
  with plugin_list_sorted [OF valid_reverse_order, of "[\<lparr>plManifestPath = [], plRootDir = [], plManifest = sample_manifest\<rparr>]"]
  show ?thesis by (simp add: Let_def)
qed

section \<open>Loading\<close>

text \<open>C18: Loading the configured plugins takes nothing back: specifications, running plugins and routes
  stay. When it succeeds, every enabled plugin with a manifest path runs with the command of its
  manifest, and every capability it declares is routed to it. So a failure leaves the plugins
  that were started before running, and an inline plugin is never started.\<close>
theorem plugins_loaded:
  assumes "load_plugins (publish_event n ops) fl pcs s = Some (er, s')"
  shows "extends s s' \<and>
    (er = None \<longrightarrow> (\<forall>pc \<in> set pcs. pcEnabled pc \<and> pcManifest pc \<noteq> [] \<longrightarrow>
       (\<exists>mf p. load_manifest fl (pcManifest pc) = Inr mf \<and>
          sv_known (rs_supervisor s') (mfID (mnManifest mf)) = Some (spec_of fl p pc mf) \<and>
          sv_is_running (mfID (mnManifest mf)) (rs_supervisor s') \<and>
          (\<forall>c \<in> set (mfCapabilities (mnManifest mf)). map_of (rt_capabilities (rs_router s')) (cpName c) =
             Some \<lparr>ciPluginID = mfID (mnManifest mf), ciManifest = mnManifest mf,
                   ciHandler = Some (mfID (mnManifest mf), cpName c)\<rparr>))))"
  using load_plugins_effect [OF assms] unfolding loaded_def routed_def capability_entry_def by blast

definition sample_plugin :: plugin_config where
  "sample_plugin = \<lparr>pcManifest = ''p/../q/plugin.json'', pcEnabled = True, pcEnv = [], pcConfig = [], pcInline = None\<rparr>"

lemma sample_plugin_loads:
  "\<exists>s'. load_plugins (publish_event 2 sample_ops) sample_files [sample_plugin]
     (created mode_dev (sample_rule ''text.received'' ''low'')) = Some (None, s')"
proof -
  let ?s = "created mode_dev (sample_rule ''text.received'' ''low'')"
  have v: "rule_validate (sample_rule ''text.received'' ''low'') = None" "rlEnabled (sample_rule ''text.received'' ''low'')"
    by (simp_all add: sample_rule_valid) (simp add: sample_rule_def)
  note shape = created_shape [OF v, of mode_dev]
  have "silent (sample_rule ''text.received'' ''low'')" by (simp add: silent_def sample_rule_def)
  then have "\<forall>r \<in> set (en_rules (rs_engine ?s)). silent r"
    using created_rules [OF v, of mode_dev] by simp
  moreover have "wd_failure (rs_world ?s) k = None" for k using shape by (simp add: sample_world_def)
  moreover have "load_manifest sample_files (pcManifest sample_plugin) = Inr \<lparr>mnPath = ''/srv/q/plugin.json'', mnDir = ''/srv/q'',
      mnManifest = sample_manifest\<lparr>mfEntry := ''index.js''\<rparr>\<rparr>"
    using sample_load by (simp add: sample_plugin_def)
  moreover have "sv_known (rs_supervisor ?s) i = None" for i
    using shape by (simp add: sv_known_def sv_get_def new_supervisor_def)
  moreover have "\<not> router_has_capability (rs_router ?s) c" for c
    using created_rules [OF v, of mode_dev] by (simp add: router_has_capability_def new_router_def)
  ultimately obtain s' where "load_plugin (publish_event (Suc (Suc 0)) sample_ops) sample_files sample_plugin ?s = Some (None, s')"
    using load_plugin_succeeds [of ?s sample_files sample_plugin _ 0 sample_ops] by (auto simp: sample_manifest_def)
  then show ?thesis by (simp add: numeral_2_eq_2)
qed

theorem plugins_loaded_witness:
  "\<exists>s'. load_plugins (publish_event 2 sample_ops) sample_files [sample_plugin]
     (created mode_dev (sample_rule ''text.received'' ''low'')) = Some (None, s') \<and>
   sv_is_running ''p1'' (rs_supervisor s') \<and> router_has_capability (rs_router s') ''cap''"
proof -
  obtain s' where s': "load_plugins (publish_event 2 sample_ops) sample_files [sample_plugin]
     (created mode_dev (sample_rule ''text.received'' ''low'')) = Some (None, s')"
    using sample_plugin_loads by blast
  have "pcEnabled sample_plugin" "pcManifest sample_plugin = ''p/../q/plugin.json''"
    by (simp_all add: sample_plugin_def)
  with plugins_loaded [OF s'] s' show ?thesis
    by (auto simp: sample_load router_has_capability_def sample_manifest_def)
qed

section \<open>Configuring and stopping\<close>

text \<open>C19: Configuring a plugin succeeds exactly for an identifier of the configuration; it writes the
  flag and the environment into its first entry there, but no specification of the supervisor
  changes: a process started afterwards still gets the old environment, and a plugin that was
  not loaded at the start cannot be started, although the call reports success.\<close>
theorem configure_misses_supervisor:
  assumes "configure_plugin (publish_event n ops) fl (\<lambda>t. t) i b env s = Some (er, s')"
  shows "sv_known (rs_supervisor s') = sv_known (rs_supervisor s) \<and>
    (er = None \<longleftrightarrow> (\<exists>pc \<in> set (cfPlugins (rs_config s)). configured_id fl pc = i)) \<and>
    (er \<noteq> None \<longrightarrow> s' = s) \<and>
    (er = None \<longrightarrow> (\<exists>xs pc ys. cfPlugins (rs_config s) = xs @ pc # ys \<and> (\<forall>x \<in> set xs. configured_id fl x \<noteq> i) \<and>
       cfPlugins (rs_config s') =
         xs @ pc\<lparr>pcEnabled := b, pcEnv := fold (\<lambda>(k, v) m. AList.update k v m) env (pcEnv pc)\<rparr> # ys)) \<and>
    (sv_known (rs_supervisor s) i = None \<longrightarrow> \<not> sv_is_running i (rs_supervisor s'))"
proof -
  obtain pcs c where ci: "configure_in fl i b env (cfPlugins (rs_config s)) = (pcs, c)" by (meson surj_pair)
  note frame = configure_plugin_frame [OF assms, unfolded ci] and shape = configure_in_shape [where fl = fl and i = i and b = b and env = env and pcs = "cfPlugins (rs_config s)", unfolded ci]
  have unknown: "\<not> sv_is_running i (rs_supervisor s')" if "sv_known (rs_supervisor s) i = None"
  proof -
    have "sv_known (rs_supervisor s') i = None" using that frame by simp
    then show ?thesis by (simp add: sv_known_def sv_is_running_def)
  qed
  have known: "sv_known (rs_supervisor s') = sv_known (rs_supervisor s)"
    using frame by simp
  show ?thesis
  proof (cases c)
    case True
    with frame have "er = None" "cfPlugins (rs_config s') = pcs" by simp_all
    moreover from shape True obtain xs pc ys where "cfPlugins (rs_config s) = xs @ pc # ys"
      "\<forall>x \<in> set xs. configured_id fl x \<noteq> i" "configured_id fl pc = i"
      "pcs = xs @ pc\<lparr>pcEnabled := b, pcEnv := fold (\<lambda>(k, v) m. AList.update k v m) env (pcEnv pc)\<rparr> # ys"
      by auto
    moreover from this have "\<exists>pc \<in> set (cfPlugins (rs_config s)). configured_id fl pc = i" by simp
    ultimately show ?thesis using known unknown by blast
  next
    case False
    with frame shape have "er \<noteq> None" "s' = s" "\<forall>pc \<in> set (cfPlugins (rs_config s)). configured_id fl pc \<noteq> i"
      by simp_all
    with known unknown show ?thesis by blast
  qed
qed

theorem configure_misses_supervisor_witness:
  "\<exists>s'. configure_plugin (publish_event 2 sample_ops) sample_files (\<lambda>t. t) ''p1'' True [(''TOKEN'', ''x'')]
      ((created mode_dev (sample_rule ''text.received'' ''low''))\<lparr>rs_config :=
         (sample_config mode_dev (sample_rule ''text.received'' ''low''))\<lparr>cfPlugins := [sample_plugin\<lparr>pcEnabled := False\<rparr>]\<rparr>\<rparr>) =
     Some (None, s') \<and> \<not> sv_is_running ''p1'' (rs_supervisor s')"
proof -
  let ?s = "(created mode_dev (sample_rule ''text.received'' ''low''))\<lparr>rs_config :=
    (sample_config mode_dev (sample_rule ''text.received'' ''low''))\<lparr>cfPlugins := [sample_plugin\<lparr>pcEnabled := False\<rparr>]\<rparr>\<rparr>"
  have v: "rule_validate (sample_rule ''text.received'' ''low'') = None" "rlEnabled (sample_rule ''text.received'' ''low'')"
    by (simp_all add: sample_rule_valid) (simp add: sample_rule_def)
  have sv: "rs_supervisor ?s = new_supervisor (runtime_options (sample_config mode_dev (sample_rule ''text.received'' ''low'')))"
    using created_shape [OF v, of mode_dev] by simp
  then have get: "sv_get (rs_supervisor ?s) i = None" for i by (simp add: new_supervisor_def sv_get_def)
  have id: "configured_id sample_files (sample_plugin\<lparr>pcEnabled := False\<rparr>) = ''p1''"
    using sample_load by (simp add: configured_id_def sample_plugin_def) (simp add: sample_manifest_def)
  then obtain er s' where r: "configure_plugin (publish_event 2 sample_ops) sample_files (\<lambda>t. t) ''p1'' True [(''TOKEN'', ''x'')] ?s = Some (er, s')"
    using get
    by (simp add: configure_plugin_def configure_begin_def configure_end_def start_plugin_def sv_is_running_def
        read_failure_def read_now_def tick_def sv_start_def Let_def)
  with configure_misses_supervisor [OF r] id get show ?thesis by (auto simp: sv_known_def)
qed

text \<open>C34: A plugin whose process has exited and whose restart is waiting cannot be stopped: the stop
  reports that the plugin is not running and changes nothing, and the restart then starts the
  plugin again.\<close>
theorem stop_during_backoff:
  assumes "proc_reachable spec opts p" "\<not> pp_running p" "0 < pp_sleeping p"
  shows "proc_stop now p = (Some err_not_running, [], p) \<and>
    (\<exists>p'. proc_step p p' \<and> proc_reachable spec opts p' \<and> pp_running p' \<and> pp_spawned p \<in> set (pp_alive p'))"
proof -
  obtain st p' where r: "monitor_restart None now p = (st, p')" by (meson surj_pair)
  then have "proc_step p p'" using assms(3) by (intro proc_step.restart)
  moreover from this have "proc_reachable spec opts p'" by (rule proc_reachable.step [OF assms(1)])
  moreover have "pp_running p' \<and> pp_spawned p \<in> set (pp_alive p')"
    using r by (auto simp: monitor_restart_def start_locked_def Let_def)
  ultimately show ?thesis using assms(2) by (auto simp: proc_stop_def)
qed

theorem stop_during_backoff_witness:
  "fst (proc_stop sample_time (after_exit 0 (after_start (new_proc sample_spec sample_options)))) = Some err_not_running"
proof -
  let ?p = "after_exit 0 (after_start (new_proc sample_spec sample_options))"
  have facts: "0 \<in> set (pp_monitors (after_start (new_proc sample_spec sample_options)))" "\<not> pp_running ?p" "0 < pp_sleeping ?p"
    by (simp_all add: after_start_def after_exit_def new_proc_def proc_start_def start_locked_def
        monitor_exit_def ctx_live_def sample_options_def default_options_def Let_def)
  then have "proc_reachable sample_spec sample_options ?p"
    by (intro proc_reachable_after proc_reachable.init) simp
  from stop_during_backoff [OF this facts(2,3), of sample_time] show ?thesis by simp
qed

section \<open>The log\<close>

text \<open>The log that is returned is the end of the file, at most as many bytes as asked for (64 KiB when
  nothing sensible is asked for), and the whole file when it is not longer.\<close>
theorem logs_are_tail:
  assumes "runtime_logs read_file limit s = Inr out" "rcLogPath (cfRuntime (rs_config s)) \<noteq> []"
  shows "\<exists>content before. read_file (rcLogPath (cfRuntime (rs_config s))) = Inr content \<and> content = before @ out \<and>
    int (length out) = min (int (length content)) (if limit \<le> 0 then 65536 else limit)"
proof -
  let ?l = "if limit \<le> 0 then 64 * 1024 else limit"
  obtain content where c: "read_file (rcLogPath (cfRuntime (rs_config s))) = Inr content"
    and out: "out = drop (nat (if int (length content) - ?l < 0 then 0 else int (length content) - ?l)) content"
    using assms by (auto simp: runtime_logs_def Let_def split: sum.splits)
  have "content = take (nat (if int (length content) - ?l < 0 then 0 else int (length content) - ?l)) content @ out"
    unfolding out by simp
  moreover have "int (length out) = min (int (length content)) ?l"
    unfolding out by auto
  ultimately show ?thesis using c by auto
qed

theorem logs_are_tail_witness:
  "runtime_logs (\<lambda>_. Inr ''abcdef'') 2 ((created mode_dev (sample_rule ''*'' ''low''))\<lparr>rs_config :=
     default_config\<lparr>cfRuntime := (cfRuntime default_config)\<lparr>rcLogPath := ''log''\<rparr>\<rparr>\<rparr>) = Inr ''ef''"
proof -
  let ?s = "(created mode_dev (sample_rule ''*'' ''low''))\<lparr>rs_config :=
    default_config\<lparr>cfRuntime := (cfRuntime default_config)\<lparr>rcLogPath := ''log''\<rparr>\<rparr>\<rparr>"
  obtain out where out: "runtime_logs (\<lambda>_. Inr ''abcdef'') 2 ?s = Inr out"
    by (simp add: runtime_logs_def)
  from logs_are_tail [OF this] have "\<exists>before. ''abcdef'' = before @ out \<and> length out = 2" by auto
  then have "out = ''ef''" by (auto simp: Cons_eq_append_conv)
  with out show ?thesis by simp
qed

end
