(* ===== verification/TimeText.thy ===== *)
theory TimeText
  imports GoValues
begin

text \<open>
  \<^verbatim>\<open>t.Format(time.RFC3339Nano)\<close>: the text in which the storage keeps an instant and by which it
  sorts. Dates are those of the Gregorian calendar; the computation counts in eras of 400 years
  that begin on the first of March.
\<close>

text \<open>Year, month and day of a number of days since 1 January of year 1.\<close>

definition civil :: "int \<Rightarrow> int \<times> int \<times> int" where
  "civil days =
     (let z = days + 306; era = z div 146097; doe = z mod 146097;
          yoe = (doe - doe div 1460 + doe div 36524 - doe div 146096) div 365;
          doy = doe - (365 * yoe + yoe div 4 - yoe div 100);
          mp = (5 * doy + 2) div 153; d = doy - (153 * mp + 2) div 5 + 1;
          m = (if mp < 10 then mp + 3 else mp - 9); y = yoe + era * 400
      in (if m \<le> 2 then y + 1 else y, m, d))"

definition pad :: "nat \<Rightarrow> int \<Rightarrow> string" where
  "pad w i =
     (let ds = itoa_nat (nat \<bar>i\<bar>)
      in (if i < 0 then ''-'' else []) @ replicate (w - length ds) (CHR ''0'') @ ds)"

text \<open>The nanoseconds of a second, without the zeros at the end and without a point when there are none.\<close>

definition fraction :: "int \<Rightarrow> string" where
  "fraction ns =
     (let ds = rev (dropWhile (\<lambda>c. c = CHR ''0'') (rev (pad 9 ns)))
      in if ds = [] then [] else CHR ''.'' # ds)"

definition zone :: "int \<Rightarrow> string" where
  "zone off =
     (if off = 0 then ''Z''
      else (let z = (if off < 0 then - (- off div 60) else off div 60)
            in (if z < 0 then ''-'' else ''+'') @ pad 2 (\<bar>z\<bar> div 60) @ '':'' @ pad 2 (\<bar>z\<bar> mod 60)))"

definition rfc3339 :: "gotime \<Rightarrow> string" where
  "rfc3339 t =
     (let secs = t_ns t div 10 ^ 9 + t_off t; ns = t_ns t mod 10 ^ 9;
          (y, m, d) = civil (secs div 86400); s = secs mod 86400
      in pad 4 y @ ''-'' @ pad 2 m @ ''-'' @ pad 2 d @ ''T'' @
         pad 2 (s div 3600) @ '':'' @ pad 2 (s mod 3600 div 60) @ '':'' @ pad 2 (s mod 60) @
         fraction ns @ zone (t_off t))"

end
