(* ===== verification/Storage.thy ===== *)
theory Storage
  imports Runtime TimeText
begin

text \<open>
  The storage, \<^verbatim>\<open>internal/storage/sqlite/store.go\<close>. The database engine is an argument: executing a
  statement, running a query, and a transaction, each on a database \<open>'d\<close>. The statements are
  those of the code (on one line); what the engine does with them is the hypothesis \<open>sql_ok\<close>.
\<close>

section \<open>Statements\<close>

definition create_statements :: "string list" where
  "create_statements =
     [''CREATE TABLE IF NOT EXISTS events (id TEXT PRIMARY KEY, type TEXT NOT NULL, source TEXT NOT NULL, session_id TEXT, payload_json TEXT, created_at TEXT NOT NULL)'',
      ''CREATE TABLE IF NOT EXISTS actions (id TEXT PRIMARY KEY, type TEXT NOT NULL, risk TEXT NOT NULL, status TEXT NOT NULL, source TEXT NOT NULL, session_id TEXT, payload_json TEXT, created_at TEXT NOT NULL)'',
      ''CREATE TABLE IF NOT EXISTS workflows (id TEXT PRIMARY KEY, workflow_json TEXT NOT NULL)'',
      ''CREATE TABLE IF NOT EXISTS sessions (id TEXT PRIMARY KEY, channel TEXT NOT NULL, session_json TEXT NOT NULL, updated_at TEXT NOT NULL)'']"

definition insert_event :: string where
  "insert_event = ''INSERT OR REPLACE INTO events (id, type, source, session_id, payload_json, created_at) VALUES (?, ?, ?, ?, ?, ?)''"

definition select_events :: string where
  "select_events = ''SELECT id, type, source, session_id, payload_json, created_at FROM events ORDER BY created_at DESC LIMIT ?''"

definition insert_action :: string where
  "insert_action = ''INSERT OR REPLACE INTO actions (id, type, risk, status, source, session_id, payload_json, created_at) VALUES (?, ?, ?, ?, ?, ?, ?, ?)''"

definition select_actions :: string where
  "select_actions = ''SELECT id, type, risk, status, source, session_id, payload_json, created_at FROM actions ORDER BY created_at DESC LIMIT ?''"

definition upsert_workflow :: string where
  "upsert_workflow = ''INSERT OR REPLACE INTO workflows (id, workflow_json) VALUES (?, ?)''"

definition delete_workflows :: string where
  "delete_workflows = ''DELETE FROM workflows''"

definition insert_workflow :: string where
  "insert_workflow = ''INSERT INTO workflows (id, workflow_json) VALUES (?, ?)''"

definition select_workflows :: string where
  "select_workflows = ''SELECT workflow_json FROM workflows ORDER BY id ASC''"

definition insert_session :: string where
  "insert_session = ''INSERT OR REPLACE INTO sessions (id, channel, session_json, updated_at) VALUES (?, ?, ?, ?)''"

definition select_session :: string where
  "select_session = ''SELECT session_json FROM sessions WHERE id = ?''"

definition select_sessions :: string where
  "select_sessions = ''SELECT session_json FROM sessions ORDER BY updated_at DESC LIMIT ?''"

section \<open>The engine and the encodings\<close>

datatype sqlarg = Txt string | Num int

text \<open>
  A query is an error or its rows with the error of \<^verbatim>\<open>rows.Err()\<close>. A transaction works on a copy
  of the database until it is committed; without a commit the copy is dropped.
\<close>

record 'd sql =
  sq_open :: "string \<Rightarrow> 'd res"
  sq_exec :: "string \<Rightarrow> sqlarg list \<Rightarrow> 'd \<Rightarrow> error option \<times> 'd"
  sq_query :: "string \<Rightarrow> sqlarg list \<Rightarrow> 'd \<Rightarrow> (string list list \<times> error option) res"
  sq_begin :: "'d \<Rightarrow> error option"
  sq_commit :: "'d \<Rightarrow> 'd \<Rightarrow> error option \<times> 'd"
  sq_close :: "'d \<Rightarrow> error option"

text \<open>Encoding and decoding JSON, and \<^verbatim>\<open>time.Parse(time.RFC3339Nano, s)\<close>.\<close>

record encodings =
  jc_payload :: "vmap \<Rightarrow> string res"
  jc_payload_of :: "string \<Rightarrow> vmap res"
  jc_workflow :: "workflow \<Rightarrow> string res"
  jc_workflow_of :: "string \<Rightarrow> workflow res"
  jc_session :: "session \<Rightarrow> string res"
  jc_session_of :: "string \<Rightarrow> session res"
  jc_time_of :: "string \<Rightarrow> gotime res"

text \<open>\<^verbatim>\<open>Scan\<close> into the wrong number of variables.\<close>

definition err_scan :: "nat \<Rightarrow> nat \<Rightarrow> error" where
  "err_scan expected n =
     New (''sql: expected '' @ itoa_nat n @ '' destination arguments in Scan, not '' @ itoa_nat expected)"

definition err_no_rows :: error where
  "err_no_rows = New ''sql: no rows in result set''"

section \<open>Opening\<close>

fun migrate :: "'d sql \<Rightarrow> string list \<Rightarrow> 'd \<Rightarrow> error option \<times> 'd" where
  "migrate sql [] d = (None, d)"
| "migrate sql (s # ss) d =
     (case sq_exec sql s [] d of (Some e, d') \<Rightarrow> (Some e, d') | (None, d') \<Rightarrow> migrate sql ss d')"

definition dsn :: "string \<Rightarrow> string" where
  "dsn path = ''file:'' @ path @ ''?_journal=WAL&_busy_timeout=5000&_sync=1''"

definition store_open :: "'d sql \<Rightarrow> string \<Rightarrow> 'd res" where
  "store_open sql path =
     (case sq_open sql (dsn path) of
        Inl e \<Rightarrow> Inl e
      | Inr d \<Rightarrow>
          (case migrate sql create_statements d of (Some e, _) \<Rightarrow> Inl e | (None, d') \<Rightarrow> Inr d'))"

definition store_close :: "'d sql \<Rightarrow> 'd \<Rightarrow> error option" where
  "store_close sql d = sq_close sql d"

text \<open>\<open>now\<close> is \<^verbatim>\<open>time.Now()\<close>.\<close>

definition store_memory :: "'d sql \<Rightarrow> gotime \<Rightarrow> 'd res" where
  "store_memory sql now = store_open sql (''file:auxitalk-'' @ itoa (unix_nano now) @ ''?mode=memory&cache=shared'')"

section \<open>Events\<close>

definition save_event :: "'d sql \<Rightarrow> encodings \<Rightarrow> event \<Rightarrow> 'd \<Rightarrow> error option \<times> 'd" where
  "save_event sql jc e d =
     (case event_validate e of
        Some er \<Rightarrow> (Some er, d)
      | None \<Rightarrow>
          (case jc_payload jc (evPayload e) of
             Inl er \<Rightarrow> (Some er, d)
           | Inr payload \<Rightarrow>
               sq_exec sql insert_event
                 (map Txt [evID e, evType e, evSource e, evSessionID e, payload, rfc3339 (evCreatedAt e)]) d))"

definition limit_or_default :: "int \<Rightarrow> int" where
  "limit_or_default limit = (if limit \<le> 0 then 100 else limit)"

definition scan_payload :: "encodings \<Rightarrow> string \<Rightarrow> vmap res" where
  "scan_payload jc payload = (if payload \<noteq> [] then jc_payload_of jc payload else Inr [])"

definition scan_event :: "encodings \<Rightarrow> string list \<Rightarrow> event res" where
  "scan_event jc row =
     (case row of
        [i, t, source, sid, payload, created] \<Rightarrow>
          (case scan_payload jc payload of
             Inl er \<Rightarrow> Inl er
           | Inr m \<Rightarrow>
               (case jc_time_of jc created of
                  Inl er \<Rightarrow> Inl er
                | Inr at \<Rightarrow>
                    Inr \<lparr>evID = i, evType = t, evSource = source, evSessionID = sid, evTraceID = [],
                         evDepth = 0, evPayload = m, evCreatedAt = at\<rparr>))
      | _ \<Rightarrow> Inl (err_scan 6 (length row)))"

text \<open>The loop over the rows stops at the first that cannot be read; then no list is returned.\<close>

fun scan_rows :: "(string list \<Rightarrow> 'a res) \<Rightarrow> string list list \<Rightarrow> 'a list \<Rightarrow> 'a list res" where
  "scan_rows scan [] xs = Inr xs"
| "scan_rows scan (row # rows) xs =
     (case scan row of Inl e \<Rightarrow> Inl e | Inr x \<Rightarrow> scan_rows scan rows (xs @ [x]))"

definition list_rows ::
  "'d sql \<Rightarrow> (string list \<Rightarrow> 'a res) \<Rightarrow> string \<Rightarrow> sqlarg list \<Rightarrow> 'd \<Rightarrow> 'a list \<times> error option" where
  "list_rows sql scan q args d =
     (case sq_query sql q args d of
        Inl e \<Rightarrow> ([], Some e)
      | Inr (rows, err) \<Rightarrow>
          (case scan_rows scan rows [] of Inl e \<Rightarrow> ([], Some e) | Inr xs \<Rightarrow> (xs, err)))"

definition list_events :: "'d sql \<Rightarrow> encodings \<Rightarrow> int \<Rightarrow> 'd \<Rightarrow> event list \<times> error option" where
  "list_events sql jc limit d =
     list_rows sql (scan_event jc) select_events [Num (limit_or_default limit)] d"

section \<open>Actions\<close>

definition save_action :: "'d sql \<Rightarrow> encodings \<Rightarrow> action \<Rightarrow> 'd \<Rightarrow> error option \<times> 'd" where
  "save_action sql jc a d =
     (case action_validate a of
        Some er \<Rightarrow> (Some er, d)
      | None \<Rightarrow>
          (case jc_payload jc (acPayload a) of
             Inl er \<Rightarrow> (Some er, d)
           | Inr payload \<Rightarrow>
               sq_exec sql insert_action
                 (map Txt [acID a, acType a, acRisk a, acStatus a, acSource a, acSessionID a, payload,
                           rfc3339 (acCreatedAt a)]) d))"

definition scan_action :: "encodings \<Rightarrow> string list \<Rightarrow> action res" where
  "scan_action jc row =
     (case row of
        [i, t, risk, status, source, sid, payload, created] \<Rightarrow>
          (case scan_payload jc payload of
             Inl er \<Rightarrow> Inl er
           | Inr m \<Rightarrow>
               (case jc_time_of jc created of
                  Inl er \<Rightarrow> Inl er
                | Inr at \<Rightarrow>
                    Inr \<lparr>acID = i, acType = t, acRisk = risk, acStatus = status, acSource = source,
                         acSessionID = sid, acTraceID = [], acDepth = 0, acPayload = m, acCreatedAt = at\<rparr>))
      | _ \<Rightarrow> Inl (err_scan 8 (length row)))"

definition list_actions :: "'d sql \<Rightarrow> encodings \<Rightarrow> int \<Rightarrow> 'd \<Rightarrow> action list \<times> error option" where
  "list_actions sql jc limit d =
     list_rows sql (scan_action jc) select_actions [Num (limit_or_default limit)] d"

section \<open>Workflows\<close>

definition save_workflow :: "'d sql \<Rightarrow> encodings \<Rightarrow> workflow \<Rightarrow> 'd \<Rightarrow> error option \<times> 'd" where
  "save_workflow sql jc w d =
     (case workflow_validate w of
        Some er \<Rightarrow> (Some er, d)
      | None \<Rightarrow>
          (case jc_workflow jc w of
             Inl er \<Rightarrow> (Some er, d)
           | Inr data \<Rightarrow> sq_exec sql upsert_workflow [Txt (wfID w), Txt data] d))"

fun insert_workflows :: "'d sql \<Rightarrow> encodings \<Rightarrow> workflow list \<Rightarrow> 'd \<Rightarrow> error option \<times> 'd" where
  "insert_workflows sql jc [] tx = (None, tx)"
| "insert_workflows sql jc (w # ws) tx =
     (case workflow_validate w of
        Some er \<Rightarrow> (Some er, tx)
      | None \<Rightarrow>
          (case jc_workflow jc w of
             Inl er \<Rightarrow> (Some er, tx)
           | Inr data \<Rightarrow>
               (case sq_exec sql insert_workflow [Txt (wfID w), Txt data] tx of
                  (Some er, tx') \<Rightarrow> (Some er, tx')
                | (None, tx') \<Rightarrow> insert_workflows sql jc ws tx')))"

definition replace_workflows :: "'d sql \<Rightarrow> encodings \<Rightarrow> workflow list \<Rightarrow> 'd \<Rightarrow> error option \<times> 'd" where
  "replace_workflows sql jc ws d =
     (case sq_begin sql d of
        Some er \<Rightarrow> (Some er, d)
      | None \<Rightarrow>
          (case sq_exec sql delete_workflows [] d of
             (Some er, _) \<Rightarrow> (Some er, d)
           | (None, tx) \<Rightarrow>
               (case insert_workflows sql jc ws tx of
                  (Some er, _) \<Rightarrow> (Some er, d)
                | (None, tx') \<Rightarrow> sq_commit sql d tx')))"

definition scan_json :: "(string \<Rightarrow> 'a res) \<Rightarrow> string list \<Rightarrow> 'a res" where
  "scan_json decode row = (case row of [data] \<Rightarrow> decode data | _ \<Rightarrow> Inl (err_scan 1 (length row)))"

definition list_workflows :: "'d sql \<Rightarrow> encodings \<Rightarrow> 'd \<Rightarrow> workflow list \<times> error option" where
  "list_workflows sql jc d = list_rows sql (scan_json (jc_workflow_of jc)) select_workflows [] d"

section \<open>Sessions\<close>

definition store_session :: "'d sql \<Rightarrow> encodings \<Rightarrow> session \<Rightarrow> 'd \<Rightarrow> error option \<times> 'd" where
  "store_session sql jc x d =
     (case session_validate x of
        Some er \<Rightarrow> (Some er, d)
      | None \<Rightarrow>
          (case jc_session jc x of
             Inl er \<Rightarrow> (Some er, d)
           | Inr data \<Rightarrow>
               sq_exec sql insert_session (map Txt [ssID x, ssChannel x, data, rfc3339 (ssUpdatedAt x)]) d))"

definition get_session :: "'d sql \<Rightarrow> encodings \<Rightarrow> string \<Rightarrow> 'd \<Rightarrow> session res" where
  "get_session sql jc i d =
     (case sq_query sql select_session [Txt i] d of
        Inl e \<Rightarrow> Inl e
      | Inr ([], Some e) \<Rightarrow> Inl e
      | Inr ([], None) \<Rightarrow> Inl err_no_rows
      | Inr (row # _, _) \<Rightarrow> scan_json (jc_session_of jc) row)"

definition list_sessions :: "'d sql \<Rightarrow> encodings \<Rightarrow> int \<Rightarrow> 'd \<Rightarrow> session list \<times> error option" where
  "list_sessions sql jc limit d =
     list_rows sql (scan_json (jc_session_of jc)) select_sessions [Num (limit_or_default limit)] d"

section \<open>The storage as the runtime uses it\<close>

definition as_result :: "'a list \<times> error option \<Rightarrow> 'a list res" where
  "as_result r = (case snd r of None \<Rightarrow> Inr (fst r) | Some e \<Rightarrow> Inl e)"

text \<open>The last three arguments decode the requests of plugins and results of calls.\<close>

definition sqlite_ops ::
  "'d sql \<Rightarrow> encodings \<Rightarrow> (string \<Rightarrow> event res) \<Rightarrow> (string \<Rightarrow> action res) \<Rightarrow> (string \<Rightarrow> val res) \<Rightarrow> 'd ops" where
  "sqlite_ops sql jc json_event json_action json =
     \<lparr>op_save_event = save_event sql jc, op_save_action = save_action sql jc,
      op_save_session = store_session sql jc, op_save_workflow = save_workflow sql jc,
      op_replace_workflows = replace_workflows sql jc,
      op_list_workflows = (\<lambda>d. as_result (list_workflows sql jc d)),
      op_list_actions = (\<lambda>n d. as_result (list_actions sql jc n d)),
      op_list_sessions = (\<lambda>n d. as_result (list_sessions sql jc n d)),
      op_list_events = (\<lambda>n d. as_result (list_events sql jc n d)),
      op_json_event = json_event, op_json_action = json_action, op_json = json\<rparr>"

end
