(* ===== verification/StorageFacts.thy ===== *)
theory StorageFacts
  imports Storage Startup
begin

text \<open>
  What the storage relies on of its database engine (\<open>sql_ok\<close>), and what follows for saving,
  listing and replacing.
\<close>

section \<open>The engine\<close>

text \<open>The tables, each row under its primary key.\<close>

record database =
  db_events :: "string list gomap"
  db_actions :: "string list gomap"
  db_workflows :: "string list gomap"
  db_sessions :: "string list gomap"

definition descending :: "nat \<Rightarrow> string list list \<Rightarrow> bool" where
  "descending k rows \<longleftrightarrow> sorted_wrt (\<lambda>a b. \<not> str_less (a ! k) (b ! k)) rows"

text \<open>INSERT OR REPLACE puts the row under its first column; SELECT with ORDER BY and LIMIT.\<close>

definition upserts ::
  "'d sql \<Rightarrow> ('d \<Rightarrow> database) \<Rightarrow> string \<Rightarrow> ((string list gomap \<Rightarrow> string list gomap) \<Rightarrow> database \<Rightarrow> database) \<Rightarrow> bool" where
  "upserts sql tables q change \<longleftrightarrow>
     (\<forall>d d' i rest. sq_exec sql q (map Txt (i # rest)) d = (None, d') \<longrightarrow>
        tables d' = change (AList.update i (i # rest)) (tables d))"

definition selects_recent ::
  "'d sql \<Rightarrow> ('d \<Rightarrow> database) \<Rightarrow> string \<Rightarrow> (database \<Rightarrow> string list gomap) \<Rightarrow> nat \<Rightarrow> (string list \<Rightarrow> string list) \<Rightarrow> bool" where
  "selects_recent sql tables q get k columns \<longleftrightarrow>
     (\<forall>d n rows. sq_query sql q [Num n] d = Inr (rows, None) \<longrightarrow>
        (\<exists>all_rows. mset all_rows = mset (map snd (get (tables d))) \<and> descending k all_rows \<and>
           rows = map columns (take (nat n) all_rows)))"

definition sql_ok :: "'d sql \<Rightarrow> ('d \<Rightarrow> database) \<Rightarrow> bool" where
  "sql_ok sql tables \<longleftrightarrow>
     upserts sql tables insert_event db_events_update \<and>
     upserts sql tables insert_action db_actions_update \<and>
     upserts sql tables upsert_workflow db_workflows_update \<and>
     upserts sql tables insert_session db_sessions_update \<and>
     (\<forall>d d' q args e. sq_exec sql q args d = (Some e, d') \<longrightarrow> tables d' = tables d) \<and>
     (\<forall>d d'. sq_exec sql delete_workflows [] d = (None, d') \<longrightarrow> tables d' = (tables d)\<lparr>db_workflows := []\<rparr>) \<and>
     (\<forall>d d' i data. sq_exec sql insert_workflow [Txt i, Txt data] d = (None, d') \<longrightarrow>
        map_of (db_workflows (tables d)) i = None \<and>
        tables d' = (tables d)\<lparr>db_workflows := db_workflows (tables d) @ [(i, [i, data])]\<rparr>) \<and>
     selects_recent sql tables select_events db_events 5 (\<lambda>row. row) \<and>
     selects_recent sql tables select_actions db_actions 7 (\<lambda>row. row) \<and>
     selects_recent sql tables select_sessions db_sessions 3 (\<lambda>row. [row ! 2]) \<and>
     (\<forall>d rows. sq_query sql select_workflows [] d = Inr (rows, None) \<longrightarrow>
        rows = map (\<lambda>kv. [snd kv ! 1]) (sort_keys (db_workflows (tables d)))) \<and>
     (\<forall>d i rows. sq_query sql select_session [Txt i] d = Inr (rows, None) \<longrightarrow>
        rows = (case map_of (db_sessions (tables d)) i of None \<Rightarrow> [] | Some row \<Rightarrow> [[row ! 2]])) \<and>
     (\<forall>d tx d'. sq_commit sql d tx = (None, d') \<longrightarrow> tables d' = tables tx) \<and>
     (\<forall>d tx e d'. sq_commit sql d tx = (Some e, d') \<longrightarrow> tables d' = tables d)"

text \<open>The laws one by one.\<close>

lemma sql_okD:
  assumes "sql_ok sql tables"
  shows "upserts sql tables insert_event db_events_update" "upserts sql tables insert_action db_actions_update"
    "upserts sql tables upsert_workflow db_workflows_update" "upserts sql tables insert_session db_sessions_update"
    "sq_exec sql q args d = (Some e, d') \<Longrightarrow> tables d' = tables d"
    "sq_exec sql delete_workflows [] d = (None, d') \<Longrightarrow> tables d' = (tables d)\<lparr>db_workflows := []\<rparr>"
    "sq_exec sql insert_workflow [Txt i, Txt data] d = (None, d') \<Longrightarrow> map_of (db_workflows (tables d)) i = None \<and>
       tables d' = (tables d)\<lparr>db_workflows := db_workflows (tables d) @ [(i, [i, data])]\<rparr>"
    "selects_recent sql tables select_events db_events 5 (\<lambda>row. row)"
    "selects_recent sql tables select_actions db_actions 7 (\<lambda>row. row)"
    "selects_recent sql tables select_sessions db_sessions 3 (\<lambda>row. [row ! 2])"
    "sq_query sql select_workflows [] d = Inr (rows, None) \<Longrightarrow>
       rows = map (\<lambda>kv. [snd kv ! 1]) (sort_keys (db_workflows (tables d)))"
    "sq_query sql select_session [Txt i] d = Inr (rows, None) \<Longrightarrow>
       rows = (case map_of (db_sessions (tables d)) i of None \<Rightarrow> [] | Some row \<Rightarrow> [[row ! 2]])"
    "sq_commit sql d tx = (None, d') \<Longrightarrow> tables d' = tables tx"
    "sq_commit sql d tx = (Some e, d') \<Longrightarrow> tables d' = tables d"
  using assms unfolding sql_ok_def by (elim conjE, fast)+

lemma upsertsD:
  "upserts sql tables q change \<Longrightarrow> sq_exec sql q (map Txt (i # rest)) d = (None, d') \<Longrightarrow>
     tables d' = change (AList.update i (i # rest)) (tables d)"
  by (simp add: upserts_def)

section \<open>Reading lists\<close>

lemma scan_rows_Inr:
  "scan_rows scan rows xs = Inr ys \<Longrightarrow> \<exists>zs. ys = xs @ zs \<and> map scan rows = map Inr zs"
proof (induction rows arbitrary: xs)
  case (Cons row rows)
  then obtain x where x: "scan row = Inr x" "scan_rows scan rows (xs @ [x]) = Inr ys"
    by (auto split: sum.splits)
  from Cons.IH [OF x(2)] x(1) show ?case by auto
qed simp

lemma list_rows_ok:
  assumes "list_rows sql scan q args d = (xs, None)"
  shows "\<exists>rows. sq_query sql q args d = Inr (rows, None) \<and> map scan rows = map Inr xs"
proof (cases "sq_query sql q args d")
  case (Inl e)
  with assms show ?thesis by (simp add: list_rows_def)
next
  case (Inr r)
  then obtain rows err where r: "sq_query sql q args d = Inr (rows, err)" by (cases r) simp
  show ?thesis
  proof (cases "scan_rows scan rows []")
    case (Inl e)
    with assms r show ?thesis by (simp add: list_rows_def)
  next
    case (Inr ys)
    with scan_rows_Inr [OF Inr] assms r show ?thesis by (simp add: list_rows_def)
  qed
qed

text \<open>A list of the most recent rows: how many, in which order, and which rows.\<close>

lemma list_recent:
  assumes "selects_recent sql tables q get k columns" "list_rows sql scan q [Num n] d = (xs, None)"
  shows "\<exists>all_rows. mset all_rows = mset (map snd (get (tables d))) \<and> descending k all_rows \<and>
    map (\<lambda>row. scan (columns row)) (take (nat n) all_rows) = map Inr xs"
proof -
  from list_rows_ok [OF assms(2)] obtain rows where
    rows: "sq_query sql q [Num n] d = Inr (rows, None)" "map scan rows = map Inr xs" by blast
  from assms(1) [unfolded selects_recent_def, rule_format, OF rows(1)] obtain all_rows where
    a: "mset all_rows = mset (map snd (get (tables d)))" "descending k all_rows" "rows = map columns (take (nat n) all_rows)"
    by blast
  from rows(2) have "map (\<lambda>row. scan (columns row)) (take (nat n) all_rows) = map Inr xs"
    unfolding a(3) by (simp add: comp_def)
  with a show ?thesis by blast
qed

lemma list_recent_length:
  assumes "selects_recent sql tables q get k columns" "list_rows sql scan q [Num n] d = (xs, None)" "0 < n"
  shows "int (length xs) = min n (int (length (get (tables d))))"
proof -
  from list_recent [OF assms(1,2)] obtain all_rows where
    a: "mset all_rows = mset (map snd (get (tables d)))" "map (\<lambda>row. scan (columns row)) (take (nat n) all_rows) = map Inr xs"
    by blast
  from a(1) have len: "length all_rows = length (get (tables d))" by (metis length_map size_mset)
  from a(2) have "length (take (nat n) all_rows) = length xs" by (metis length_map)
  then show ?thesis using len assms(3) by auto
qed

text \<open>When all rows fit, every row is read.\<close>

lemma list_recent_all:
  assumes "selects_recent sql tables q get k columns" "list_rows sql scan q [Num n] d = (xs, None)"
    and "int (length (get (tables d))) \<le> n"
  shows "mset (map (\<lambda>kv. scan (columns (snd kv))) (get (tables d))) = mset (map Inr xs)"
proof -
  from list_recent [OF assms(1,2)] obtain all_rows where
    a: "mset all_rows = mset (map snd (get (tables d)))" "map (\<lambda>row. scan (columns row)) (take (nat n) all_rows) = map Inr xs"
    by blast
  from a(1) have "length all_rows = length (get (tables d))" by (metis length_map size_mset)
  with assms(3) have "take (nat n) all_rows = all_rows" by (intro take_all) (simp add: nat_le_iff)
  with a(2) have "mset (map Inr xs) = image_mset (\<lambda>row. scan (columns row)) (mset all_rows)" by (metis mset_map)
  also have "\<dots> = mset (map (\<lambda>kv. scan (columns (snd kv))) (get (tables d)))"
    unfolding a(1) by (simp add: image_mset.compositionality comp_def)
  finally show ?thesis by simp
qed

section \<open>Tables\<close>

text \<open>Every row is filed under its first column.\<close>

definition table_wf :: "string list gomap \<Rightarrow> bool" where
  "table_wf t \<longleftrightarrow> wf_map t \<and> (\<forall>(k, row) \<in> set t. \<exists>rest. row = k # rest)"

lemma table_wf_Nil [simp]: "table_wf []"
  by (simp add: table_wf_def)

lemma set_update_cases: "kv \<in> set (AList.update k v m) \<Longrightarrow> kv = (k, v) \<or> kv \<in> set m"
  by (induction m) (auto split: if_splits)

lemma table_wf_update [simp]: "table_wf t \<Longrightarrow> table_wf (AList.update i (i # rest) t)"
  unfolding table_wf_def by (auto dest!: set_update_cases)

interpretation row_table: keyed_store map_of "\<lambda>row. AList.update (hd row) row" hd
  by unfold_locales simp

section \<open>Saving\<close>

lemma save_action_stores:
  assumes "sql_ok sql tables" "save_action sql jc a d = (None, d')"
  shows "action_validate a = None \<and> (\<exists>p. jc_payload jc (acPayload a) = Inr p \<and>
    tables d' = db_actions_update (AList.update (acID a)
      [acID a, acType a, acRisk a, acStatus a, acSource a, acSessionID a, p, rfc3339 (acCreatedAt a)]) (tables d))"
  using assms upsertsD [OF sql_okD(2) [OF assms(1)], of "acID a"]
  by (auto simp: save_action_def split: option.splits sum.splits)

lemma save_event_stores:
  assumes "sql_ok sql tables" "save_event sql jc e d = (None, d')"
  shows "event_validate e = None \<and> (\<exists>p. jc_payload jc (evPayload e) = Inr p \<and>
    tables d' = db_events_update (AList.update (evID e)
      [evID e, evType e, evSource e, evSessionID e, p, rfc3339 (evCreatedAt e)]) (tables d))"
  using assms upsertsD [OF sql_okD(1) [OF assms(1)], of "evID e"]
  by (auto simp: save_event_def split: option.splits sum.splits)

text \<open>Saving a workflow, whether or not it succeeds, leaves the other tables alone.\<close>

lemma save_workflow_frame:
  assumes "sql_ok sql tables"
  shows "db_actions (tables (snd (save_workflow sql jc w d))) = db_actions (tables d)"
proof (cases "\<exists>data. workflow_validate w = None \<and> jc_workflow jc w = Inr data")
  case False
  then show ?thesis by (auto simp: save_workflow_def split: option.splits sum.splits)
next
  case True
  then obtain data where data: "workflow_validate w = None" "jc_workflow jc w = Inr data" by blast
  obtain er d' where ex: "sq_exec sql upsert_workflow [Txt (wfID w), Txt data] d = (er, d')" by (meson surj_pair)
  then have saved: "snd (save_workflow sql jc w d) = d'" using data by (simp add: save_workflow_def)
  show ?thesis
  proof (cases er)
    case None
    with ex upsertsD [OF sql_okD(3) [OF assms], of "wfID w" "[data]"] saved show ?thesis by simp
  next
    case (Some e)
    with ex sql_okD(5) [OF assms] saved show ?thesis by metis
  qed
qed

lemma two_rows: "mset rows = mset [a, b] \<Longrightarrow> rows = [a, b] \<or> rows = [b, a]"
proof -
  assume m: "mset rows = mset [a, b]"
  then have "length rows = 2" by (metis size_mset length_Cons list.size(3) numeral_2_eq_2)
  then obtain x y where "rows = [x, y]" by (auto simp: numeral_2_eq_2 length_Suc_conv)
  with m show ?thesis by (auto simp: add_eq_conv_ex)
qed

section \<open>A restart\<close>

text \<open>What a row of the table of actions holds of an action: everything but trace and depth.\<close>

definition kept :: "action \<Rightarrow> action" where
  "kept a = a\<lparr>acTraceID := [], acDepth := 0\<rparr>"

definition survives :: "encodings \<Rightarrow> action \<Rightarrow> bool" where
  "survives jc a \<longleftrightarrow>
     (\<exists>p. jc_payload jc (acPayload a) = Inr p \<and> p \<noteq> [] \<and> jc_payload_of jc p = Inr (acPayload a)) \<and>
     jc_time_of jc (rfc3339 (acCreatedAt a)) = Inr (acCreatedAt a)"

lemma scan_action_row:
  assumes "survives jc a" "jc_payload jc (acPayload a) = Inr p"
  shows "scan_action jc [acID a, acType a, acRisk a, acStatus a, acSource a, acSessionID a, p, rfc3339 (acCreatedAt a)] = Inr (kept a)"
  using assms by (auto simp: survives_def scan_action_def scan_payload_def kept_def)

lemma scan_action_id: "scan_action jc row = Inr a \<Longrightarrow> \<exists>rest. row = acID a # rest"
  by (auto simp: scan_action_def split: list.splits sum.splits)

lemma listed_action:
  assumes "sql_ok sql tables" "table_wf (db_actions (tables d))" "list_actions sql jc n d = (as, None)"
    and "int (length (db_actions (tables d))) \<le> n" "map_of (db_actions (tables d)) i = Some row" "scan_action jc row = Inr a"
  shows "a \<in> set as \<and> distinct (map acID as)"
proof -
  let ?t = "db_actions (tables d)"
  have "0 < n" using assms(4,5) by (cases ?t) auto
  then have l: "list_rows sql (scan_action jc) select_actions [Num n] d = (as, None)"
    using assms(3) by (simp add: list_actions_def limit_or_default_def)
  note all = list_recent_all [OF sql_okD(9) [OF assms(1)] l assms(4)]
  have "Inr a \<in># mset (map (\<lambda>kv. scan_action jc (snd kv)) ?t)"
    using map_of_in_set [OF assms(5)] assms(6) by (force simp: image_iff)
  then have in_as: "a \<in> set as" unfolding all by auto
  have acID: "scan_action jc (snd kv) = Inr b \<Longrightarrow> kv \<in> set ?t \<Longrightarrow> acID b = fst kv" for b kv
    using assms(2) scan_action_id [of jc "snd kv" b] by (force simp: table_wf_def)
  let ?f = "\<lambda>r :: action res. case r of Inl _ \<Rightarrow> [] | Inr b \<Rightarrow> acID b"
  have keys: "?f (scan_action jc (snd kv)) = fst kv" if "kv \<in> set ?t" for kv
  proof -
    have "scan_action jc (snd kv) \<in># mset (map (\<lambda>kv. scan_action jc (snd kv)) ?t)" using that by auto
    then obtain b where "scan_action jc (snd kv) = Inr b" unfolding all by auto
    with acID that show ?thesis by simp
  qed
  have "mset (map acID as) = image_mset ?f (mset (map Inr as))" by (simp add: image_mset.compositionality comp_def)
  also have "\<dots> = mset (map (\<lambda>kv. ?f (scan_action jc (snd kv))) ?t)"
    unfolding all [symmetric] by (simp add: image_mset.compositionality comp_def)
  also have "map (\<lambda>kv. ?f (scan_action jc (snd kv))) ?t = map fst ?t" by (intro map_cong refl keys)
  finally have ids: "mset (map acID as) = mset (map fst ?t)" .
  then have "distinct (map acID as) \<longleftrightarrow> distinct (map fst ?t)" by (rule mset_eq_imp_distinct_iff)
  with in_as show ?thesis using assms(2) by (simp add: table_wf_def wf_map_def)
qed

text \<open>The loop over the configured workflows keeps what saving a workflow keeps.\<close>

lemma seed_workflows_frame:
  "(\<And>w d. f (snd (op_save_workflow ops w d)) = f d) \<Longrightarrow> f (snd (seed_workflows ops ws r d)) = f d"
  by (induction ws arbitrary: r d) auto

lemma open_storage_actions:
  assumes "cfSQLitePath (rs_config s) \<noteq> []" "open_db (cfSQLitePath (rs_config s)) = Inr d"
  shows "\<exists>reg. rs_actions (snd (open_storage open_db ops s)) =
    (case op_list_actions ops 1000 (snd (seed_workflows ops (cfWorkflows (rs_config s)) reg d)) of
       Inl _ \<Rightarrow> rs_actions s | Inr as \<Rightarrow> fold as_save as (rs_actions s))"
  using assms
  by (intro exI [of _ "case op_list_workflows ops d of Inl _ \<Rightarrow> rs_registry s | Inr ws \<Rightarrow> register_each_workflow ws (rs_registry s)"])
    (simp add: open_storage_def Let_def install_rules_frame case_prod_beta split: sum.splits)

lemma restored:
  assumes "a \<in> set as" "distinct (map acID as)"
  shows "as_get (fold as_save as s) (acID a) = Some a"
proof -
  have "find (\<lambda>b. acID b = acID a) (rev as) = Some a"
    using find_unique [of acID "rev as" a] assms by (simp add: rev_map [symmetric])
  then show ?thesis by (simp add: action_table.look_save_all)
qed

section \<open>Replacing the workflows\<close>

fun workflow_rows :: "workflow list \<Rightarrow> string list \<Rightarrow> (string \<times> string list) list" where
  "workflow_rows (w # ws) (data # datas) = (wfID w, [wfID w, data]) # workflow_rows ws datas"
| "workflow_rows _ _ = []"

lemma insert_workflows_rows:
  assumes "sql_ok sql tables" "insert_workflows sql jc ws tx = (None, tx')"
  shows "list_all (\<lambda>w. workflow_validate w = None) ws \<and>
    (\<exists>datas. map (jc_workflow jc) ws = map Inr datas \<and>
       tables tx' = (tables tx)\<lparr>db_workflows :=
         db_workflows (tables tx) @ workflow_rows ws datas\<rparr>) \<and>
    (wf_map (db_workflows (tables tx)) \<longrightarrow> wf_map (db_workflows (tables tx')))"
  using assms(2)
proof (induction ws arbitrary: tx)
  case Nil
  then show ?case by (simp add: exI [of _ "[]"])
next
  case (Cons w ws)
  then obtain data tx1 where w: "workflow_validate w = None" "jc_workflow jc w = Inr data"
      "sq_exec sql insert_workflow [Txt (wfID w), Txt data] tx = (None, tx1)" "insert_workflows sql jc ws tx1 = (None, tx')"
    by (auto split: option.splits sum.splits prod.splits)
  note row = sql_okD(7) [OF assms(1) w(3)]
  from Cons.IH [OF w(4)] obtain datas where ih: "list_all (\<lambda>w. workflow_validate w = None) ws"
      "map (jc_workflow jc) ws = map Inr datas"
      "tables tx' = (tables tx1)\<lparr>db_workflows :=
         db_workflows (tables tx1) @ workflow_rows ws datas\<rparr>"
      "wf_map (db_workflows (tables tx1)) \<longrightarrow> wf_map (db_workflows (tables tx'))" by blast
  have "map (jc_workflow jc) (w # ws) = map Inr (data # datas)" using ih(2) w(2) by simp
  moreover have "tables tx' = (tables tx)\<lparr>db_workflows :=
      db_workflows (tables tx) @ workflow_rows (w # ws) (data # datas)\<rparr>"
    using ih(3) row by simp
  moreover have "wf_map (db_workflows (tables tx)) \<longrightarrow> wf_map (db_workflows (tables tx1))"
    using row by (auto simp: wf_map_def map_of_eq_None_iff)
  moreover have "list_all (\<lambda>w. workflow_validate w = None) (w # ws)" using ih(1) w(1) by simp
  ultimately show ?case using ih(4) by blast
qed

lemma workflow_rows_shape:
  assumes "map (jc_workflow jc) ws = map Inr datas"
    and "\<And>w data. w \<in> set ws \<Longrightarrow> jc_workflow jc w = Inr data \<Longrightarrow> jc_workflow_of jc data = Inr w"
  shows "map fst (workflow_rows ws datas) = map wfID ws"
    "map (\<lambda>kv. jc_workflow_of jc (snd kv ! 1)) (workflow_rows ws datas) = map Inr ws"
    "\<forall>kv \<in> set (workflow_rows ws datas). \<forall>w. jc_workflow_of jc (snd kv ! 1) = Inr w \<longrightarrow> wfID w = fst kv"
  using assms
proof -
  have "map fst (workflow_rows ws datas) = map wfID ws \<and>
    map (\<lambda>kv. jc_workflow_of jc (snd kv ! 1)) (workflow_rows ws datas) = map Inr ws \<and>
    (\<forall>kv \<in> set (workflow_rows ws datas). \<forall>w. jc_workflow_of jc (snd kv ! 1) = Inr w \<longrightarrow> wfID w = fst kv)"
    using assms
  proof (induction ws arbitrary: datas)
    case (Cons w ws)
    from Cons.prems(1) obtain data rest where
      d: "datas = data # rest" "jc_workflow jc w = Inr data" "map (jc_workflow jc) ws = map Inr rest"
      by (cases datas) auto
    have "jc_workflow_of jc data = Inr w" by (rule Cons.prems(2) [OF _ d(2)]) simp
    moreover note Cons.IH [OF d(3) Cons.prems(2) [OF list.set_intros(2)]]
    ultimately show ?case using d(1) by simp
  qed simp
  then show "map fst (workflow_rows ws datas) = map wfID ws"
    "map (\<lambda>kv. jc_workflow_of jc (snd kv ! 1)) (workflow_rows ws datas) = map Inr ws"
    "\<forall>kv \<in> set (workflow_rows ws datas). \<forall>w. jc_workflow_of jc (snd kv ! 1) = Inr w \<longrightarrow> wfID w = fst kv"
    by blast+
qed

lemma decoded_keys:
  assumes "map f kvs = map Inr xs" "\<And>kv x. kv \<in> set kvs \<Longrightarrow> f kv = Inr x \<Longrightarrow> key x = fst kv"
  shows "map key xs = map fst kvs"
  using assms
proof (induction kvs arbitrary: xs)
  case (Cons kv kvs)
  then obtain x ys where x: "xs = x # ys" "f kv = Inr x" "map f kvs = map Inr ys" by (cases xs) auto
  with Cons.IH [OF x(3)] Cons.prems(2) show ?case by simp
qed simp

lemma list_workflows_rows:
  assumes "sql_ok sql tables" "list_workflows sql jc d = (ws, None)"
  shows "map (\<lambda>kv. jc_workflow_of jc (snd kv ! 1)) (sort_keys (db_workflows (tables d))) = map Inr ws"
proof -
  from list_rows_ok [OF assms(2) [unfolded list_workflows_def]] obtain rows where
    r: "sq_query sql select_workflows [] d = Inr (rows, None)" "map (scan_json (jc_workflow_of jc)) rows = map Inr ws" by blast
  from sql_okD(11) [OF assms(1) r(1)] r(2) show ?thesis by (simp add: scan_json_def comp_def)
qed

section \<open>The order of the instants\<close>

lemma str_less_append [simp]: "str_less (p @ a) (p @ b) = str_less a b"
  by (induction p) simp_all

lemma fraction_zero: "fraction 0 = []"
  by code_simp

lemma itoa_nat_nonzero: "0 < n \<Longrightarrow> \<exists>c \<in> set (itoa_nat n). c \<noteq> CHR ''0''"
proof (induction n rule: itoa_nat.induct)
  case (1 n)
  have zero: "digit 0 = CHR ''0''" by code_simp
  show ?case
  proof (cases "n < 10")
    case True
    with 1(2) digit_inj [of n 0] zero show ?thesis by (auto simp: itoa_nat.simps [of n])
  next
    case False
    with 1(1) show ?thesis by (auto simp: itoa_nat.simps [of n])
  qed
qed

lemma fraction_point:
  assumes "0 < ns" "ns < 10 ^ 9"
  shows "\<exists>ds. fraction ns = CHR ''.'' # ds"
proof -
  have "\<exists>c \<in> set (pad 9 ns). c \<noteq> CHR ''0''"
    using itoa_nat_nonzero [of "nat ns"] assms(1) by (auto simp: pad_def Let_def)
  then have "dropWhile (\<lambda>c. c = CHR ''0'') (rev (pad 9 ns)) \<noteq> []" by simp
  then show ?thesis by (simp add: fraction_def Let_def)
qed

lemma seconds_plus:
  assumes "t mod 10 ^ 9 = (0 :: int)" "0 \<le> k" "k < 10 ^ 9"
  shows "(t + k) div 10 ^ 9 = t div 10 ^ 9" "(t + k) mod 10 ^ 9 = k"
proof -
  obtain q where "t = 10 ^ 9 * q" using assms(1) by (meson dvdE mod_0_imp_dvd)
  with assms(2,3) show "(t + k) div 10 ^ 9 = t div 10 ^ 9" "(t + k) mod 10 ^ 9 = k" by simp_all
qed

definition seconds_text :: "int \<Rightarrow> string" where
  "seconds_text secs =
     (let (y, m, d) = civil (secs div 86400); s = secs mod 86400
      in pad 4 y @ ''-'' @ pad 2 m @ ''-'' @ pad 2 d @ ''T'' @
         pad 2 (s div 3600) @ '':'' @ pad 2 (s mod 3600 div 60) @ '':'' @ pad 2 (s mod 60))"

lemma rfc3339_utc:
  "t_off t = 0 \<Longrightarrow> rfc3339 t = seconds_text (t_ns t div 10 ^ 9) @ fraction (t_ns t mod 10 ^ 9) @ ''Z''"
  by (simp add: rfc3339_def seconds_text_def Let_def zone_def case_prod_beta)

text \<open>In UTC a whole second sorts after every later instant of the same second.\<close>

lemma later_sorts_first:
  assumes "t_off t = 0" "t_ns t mod 10 ^ 9 = 0" "0 < k" "k < 10 ^ 9"
  shows "str_less (rfc3339 (t\<lparr>t_ns := t_ns t + k\<rparr>)) (rfc3339 t)"
proof -
  obtain ds where ds: "fraction k = CHR ''.'' # ds" using fraction_point [OF assms(3,4)] by blast
  have earlier: "rfc3339 t = seconds_text (t_ns t div 10 ^ 9) @ ''Z''"
    by (simp only: rfc3339_utc [OF assms(1)] assms(2) fraction_zero append_Nil)
  have later: "rfc3339 (t\<lparr>t_ns := t_ns t + k\<rparr>) = seconds_text (t_ns t div 10 ^ 9) @ CHR ''.'' # ds @ ''Z''"
    using rfc3339_utc [of "t\<lparr>t_ns := t_ns t + k\<rparr>"] assms(1) seconds_plus [OF assms(2), of k] assms(3,4) ds
    by simp
  show ?thesis unfolding earlier later str_less_append by simp
qed

end
