(* ===== verification/SampleDatabase.thy ===== *)
theory SampleDatabase
  imports StorageFacts SampleRuntime
begin

text \<open>A database engine in memory that keeps the laws of \<open>sql_ok\<close>.\<close>

fun cell :: "sqlarg \<Rightarrow> string" where
  "cell (Txt s) = s"
| "cell (Num n) = itoa n"

fun insert_desc :: "nat \<Rightarrow> string list \<Rightarrow> string list list \<Rightarrow> string list list" where
  "insert_desc k row [] = [row]"
| "insert_desc k row (r # rs) =
     (if str_less (r ! k) (row ! k) then row # r # rs else r # insert_desc k row rs)"

definition sort_desc :: "nat \<Rightarrow> string list list \<Rightarrow> string list list" where
  "sort_desc k rows = foldr (insert_desc k) rows []"

lemma mset_insert_desc [simp]: "mset (insert_desc k row rs) = add_mset row (mset rs)"
  by (induction rs) auto

lemma mset_sort_desc [simp]: "mset (sort_desc k rows) = mset rows"
  unfolding sort_desc_def by (induction rows) auto

lemma descending_insert: "descending k rs \<Longrightarrow> descending k (insert_desc k row rs)"
proof (induction rs)
  case (Cons r rs)
  have set: "set (insert_desc k row rs) = insert row (set rs)"
    by (metis mset_insert_desc set_mset_add_mset_insert set_mset_mset)
  show ?case
  proof (cases "str_less (r ! k) (row ! k)")
    case True
    then have "\<not> str_less (row ! k) (z ! k)" if "z = r \<or> \<not> str_less (r ! k) (z ! k)" for z
      using that str_less_trans str_less_irrefl by blast
    with True Cons.prems show ?thesis by (auto simp: descending_def)
  next
    case False
    with Cons set show ?thesis by (auto simp: descending_def)
  qed
qed (simp add: descending_def)

lemma descending_sort_desc [simp]: "descending k (sort_desc k rows)"
  unfolding sort_desc_def
  by (induction rows) (auto simp: descending_insert, simp add: descending_def)

text \<open>A statement that is none of the known ones creates a table; all four are there already.\<close>

definition mem_exec :: "string \<Rightarrow> sqlarg list \<Rightarrow> database \<Rightarrow> error option \<times> database" where
  "mem_exec q args d =
     (let row = map cell args; put = AList.update (hd row) row
      in if q = insert_event then (None, db_events_update put d)
         else if q = insert_action then (None, db_actions_update put d)
         else if q = upsert_workflow then (None, db_workflows_update put d)
         else if q = insert_session then (None, db_sessions_update put d)
         else if q = delete_workflows then (None, d\<lparr>db_workflows := []\<rparr>)
         else if q = insert_workflow then
           (if map_of (db_workflows d) (hd row) = None
            then (None, d\<lparr>db_workflows := db_workflows d @ [(hd row, row)]\<rparr>)
            else (Some (New ''UNIQUE constraint failed: workflows.id''), d))
         else (None, d))"

fun first_number :: "sqlarg list \<Rightarrow> nat" where
  "first_number (Num n # _) = nat n"
| "first_number _ = 0"

definition mem_query :: "string \<Rightarrow> sqlarg list \<Rightarrow> database \<Rightarrow> (string list list \<times> error option) res" where
  "mem_query q args d =
     (let recent = (\<lambda>k t. take (first_number args) (sort_desc k (map snd t)))
      in Inr (if q = select_events then recent 5 (db_events d)
              else if q = select_actions then recent 7 (db_actions d)
              else if q = select_sessions then map (\<lambda>row. [row ! 2]) (recent 3 (db_sessions d))
              else if q = select_workflows then map (\<lambda>kv. [snd kv ! 1]) (sort_keys (db_workflows d))
              else if q = select_session then
                (case map_of (db_sessions d) (hd (map cell args)) of None \<Rightarrow> [] | Some row \<Rightarrow> [[row ! 2]])
              else [], None))"

definition empty_database :: database where
  "empty_database = \<lparr>db_events = [], db_actions = [], db_workflows = [], db_sessions = []\<rparr>"

definition mem_sql :: "database sql" where
  "mem_sql =
     \<lparr>sq_open = (\<lambda>_. Inr empty_database), sq_exec = mem_exec, sq_query = mem_query,
      sq_begin = (\<lambda>_. None), sq_commit = (\<lambda>d tx. (None, tx)), sq_close = (\<lambda>_. None)\<rparr>"

text \<open>The statements are all different.\<close>

lemma statements_differ:
  "distinct [insert_event, insert_action, upsert_workflow, insert_session, delete_workflows, insert_workflow]"
  "distinct [select_events, select_actions, select_sessions, select_workflows, select_session]"
  by code_simp+

lemma mem_exec_simps:
  "mem_exec insert_event args d = (None, db_events_update (AList.update (hd (map cell args)) (map cell args)) d)"
  "mem_exec insert_action args d = (None, db_actions_update (AList.update (hd (map cell args)) (map cell args)) d)"
  "mem_exec upsert_workflow args d = (None, db_workflows_update (AList.update (hd (map cell args)) (map cell args)) d)"
  "mem_exec insert_session args d = (None, db_sessions_update (AList.update (hd (map cell args)) (map cell args)) d)"
  "mem_exec delete_workflows args d = (None, d\<lparr>db_workflows := []\<rparr>)"
  "mem_exec insert_workflow args d =
     (if map_of (db_workflows d) (hd (map cell args)) = None
      then (None, d\<lparr>db_workflows := db_workflows d @ [(hd (map cell args), map cell args)]\<rparr>)
      else (Some (New ''UNIQUE constraint failed: workflows.id''), d))"
  using statements_differ(1) by (auto simp: mem_exec_def Let_def)

lemma mem_query_simps:
  "mem_query select_events args d = Inr (take (first_number args) (sort_desc 5 (map snd (db_events d))), None)"
  "mem_query select_actions args d = Inr (take (first_number args) (sort_desc 7 (map snd (db_actions d))), None)"
  "mem_query select_sessions args d =
     Inr (map (\<lambda>row. [row ! 2]) (take (first_number args) (sort_desc 3 (map snd (db_sessions d)))), None)"
  "mem_query select_workflows args d = Inr (map (\<lambda>kv. [snd kv ! 1]) (sort_keys (db_workflows d)), None)"
  "mem_query select_session args d =
     Inr (case map_of (db_sessions d) (hd (map cell args)) of None \<Rightarrow> [] | Some row \<Rightarrow> [[row ! 2]], None)"
  using statements_differ(2) by (auto simp: mem_query_def Let_def)

lemma mem_exec_error: "mem_exec q args d = (Some e, d') \<Longrightarrow> d' = d"
  by (auto simp: mem_exec_def Let_def split: if_splits)

lemma cells [simp]: "map (cell \<circ> Txt) xs = xs"
  by (simp add: map_idI)

lemma mem_upserts:
  "upserts mem_sql (\<lambda>d. d) insert_event db_events_update" "upserts mem_sql (\<lambda>d. d) insert_action db_actions_update"
  "upserts mem_sql (\<lambda>d. d) upsert_workflow db_workflows_update" "upserts mem_sql (\<lambda>d. d) insert_session db_sessions_update"
  by (simp_all add: upserts_def mem_sql_def mem_exec_simps)

lemma mem_selects:
  "selects_recent mem_sql (\<lambda>d. d) select_events db_events 5 (\<lambda>row. row)"
  "selects_recent mem_sql (\<lambda>d. d) select_actions db_actions 7 (\<lambda>row. row)"
  "selects_recent mem_sql (\<lambda>d. d) select_sessions db_sessions 3 (\<lambda>row. [row ! 2])"
  unfolding selects_recent_def mem_sql_def
  by (auto simp: mem_query_simps intro!: exI [of _ "sort_desc _ _"])

lemma mem_sql_ok [simp]: "sql_ok mem_sql (\<lambda>d. d)"
  using mem_upserts mem_selects
  by (auto simp: sql_ok_def) (auto simp: mem_sql_def mem_exec_simps mem_query_simps dest: mem_exec_error split: if_splits)

end
