(* ===== verification/StorageProps.thy ===== *)
theory StorageProps
  imports SampleDatabase
begin

text \<open>The properties of the storage: restarts, replacing workflows, sessions, and the order of lists.\<close>

section \<open>A restart\<close>


definition sample_encodings :: encodings where
  "sample_encodings =
     \<lparr>jc_payload = (\<lambda>_. Inr ''{}''), jc_payload_of = (\<lambda>_. Inr []),
      jc_workflow = (\<lambda>w. Inr (wfID w)),
      jc_workflow_of = (\<lambda>data. Inr ((sample_workflow (sample_rule ''text.received'' ''low''))\<lparr>wfID := data\<rparr>)),
      jc_session = (\<lambda>x. Inr (ssID x)), jc_session_of = (\<lambda>data. Inr (sample_session\<lparr>ssID := data\<rparr>)),
      jc_time_of = (\<lambda>_. Inr sample_time)\<rparr>"







section \<open>Replacing the workflows\<close>

text \<open>C17: Replacing the stored workflows is atomic: when it fails, the tables are as they were. When it
  succeeds, the workflows are valid and have different identifiers, and listing them afterwards
  gives exactly them, in the order of the identifiers.\<close>
theorem replace_workflows_refines:
  assumes "sql_ok sql tables" "replace_workflows sql jc ws d = (er, d')"
    and "\<And>w data. w \<in> set ws \<Longrightarrow> jc_workflow jc w = Inr data \<Longrightarrow> jc_workflow_of jc data = Inr w"
  shows "(er \<noteq> None \<longrightarrow> tables d' = tables d) \<and>
    (er = None \<longrightarrow> list_all (\<lambda>w. workflow_validate w = None) ws \<and> distinct (map wfID ws) \<and>
       (\<forall>listed. list_workflows sql jc d' = (listed, None) \<longrightarrow>
          mset listed = mset ws \<and> sorted_wrt str_less (map wfID listed)))"
proof (cases er)
  case (Some e)
  then have "tables d' = tables d"
    using assms(2) sql_okD(14) [OF assms(1)]
    by (auto simp: replace_workflows_def split: option.splits prod.splits)
  with Some show ?thesis by simp
next
  case None
  then obtain tx tx' where tx: "sq_exec sql delete_workflows [] d = (None, tx)"
      "insert_workflows sql jc ws tx = (None, tx')" "sq_commit sql d tx' = (None, d')"
    using assms(2) by (auto simp: replace_workflows_def split: option.splits prod.splits)
  have empty: "db_workflows (tables tx) = []" using sql_okD(6) [OF assms(1) tx(1)] by simp
  have d': "tables d' = tables tx'" by (rule sql_okD(13) [OF assms(1) tx(3)])
  from insert_workflows_rows [OF assms(1) tx(2)] empty obtain datas where
    valid: "list_all (\<lambda>w. workflow_validate w = None) ws" and datas: "map (jc_workflow jc) ws = map Inr datas"
    and rows: "db_workflows (tables tx') = workflow_rows ws datas" and wf: "wf_map (workflow_rows ws datas)"
    by auto
  note shape = workflow_rows_shape [OF datas assms(3)]
  have ids: "distinct (map wfID ws)" using wf shape(1) by (simp add: wf_map_def)
  have "mset listed = mset ws \<and> sorted_wrt str_less (map wfID listed)"
    if "list_workflows sql jc d' = (listed, None)" for listed
  proof -
    note l = list_workflows_rows [OF assms(1) that, unfolded d' rows]
    have "map wfID listed = map fst (sort_keys (workflow_rows ws datas))"
      by (rule decoded_keys [OF l]) (use shape(3) in auto)
    moreover have "mset (map Inr listed :: workflow res list) =
        mset (map (\<lambda>kv. jc_workflow_of jc (snd kv ! 1)) (workflow_rows ws datas))"
      unfolding l [symmetric] by (simp only: mset_map mset_sort_keys)
    then have "mset (map Inr listed :: workflow res list) = mset (map Inr ws)" by (simp only: shape(2))
    then have "mset listed = mset ws" by (metis mset_map multiset.inj_map_strong sum.inject(2))
    ultimately show ?thesis using key_sorted_sort [OF wf] by simp
  qed
  with valid ids None show ?thesis by simp
qed

theorem replace_workflows_refines_witness:
  "fst (list_workflows mem_sql sample_encodings (snd (replace_workflows mem_sql sample_encodings
     [sample_workflow (sample_rule ''text.received'' ''low'')] empty_database))) =
   [sample_workflow (sample_rule ''text.received'' ''low'')]"
proof -
  let ?w = "sample_workflow (sample_rule ''text.received'' ''low'')"
  have valid: "workflow_validate ?w = None" by (rule sample_workflow_valid) (simp add: sample_rule_valid)
  have json: "jc_workflow_of sample_encodings data = Inr w" if "w \<in> set [?w]" "jc_workflow sample_encodings w = Inr data" for w data
    using that by (auto simp: sample_encodings_def sample_workflow_def)
  obtain d' where d': "replace_workflows mem_sql sample_encodings [?w] empty_database = (None, d')"
    using valid by (simp add: replace_workflows_def mem_sql_def mem_exec_simps empty_database_def sample_encodings_def)
  obtain listed where "list_workflows mem_sql sample_encodings d' = (listed, None)"
    using d' valid
    by (auto simp: list_workflows_def list_rows_def replace_workflows_def mem_sql_def mem_exec_simps mem_query_simps
        empty_database_def sample_encodings_def scan_json_def sort_keys_def)
  moreover from this replace_workflows_refines [OF mem_sql_ok d' json] have "mset listed = mset [?w]" by blast
  ultimately show ?thesis using d' by simp
qed

section \<open>Sessions\<close>

text \<open>A session that is stored is the one that is read back under its identifier; other sessions are
  as before, and a failed call changes nothing.\<close>
theorem stored_session_read_back:
  assumes "sql_ok sql tables" "store_session sql jc x d = (er, d')"
    and "\<And>data. jc_session jc x = Inr data \<Longrightarrow> jc_session_of jc data = Inr x"
    and reads: "\<And>d. \<exists>rows. sq_query sql select_session [Txt i] d = Inr (rows, None)"
  shows "get_session sql jc i d' = (if er = None \<and> i = ssID x then Inr x else get_session sql jc i d)"
proof -
  have read: "get_session sql jc i d = (case map_of (db_sessions (tables d)) i of None \<Rightarrow> Inl err_no_rows
      | Some row \<Rightarrow> jc_session_of jc (row ! 2))" for d
  proof -
    obtain rows where "sq_query sql select_session [Txt i] d = Inr (rows, None)" using reads by blast
    with sql_okD(12) [OF assms(1) this] show ?thesis
      by (simp add: get_session_def scan_json_def split: option.splits)
  qed
  show ?thesis
  proof (cases er)
    case (Some e)
    then have "tables d' = tables d"
      using assms(2) sql_okD(5) [OF assms(1)]
      by (auto simp: store_session_def split: option.splits sum.splits)
    with Some read show ?thesis by simp
  next
    case None
    then obtain data where "jc_session jc x = Inr data" and
      stored: "sq_exec sql insert_session (map Txt [ssID x, ssChannel x, data, rfc3339 (ssUpdatedAt x)]) d = (None, d')"
      using assms(2) by (auto simp: store_session_def split: option.splits sum.splits)
    from upsertsD [OF sql_okD(4) [OF assms(1)] stored] assms(3) [OF this(1)] None read show ?thesis
      by (simp add: update_conv')
  qed
qed

theorem stored_session_read_back_witness:
  "get_session mem_sql sample_encodings ''s1'' (snd (store_session mem_sql sample_encodings sample_session empty_database)) =
     Inr sample_session"
proof -
  have id: "ssID sample_session = ''s1''" by (simp add: sample_session_def)
  have json: "\<And>data. jc_session sample_encodings sample_session = Inr data \<Longrightarrow> jc_session_of sample_encodings data = Inr sample_session"
    by (simp add: sample_encodings_def sample_session_def)
  have reads: "\<And>d. \<exists>rows. sq_query mem_sql select_session [Txt ''s1''] d = Inr (rows, None)"
    by (simp add: mem_sql_def mem_query_simps)
  obtain d' where stored: "store_session mem_sql sample_encodings sample_session empty_database = (None, d')"
    by (simp add: store_session_def sample_encodings_def mem_sql_def mem_exec_simps)
  from stored_session_read_back [OF mem_sql_ok stored json reads] id stored show ?thesis by simp
qed

section \<open>The most recent rows\<close>

text \<open>The text by which rows are sorted does not follow time: of two events in one second, the first
  on the full second, the list of the most recent event returns the earlier.\<close>
theorem latest_event_missed:
  assumes "sql_ok sql tables" "db_events (tables d) = []"
    and "save_event sql jc e d = (None, d1)" "save_event sql jc e' d1 = (None, d2)" "evID e \<noteq> evID e'"
    and "t_off (evCreatedAt e) = 0" "t_ns (evCreatedAt e) mod 10 ^ 9 = 0" "0 < k" "k < 10 ^ 9"
    and "evCreatedAt e' = (evCreatedAt e)\<lparr>t_ns := t_ns (evCreatedAt e) + k\<rparr>"
    and "list_events sql jc 1 d2 = (es, None)"
  shows "map evID es = [evID e]"
proof -
  let ?row = "\<lambda>e p. [evID e, evType e, evSource e, evSessionID e, p, rfc3339 (evCreatedAt e)]"
  from save_event_stores [OF assms(1,3)] save_event_stores [OF assms(1,4)] assms(2,5) obtain p p' where
    t: "map snd (db_events (tables d2)) = [?row e p, ?row e' p']" by auto
  have l: "list_rows sql (scan_event jc) select_events [Num 1] d2 = (es, None)"
    using assms(11) by (simp add: list_events_def limit_or_default_def)
  from list_recent [OF sql_okD(8) [OF assms(1)] l] t obtain rows where
    rows: "mset rows = mset [?row e p, ?row e' p']" "descending 5 rows" "map (scan_event jc) (take 1 rows) = map Inr es"
    by auto
  have "str_less (rfc3339 (evCreatedAt e')) (rfc3339 (evCreatedAt e))"
    using later_sorts_first [OF assms(6-9)] assms(10) by simp
  then have "\<not> descending 5 [?row e' p', ?row e p]" by (simp add: descending_def)
  with two_rows [OF rows(1)] rows(2) have "rows = [?row e p, ?row e' p']" by blast
  with rows(3) show ?thesis
    by (cases es) (auto simp: scan_event_def split: sum.splits)
qed

lemma sample_scan:
  "\<forall>row \<in> set rows. length row = 6 \<Longrightarrow> \<exists>es. scan_rows (scan_event sample_encodings) rows xs = Inr es"
proof (induction rows arbitrary: xs)
  case (Cons row rows)
  then have "length row = 6" by simp
  then obtain a b c d e f where "row = [a, b, c, d, e, f]"
    by (auto simp: eval_nat_numeral length_Suc_conv)
  with Cons show ?case by (simp add: scan_event_def scan_payload_def sample_encodings_def)
qed simp

lemma sample_events_listed:
  assumes "\<forall>kv \<in> set (db_events d). length (snd kv) = 6"
  shows "\<exists>es. list_events mem_sql sample_encodings n d = (es, None)"
proof -
  have "set (sort_desc 5 (map snd (db_events d))) = snd ` set (db_events d)"
    by (metis mset_sort_desc set_mset_mset list.set_map)
  then have "\<forall>row \<in> set (take k (sort_desc 5 (map snd (db_events d)))). length row = 6" for k
    using assms by (auto dest!: in_set_takeD)
  from sample_scan [OF this, of "nat (limit_or_default n)" "[]"] show ?thesis
    by (auto simp: list_events_def list_rows_def mem_sql_def mem_query_simps)
qed

theorem latest_event_missed_witness:
  "map evID (fst (list_events mem_sql sample_encodings 1
     (snd (save_event mem_sql sample_encodings (sample_event\<lparr>evID := ''e2'', evCreatedAt := utc (10 ^ 9 + 1)\<rparr>)
       (snd (save_event mem_sql sample_encodings (sample_event\<lparr>evCreatedAt := utc (10 ^ 9)\<rparr>) empty_database)))))) = [''e1'']"
proof -
  let ?e = "sample_event\<lparr>evCreatedAt := utc (10 ^ 9)\<rparr>"
    and ?e' = "sample_event\<lparr>evID := ''e2'', evCreatedAt := utc (10 ^ 9 + 1)\<rparr>"
  have valid: "event_validate ?e = None" "event_validate ?e' = None" by code_simp+
  have ids: "evID ?e = ''e1''" "evID ?e' = ''e2''" by (simp_all add: sample_event_def)
  obtain d1 where d1: "save_event mem_sql sample_encodings ?e empty_database = (None, d1)"
    using valid by (simp add: save_event_def sample_encodings_def mem_sql_def mem_exec_simps)
  obtain d2 where d2: "save_event mem_sql sample_encodings ?e' d1 = (None, d2)"
    using valid by (simp add: save_event_def sample_encodings_def mem_sql_def mem_exec_simps)
  obtain es where es: "list_events mem_sql sample_encodings 1 d2 = (es, None)"
    using sample_events_listed [of d2 1] d1 d2 valid
    by (auto simp: save_event_def sample_encodings_def mem_sql_def mem_exec_simps empty_database_def split: if_splits)
  have "map evID es = [evID ?e]"
    by (rule latest_event_missed [OF mem_sql_ok _ d1 d2 _ _ _ _ _ _ es, where k = 1])
      (simp_all add: sample_event_def empty_database_def utc_def)
  then show ?thesis using d1 d2 es ids by simp
qed

end
