(* ===== verification/Codec.thy ===== *)
theory Codec
  imports GoValues
begin

text \<open>
  JSON-RPC messages, \<^verbatim>\<open>pkg/protocol/jsonrpc.go\<close>, and their transport as lines,
  \<^verbatim>\<open>internal/rpc/codec.go\<close>. Encoding and decoding JSON are arguments.
\<close>

section \<open>Messages\<close>

definition rpc_version :: string where
  "rpc_version = ''2.0''"

text \<open>A \<^verbatim>\<open>json.RawMessage\<close> that is absent is \<open>None\<close>.\<close>

record rpc_request =
  rqJSONRPC :: string
  rqID :: string
  rqMethod :: string
  rqParams :: "string option"

record rpc_error =
  reCode :: int
  reMessage :: string
  reData :: "string option"

record rpc_response =
  rpJSONRPC :: string
  rpID :: string
  rpResult :: "string option"
  rpError :: "rpc_error option"

definition rpc_error_text :: "rpc_error \<Rightarrow> string" where
  "rpc_error_text e = ''jsonrpc error '' @ itoa (reCode e) @ '': '' @ reMessage e"

definition rpc_new_request ::
  "('v \<Rightarrow> string res) \<Rightarrow> string \<Rightarrow> string \<Rightarrow> 'v option \<Rightarrow> rpc_request res" where
  "rpc_new_request marshal i method params =
     (let req = \<lparr>rqJSONRPC = rpc_version, rqID = i, rqMethod = method, rqParams = None\<rparr>
      in (case params of
            None \<Rightarrow> Inr req
          | Some v \<Rightarrow>
              (case marshal v of
                 Inl e \<Rightarrow> Inl (Wrap ''marshal params: '' e [])
               | Inr data \<Rightarrow> Inr (req\<lparr>rqParams := Some data\<rparr>))))"

definition rpc_new_response ::
  "('v \<Rightarrow> string res) \<Rightarrow> string \<Rightarrow> 'v option \<Rightarrow> rpc_response res" where
  "rpc_new_response marshal i result =
     (let resp = \<lparr>rpJSONRPC = rpc_version, rpID = i, rpResult = None, rpError = None\<rparr>
      in (case result of
            None \<Rightarrow> Inr resp
          | Some v \<Rightarrow>
              (case marshal v of
                 Inl e \<Rightarrow> Inl (Wrap ''marshal result: '' e [])
               | Inr data \<Rightarrow> Inr (resp\<lparr>rpResult := Some data\<rparr>))))"

definition rpc_new_error :: "string \<Rightarrow> int \<Rightarrow> string \<Rightarrow> rpc_response" where
  "rpc_new_error i code message =
     \<lparr>rpJSONRPC = rpc_version, rpID = i, rpResult = None,
      rpError = Some \<lparr>reCode = code, reMessage = message, reData = None\<rparr>\<rparr>"

section \<open>The codec\<close>

text \<open>
  \<open>cd_in\<close> are the bytes the reader still delivers and \<open>cd_end\<close> the error after them,
  \<open>cd_out\<close> the bytes that were written. A read or write whose context ends returns, but its
  goroutine stays: \<open>cd_readers\<close> counts the goroutines that still read a line, and
  \<open>cd_writers\<close> are the lines still to be written.
\<close>

record codec =
  cd_in :: string
  cd_end :: error
  cd_out :: string
  cd_max :: int
  cd_readers :: nat
  cd_writers :: "string list"

definition err_payload_too_large :: error where
  "err_payload_too_large = New ''jsonrpc payload too large''"

definition new_codec :: "string \<Rightarrow> error \<Rightarrow> int \<Rightarrow> codec" where
  "new_codec input fin max_size =
     \<lparr>cd_in = input, cd_end = fin, cd_out = [],
      cd_max = (if max_size \<le> 0 then 1024 * 1024 else max_size), cd_readers = 0, cd_writers = []\<rparr>"

abbreviation newline :: char where
  "newline \<equiv> CHR 0x0A"

text \<open>\<^verbatim>\<open>ReadBytes\<close>: a line with its end, or what is left with the error, and the rest.\<close>

definition read_bytes :: "string \<Rightarrow> error \<Rightarrow> (string \<times> error option) \<times> string" where
  "read_bytes s fin =
     (if newline \<in> set s
      then ((takeWhile (\<lambda>c. c \<noteq> newline) s @ [newline], None), tl (dropWhile (\<lambda>c. c \<noteq> newline) s))
      else ((s, Some fin), []))"

text \<open>Which case of the select is taken.\<close>

datatype read_outcome = Arrived | ReadCancelled error

definition read_line :: "read_outcome \<Rightarrow> codec \<Rightarrow> string res \<times> codec" where
  "read_line sel c =
     (case sel of
        ReadCancelled e \<Rightarrow> (Inl e, c\<lparr>cd_readers := Suc (cd_readers c)\<rparr>)
      | Arrived \<Rightarrow>
          (let ((data, er), rest) = read_bytes (cd_in c) (cd_end c); c1 = c\<lparr>cd_in := rest\<rparr>
           in (case er of
                 Some e \<Rightarrow> (Inl e, c1)
               | None \<Rightarrow>
                   if int (length data) > cd_max c then (Inl err_payload_too_large, c1) else (Inr data, c1))))"

text \<open>A goroutine left behind by a cancelled read gets its line, which nobody receives.\<close>

definition late_read :: "codec \<Rightarrow> codec" where
  "late_read c =
     (case cd_readers c of
        0 \<Rightarrow> c
      | Suc n \<Rightarrow> c\<lparr>cd_readers := n, cd_in := snd (read_bytes (cd_in c) (cd_end c))\<rparr>)"

definition read_request ::
  "(string \<Rightarrow> rpc_request res) \<Rightarrow> read_outcome \<Rightarrow> codec \<Rightarrow> rpc_request res \<times> codec" where
  "read_request decode sel c =
     (case read_line sel c of
        (Inl e, c1) \<Rightarrow> (Inl e, c1)
      | (Inr data, c1) \<Rightarrow>
          (case decode data of
             Inl e \<Rightarrow> Inl (Wrap ''parse jsonrpc request: '' e [])
           | Inr rq \<Rightarrow>
               if rqJSONRPC rq \<noteq> rpc_version then Inl (New ''invalid jsonrpc version'')
               else if rqMethod rq = [] then Inl (New ''jsonrpc method is required'')
               else Inr rq, c1))"

definition read_response ::
  "(string \<Rightarrow> rpc_response res) \<Rightarrow> read_outcome \<Rightarrow> codec \<Rightarrow> rpc_response res \<times> codec" where
  "read_response decode sel c =
     (case read_line sel c of
        (Inl e, c1) \<Rightarrow> (Inl e, c1)
      | (Inr data, c1) \<Rightarrow>
          (case decode data of
             Inl e \<Rightarrow> Inl (Wrap ''parse jsonrpc response: '' e [])
           | Inr rp \<Rightarrow>
               if rpJSONRPC rp \<noteq> rpc_version then Inl (New ''invalid jsonrpc version'')
               else if rpID rp = [] then Inl (New ''jsonrpc response id is required'')
               else Inr rp, c1))"

text \<open>What the writer does: all bytes, some bytes and an error, or nothing until the context ends.\<close>

datatype write_outcome = Written | WriteFailed nat error | WriteCancelled error

definition write_json :: "write_outcome \<Rightarrow> string res \<Rightarrow> codec \<Rightarrow> error option \<times> codec" where
  "write_json out marshalled c =
     (case marshalled of
        Inl e \<Rightarrow> (Some (Wrap ''marshal jsonrpc message: '' e []), c)
      | Inr data \<Rightarrow>
          if int (length data + 1) > cd_max c then (Some err_payload_too_large, c)
          else (let line = data @ [newline]
                in (case out of
                      Written \<Rightarrow> (None, c\<lparr>cd_out := cd_out c @ line\<rparr>)
                    | WriteFailed n e \<Rightarrow> (Some e, c\<lparr>cd_out := cd_out c @ take n line\<rparr>)
                    | WriteCancelled e \<Rightarrow> (Some e, c\<lparr>cd_writers := cd_writers c @ [line]\<rparr>))))"

definition late_write :: "codec \<Rightarrow> codec" where
  "late_write c =
     (case cd_writers c of
        [] \<Rightarrow> c
      | line # lines \<Rightarrow> c\<lparr>cd_writers := lines, cd_out := cd_out c @ line\<rparr>)"

definition versioned :: "rpc_request \<Rightarrow> rpc_request" where
  "versioned rq = (if rqJSONRPC rq = [] then rq\<lparr>rqJSONRPC := rpc_version\<rparr> else rq)"

definition write_request ::
  "(rpc_request \<Rightarrow> string res) \<Rightarrow> write_outcome \<Rightarrow> rpc_request \<Rightarrow> codec \<Rightarrow> error option \<times> codec" where
  "write_request encode out rq c = write_json out (encode (versioned rq)) c"

definition versioned_response :: "rpc_response \<Rightarrow> rpc_response" where
  "versioned_response rp = (if rpJSONRPC rp = [] then rp\<lparr>rpJSONRPC := rpc_version\<rparr> else rp)"

definition write_rpc_response ::
  "(rpc_response \<Rightarrow> string res) \<Rightarrow> write_outcome \<Rightarrow> rpc_response \<Rightarrow> codec \<Rightarrow> error option \<times> codec" where
  "write_rpc_response encode out rp c = write_json out (encode (versioned_response rp)) c"

section \<open>Lines\<close>

lemma read_bytes_line [simp]:
  "newline \<notin> set data \<Longrightarrow> read_bytes (data @ newline # rest) fin = ((data @ [newline], None), rest)"
  by (induction data) (auto simp: read_bytes_def)

lemma read_line_next:
  assumes "newline \<notin> set data" "cd_in c = data @ newline # rest"
  shows "read_line Arrived c =
    (if int (length data + 1) > cd_max c then Inl err_payload_too_large else Inr (data @ [newline]), c\<lparr>cd_in := rest\<rparr>)"
  using assms by (simp add: read_line_def)

lemma read_line_within: "read_line sel c = (Inr data, c') \<Longrightarrow> int (length data) \<le> cd_max c"
  by (auto simp: read_line_def Let_def split: read_outcome.splits option.splits if_splits prod.splits)

section \<open>Sequences of messages\<close>

fun write_requests ::
  "(rpc_request \<Rightarrow> string res) \<Rightarrow> rpc_request list \<Rightarrow> codec \<Rightarrow> error option \<times> codec" where
  "write_requests encode [] c = (None, c)"
| "write_requests encode (rq # rqs) c =
     (case write_request encode Written rq c of
        (Some e, c1) \<Rightarrow> (Some e, c1)
      | (None, c1) \<Rightarrow> write_requests encode rqs c1)"

fun read_requests ::
  "(string \<Rightarrow> rpc_request res) \<Rightarrow> nat \<Rightarrow> codec \<Rightarrow> rpc_request res list \<times> codec" where
  "read_requests decode 0 c = ([], c)"
| "read_requests decode (Suc n) c =
     (let (r, c1) = read_request decode Arrived c; (rs, c2) = read_requests decode n c1 in (r # rs, c2))"

text \<open>What is written is the concatenation of the encoded lines, each within the limit.\<close>

lemma write_requests_lines:
  "write_requests encode rqs c = (None, c') \<Longrightarrow>
     \<exists>datas. map (\<lambda>rq. encode (versioned rq)) rqs = map Inr datas \<and>
       (\<forall>data \<in> set datas. int (length data + 1) \<le> cd_max c) \<and>
       cd_out c' = cd_out c @ concat (map (\<lambda>data. data @ [newline]) datas)"
proof (induction rqs arbitrary: c)
  case (Cons rq rqs)
  then obtain c1 where w: "write_request encode Written rq c = (None, c1)" and "write_requests encode rqs c1 = (None, c')"
    by (auto split: option.splits prod.splits)
  with Cons.IH obtain datas where d: "map (\<lambda>rq. encode (versioned rq)) rqs = map Inr datas"
      "\<forall>data \<in> set datas. int (length data + 1) \<le> cd_max c1"
      "cd_out c' = cd_out c1 @ concat (map (\<lambda>data. data @ [newline]) datas)" by blast
  from w obtain data where data: "encode (versioned rq) = Inr data" "int (length data + 1) \<le> cd_max c"
      "cd_max c1 = cd_max c" "cd_out c1 = cd_out c @ data @ [newline]"
    by (auto simp: write_request_def write_json_def split: sum.splits if_splits)
  have "map (\<lambda>rq. encode (versioned rq)) (rq # rqs) = map Inr (data # datas)" using d(1) data(1) by simp
  moreover have "\<forall>data \<in> set (data # datas). int (length data + 1) \<le> cd_max c" using d(2) data(2,3) by simp
  moreover have "cd_out c' = cd_out c @ concat (map (\<lambda>data. data @ [newline]) (data # datas))"
    using d(3) data(4) by simp
  ultimately show ?case by blast
qed simp

lemma read_requests_lines:
  assumes "\<And>data. data \<in> set datas \<Longrightarrow> newline \<notin> set data \<and> int (length data + 1) \<le> cd_max c"
    and "cd_in c = concat (map (\<lambda>data. data @ [newline]) datas) @ rest"
    and "map (\<lambda>data. decode (data @ [newline])) datas = map Inr rqs"
    and "\<And>rq. rq \<in> set rqs \<Longrightarrow> rqJSONRPC rq = rpc_version \<and> rqMethod rq \<noteq> []"
  shows "read_requests decode (length rqs) c = (map Inr rqs, c\<lparr>cd_in := rest\<rparr>)"
  using assms
proof (induction datas arbitrary: c rqs)
  case (Cons data datas)
  then obtain rq rqs' where rqs: "rqs = rq # rqs'" "decode (data @ [newline]) = Inr rq"
      "map (\<lambda>data. decode (data @ [newline])) datas = map Inr rqs'"
    by (cases rqs) auto
  let ?c = "c\<lparr>cd_in := concat (map (\<lambda>data. data @ [newline]) datas) @ rest\<rparr>"
  have "newline \<notin> set data" "int (length data + 1) \<le> cd_max c" using Cons.prems(1) [of data] by simp_all
  then have "read_request decode Arrived c = (Inr rq, ?c)"
    using read_line_next [of data c "concat (map (\<lambda>data. data @ [newline]) datas) @ rest"] Cons.prems(2)
      Cons.prems(4) [of rq] rqs by (simp add: read_request_def)
  moreover have "read_requests decode (length rqs') ?c = (map Inr rqs', ?c\<lparr>cd_in := rest\<rparr>)"
  proof (rule Cons.IH)
    show "newline \<notin> set d \<and> int (length d + 1) \<le> cd_max ?c" if "d \<in> set datas" for d
      using Cons.prems(1) [of d] that by simp
    show "rqJSONRPC q = rpc_version \<and> rqMethod q \<noteq> []" if "q \<in> set rqs'" for q
      using Cons.prems(4) [of q] that rqs(1) by simp
  qed (use rqs(3) in simp_all)
  ultimately show ?case using rqs(1) by simp
qed simp

text \<open>Decoding what was encoded.\<close>

lemma decoded_lines:
  assumes "map (\<lambda>rq. encode (versioned rq)) rqs = map Inr datas"
    and "\<And>rq data. rq \<in> set rqs \<Longrightarrow> encode (versioned rq) = Inr data \<Longrightarrow>
      newline \<notin> set data \<and> decode (data @ [newline]) = Inr (versioned rq)"
  shows "map (\<lambda>data. decode (data @ [newline])) datas = map Inr (map versioned rqs)"
  using assms
proof (induction rqs arbitrary: datas)
  case (Cons rq rqs)
  then obtain data rest where d: "datas = data # rest" "encode (versioned rq) = Inr data"
      "map (\<lambda>rq. encode (versioned rq)) rqs = map Inr rest"
    by (cases datas) auto
  have "decode (data @ [newline]) = Inr (versioned rq)" using Cons.prems(2) [OF _ d(2)] by simp
  moreover have "map (\<lambda>data. decode (data @ [newline])) rest = map Inr (map versioned rqs)"
    using d(3) Cons.prems(2) [OF list.set_intros(2)] by (rule Cons.IH)
  ultimately show ?case using d(1) by simp
qed simp

end
