(* ===== verification/CodecProps.thy ===== *)
theory CodecProps
  imports Codec
begin

text \<open>The properties of the JSON-RPC transport.\<close>

section \<open>Round trip\<close>

text \<open>C7: Requests that one codec has written are read by another with the same or a larger limit as
  they were, in their order and with the version filled in, and nothing of what follows them is
  consumed.\<close>
theorem codec_roundtrip:
  assumes "write_requests encode rqs c = (None, c')" "cd_out c = []"
    and "cd_in r = cd_out c' @ rest" "cd_max c \<le> cd_max r"
    and "\<And>rq data. rq \<in> set rqs \<Longrightarrow> encode (versioned rq) = Inr data \<Longrightarrow>
      newline \<notin> set data \<and> decode (data @ [newline]) = Inr (versioned rq)"
    and "\<And>rq. rq \<in> set rqs \<Longrightarrow> rqMethod rq \<noteq> [] \<and> (rqJSONRPC rq = [] \<or> rqJSONRPC rq = rpc_version)"
  shows "read_requests decode (length rqs) r = (map (\<lambda>rq. Inr (versioned rq)) rqs, r\<lparr>cd_in := rest\<rparr>)"
proof -
  from write_requests_lines [OF assms(1)] obtain datas where
    d: "map (\<lambda>rq. encode (versioned rq)) rqs = map Inr datas" "\<forall>data \<in> set datas. int (length data + 1) \<le> cd_max c"
    and out: "cd_out c' = concat (map (\<lambda>data. data @ [newline]) datas)"
    using assms(2) by auto
  have from_request: "\<exists>rq \<in> set rqs. encode (versioned rq) = Inr data" if "data \<in> set datas" for data
  proof -
    have "Inr data \<in> set (map (\<lambda>rq. encode (versioned rq)) rqs)" unfolding d(1) using that by simp
    then show ?thesis by auto
  qed
  have decoded: "map (\<lambda>data. decode (data @ [newline])) datas = map Inr (map versioned rqs)"
    using d(1) assms(5) by (rule decoded_lines)
  have "read_requests decode (length (map versioned rqs)) r = (map Inr (map versioned rqs), r\<lparr>cd_in := rest\<rparr>)"
  proof (rule read_requests_lines)
    show "newline \<notin> set data \<and> int (length data + 1) \<le> cd_max r" if "data \<in> set datas" for data
      using from_request [OF that] assms(4,5) d(2) that by force
    show "rqJSONRPC q = rpc_version \<and> rqMethod q \<noteq> []" if "q \<in> set (map versioned rqs)" for q
      using that assms(6) by (auto simp: versioned_def)
  qed (use assms(3) out decoded in simp_all)
  then show ?thesis by (simp add: comp_def)
qed

definition sample_call :: "string \<Rightarrow> rpc_request" where
  "sample_call method = \<lparr>rqJSONRPC = [], rqID = ''1'', rqMethod = method, rqParams = None\<rparr>"

text \<open>A toy encoding of the sample calls: the method alone.\<close>

definition sample_encode :: "rpc_request \<Rightarrow> string res" where
  "sample_encode rq = Inr (rqMethod rq)"

definition sample_decode :: "string \<Rightarrow> rpc_request res" where
  "sample_decode line = Inr (versioned (sample_call (butlast line)))"

theorem codec_roundtrip_witness:
  "fst (read_requests sample_decode 2 (new_codec ''plugin.health
plugin.stop
'' (New ''EOF'') 64)) =
   [Inr (versioned (sample_call ''plugin.health'')), Inr (versioned (sample_call ''plugin.stop''))]"
proof -
  let ?rqs = "[sample_call ''plugin.health'', sample_call ''plugin.stop'']"
  obtain c' where w: "write_requests sample_encode ?rqs (new_codec [] (New ''EOF'') 64) = (None, c')"
    and out: "cd_out c' = ''plugin.health
plugin.stop
''"
    by (simp add: write_request_def write_json_def sample_encode_def versioned_def sample_call_def new_codec_def)
  have json: "newline \<notin> set data \<and> sample_decode (data @ [newline]) = Inr (versioned rq)"
    if "rq \<in> set ?rqs" "sample_encode (versioned rq) = Inr data" for rq data
    using that by (auto simp: sample_encode_def sample_decode_def versioned_def sample_call_def)
  have ok: "rqMethod rq \<noteq> [] \<and> (rqJSONRPC rq = [] \<or> rqJSONRPC rq = rpc_version)" if "rq \<in> set ?rqs" for rq
    using that by (auto simp: sample_call_def)
  have "read_requests sample_decode (length ?rqs) (new_codec (cd_out c' @ []) (New ''EOF'') 64) =
      (map (\<lambda>rq. Inr (versioned rq)) ?rqs, (new_codec (cd_out c' @ []) (New ''EOF'') 64)\<lparr>cd_in := []\<rparr>)"
    by (rule codec_roundtrip [OF w _ _ _ json ok]) (simp_all add: new_codec_def)
  then show ?thesis by (simp add: out numeral_2_eq_2)
qed

section \<open>Limits\<close>

text \<open>C32: A message longer than the limit is never written, not even in part, and one that is received
  is refused; the line is consumed whole, so the message after it is read as if it had not been
  there.\<close>
theorem oversize_skipped:
  assumes "newline \<notin> set data" "cd_max c < int (length data + 1)"
  shows "write_json out (Inr data) c = (Some err_payload_too_large, c) \<and>
    (cd_in c = data @ newline # rest \<longrightarrow>
       read_request decode Arrived c = (Inl err_payload_too_large, c\<lparr>cd_in := rest\<rparr>))"
  using assms read_line_next [OF assms(1), of c rest] by (simp add: write_json_def read_request_def)

theorem oversize_skipped_witness:
  "read_request sample_decode Arrived (new_codec (''abcd'' @ newline # ''x'') (New ''EOF'') 4) =
     (Inl err_payload_too_large, new_codec ''x'' (New ''EOF'') 4)"
  using oversize_skipped [of "''abcd''" "new_codec (''abcd'' @ newline # ''x'') (New ''EOF'') 4" Written "''x''" sample_decode]
  by (simp add: new_codec_def)

section \<open>Cancelled reads\<close>

text \<open>C31: A read that is cancelled leaves a goroutine that takes the next line: the message that arrives
  next is lost, and the read after it returns the message that follows.\<close>
theorem cancelled_read_loses_message:
  assumes "cd_in c = data @ newline # data' @ newline # rest" "newline \<notin> set data" "newline \<notin> set data'"
    and "cd_readers c = 0" "int (length data' + 1) \<le> cd_max c"
  shows "fst (read_line (ReadCancelled e) c) = Inl e \<and>
    read_line Arrived (late_read (snd (read_line (ReadCancelled e) c))) = (Inr (data' @ [newline]), c\<lparr>cd_in := rest\<rparr>)"
proof -
  have "late_read (snd (read_line (ReadCancelled e) c)) = c\<lparr>cd_in := data' @ newline # rest\<rparr>"
    using assms by (simp add: read_line_def late_read_def)
  then show ?thesis
    using read_line_next [OF assms(3), of "c\<lparr>cd_in := data' @ newline # rest\<rparr>" rest] assms(5)
    by (simp add: read_line_def)
qed

theorem cancelled_read_loses_message_witness:
  "fst (read_line Arrived (late_read (snd (read_line (ReadCancelled (New ''context canceled''))
     (new_codec (''a'' @ newline # ''b'' @ newline # []) (New ''EOF'') 64))))) = Inr (''b'' @ [newline])"
  using cancelled_read_loses_message [of "new_codec (''a'' @ newline # ''b'' @ newline # []) (New ''EOF'') 64" "''a''" "''b''" "[]" "New ''context canceled''"]
  by (simp add: new_codec_def)

end
