(* ===== verification/Control.thy ===== *)
theory Control
  imports PluginLife
begin

text \<open>
  The control API, \<^verbatim>\<open>internal/control/server.go\<close>: an HTTP server over an interface to the
  runtime. The decoding of JSON is an argument; replies name the value that is encoded. The
  multiplexer is that of \<^verbatim>\<open>net/http\<close>, for paths in which nothing is escaped.
\<close>

section \<open>The interface to the runtime\<close>

text \<open>The interface \<^verbatim>\<open>Runtime\<close>, on a state \<open>'s\<close>. \<open>None\<close> is a call that has not returned.\<close>

record 's control_api =
  ca_statuses :: "'s \<Rightarrow> process_status list \<times> 's"
  ca_configured :: "'s \<Rightarrow> plugin_item list"
  ca_events :: "'s \<Rightarrow> event list"
  ca_actions :: "'s \<Rightarrow> action list \<times> 's"
  ca_pending :: "'s \<Rightarrow> action list \<times> 's"
  ca_workflows :: "'s \<Rightarrow> workflow list \<times> 's"
  ca_logs :: "int \<Rightarrow> 's \<Rightarrow> string res"
  ca_approve :: "string \<Rightarrow> 's \<Rightarrow> (action res \<times> 's) option"
  ca_deny :: "string \<Rightarrow> 's \<Rightarrow> (action res \<times> 's) option"
  ca_reload :: "workflow list \<Rightarrow> 's \<Rightarrow> error option \<times> 's"
  ca_enable :: "string \<Rightarrow> 's \<Rightarrow> error option \<times> 's"
  ca_disable :: "string \<Rightarrow> 's \<Rightarrow> error option \<times> 's"
  ca_emit :: "event \<Rightarrow> 's \<Rightarrow> (error option \<times> 's) option"
  ca_configure :: "string \<Rightarrow> bool \<Rightarrow> string gomap \<Rightarrow> 's \<Rightarrow> (error option \<times> 's) option"

section \<open>Requests and replies\<close>

text \<open>
  \<open>hqLimit\<close> is the value of the query parameter \<^verbatim>\<open>limit\<close>, empty when there is none;
  \<open>hqFlusher\<close> says whether the response writer can flush.
\<close>

record http_request =
  hqMethod :: string
  hqPath :: string
  hqLimit :: string
  hqBody :: string
  hqFlusher :: bool

record json_bodies =
  jbEvent :: "string \<Rightarrow> event res"
  jbConfigure :: "string \<Rightarrow> (string \<times> bool \<times> string gomap) res"
  jbReload :: "string \<Rightarrow> workflow list res"

datatype payload =
    JHealth
  | JOk
  | JOkID string
  | JStatus "process_status list" "plugin_item list" "event list" "action list" "action list" "workflow list"
  | JStatuses "process_status list"
  | JEvents "event list"
  | JActions "action list"
  | JWorkflows "workflow list"
  | JContent string
  | JText string
  | JAction action

datatype stream = EventsStream | ActionsStream | LogStream int

datatype http_reply = HJson payload | HError nat string | HEmpty nat | HRedirect string | HStream stream

fun reply_code :: "http_reply \<Rightarrow> nat" where
  "reply_code (HJson _) = 200"
| "reply_code (HError n _) = n"
| "reply_code (HEmpty n) = n"
| "reply_code (HRedirect _) = 301"
| "reply_code (HStream _) = 200"

type_synonym 's http_handler = "http_request \<Rightarrow> 's \<Rightarrow> (http_reply \<times> 's) option"

definition not_allowed :: http_reply where
  "not_allowed = HError 405 ''method not allowed''"

definition not_found :: http_reply where
  "not_found = HError 404 ''404 page not found''"

definition bad_request :: "error \<Rightarrow> http_reply" where
  "bad_request e = HError 400 (error_text e)"

section \<open>Handlers\<close>

definition ct_health :: "'s http_handler" where
  "ct_health rq s = Some (HJson JHealth, s)"

definition ct_status :: "'s control_api \<Rightarrow> 's http_handler" where
  "ct_status api rq s =
     (let (plugins, s1) = ca_statuses api s; configured = ca_configured api s1; events = ca_events api s1;
          (actions, s2) = ca_actions api s1; (pending, s3) = ca_pending api s2;
          (workflows, s4) = ca_workflows api s3
      in Some (HJson (JStatus plugins configured events actions pending workflows), s4))"

definition ct_plugins :: "'s control_api \<Rightarrow> 's http_handler" where
  "ct_plugins api rq s = (let (plugins, s1) = ca_statuses api s in Some (HJson (JStatuses plugins), s1))"

text \<open>The end of a handler that changes something: the error as a bad request, or the acknowledgement.\<close>

definition acknowledge :: "payload \<Rightarrow> error option \<times> 's \<Rightarrow> http_reply \<times> 's" where
  "acknowledge ok r = (case r of (Some e, s) \<Rightarrow> (bad_request e, s) | (None, s) \<Rightarrow> (HJson ok, s))"

definition ct_configure_plugin :: "'s control_api \<Rightarrow> json_bodies \<Rightarrow> 's http_handler" where
  "ct_configure_plugin api jb rq s =
     (if hqMethod rq \<noteq> ''POST'' then Some (not_allowed, s)
      else (case jbConfigure jb (hqBody rq) of
              Inl e \<Rightarrow> Some (bad_request e, s)
            | Inr (i, enabled, env) \<Rightarrow> map_option (acknowledge JOk) (ca_configure api i enabled env s)))"

text \<open>The identifier in the reply is that of the request, before \<^verbatim>\<open>EmitEvent\<close> may give it one.\<close>

definition ct_events_route :: "'s control_api \<Rightarrow> json_bodies \<Rightarrow> 's http_handler" where
  "ct_events_route api jb rq s =
     (if hqMethod rq = ''POST'' then
        (case jbEvent jb (hqBody rq) of
           Inl e \<Rightarrow> Some (bad_request e, s)
         | Inr ev \<Rightarrow> map_option (acknowledge (JOkID (evID ev))) (ca_emit api ev s))
      else Some (HJson (JEvents (ca_events api s)), s))"

definition ct_actions :: "'s control_api \<Rightarrow> 's http_handler" where
  "ct_actions api rq s = (let (actions, s1) = ca_actions api s in Some (HJson (JActions actions), s1))"

definition ct_workflows :: "'s control_api \<Rightarrow> 's http_handler" where
  "ct_workflows api rq s = (let (workflows, s1) = ca_workflows api s in Some (HJson (JWorkflows workflows), s1))"

definition parse_log_limit :: "string \<Rightarrow> int option" where
  "parse_log_limit raw =
     (if raw = [] then Some (64 * 1024)
      else (case parse_int64 raw of
              None \<Rightarrow> None
            | Some parsed \<Rightarrow> if parsed < 0 then None else Some parsed))"

definition ct_logs :: "'s control_api \<Rightarrow> 's http_handler" where
  "ct_logs api rq s =
     (case parse_log_limit (hqLimit rq) of
        None \<Rightarrow> Some (HError 400 ''invalid limit'', s)
      | Some limit \<Rightarrow>
          (case ca_logs api limit s of
             Inl e \<Rightarrow> Some (HError 500 (error_text e), s)
           | Inr content \<Rightarrow> Some (HJson (JContent content), s)))"

text \<open>A stream is entered when the writer can flush; what it then sends is below.\<close>

definition ct_stream :: "stream \<Rightarrow> 's http_handler" where
  "ct_stream kind rq s =
     Some (if hqFlusher rq then HStream kind else HError 500 ''streaming unsupported'', s)"

definition ct_log_stream :: "'s http_handler" where
  "ct_log_stream rq s =
     (case parse_log_limit (hqLimit rq) of
        None \<Rightarrow> Some (HError 400 ''invalid limit'', s)
      | Some limit \<Rightarrow> ct_stream (LogStream limit) rq s)"

definition ct_workflow_mutation :: "'s control_api \<Rightarrow> 's http_handler" where
  "ct_workflow_mutation api rq s =
     (if hqMethod rq \<noteq> ''POST'' then Some (not_allowed, s)
      else (case split_on (CHR ''/'') (trim_prefix (hqPath rq) ''/api/workflows/'') of
              [i, operation] \<Rightarrow>
                if operation = ''enable'' then Some (acknowledge JOk (ca_enable api i s))
                else if operation = ''disable'' then Some (acknowledge JOk (ca_disable api i s))
                else Some (not_found, s)
            | _ \<Rightarrow> Some (not_found, s)))"

definition ct_reload_workflows :: "'s control_api \<Rightarrow> json_bodies \<Rightarrow> 's http_handler" where
  "ct_reload_workflows api jb rq s =
     (if hqMethod rq \<noteq> ''POST'' then Some (not_allowed, s)
      else (case jbReload jb (hqBody rq) of
              Inl e \<Rightarrow> Some (bad_request e, s)
            | Inr ws \<Rightarrow> Some (acknowledge JOk (ca_reload api ws s))))"

definition action_reply :: "action res \<times> 's \<Rightarrow> http_reply \<times> 's" where
  "action_reply r = (case r of (Inl e, s) \<Rightarrow> (bad_request e, s) | (Inr a, s) \<Rightarrow> (HJson (JAction a), s))"

definition ct_action_mutation :: "'s control_api \<Rightarrow> 's http_handler" where
  "ct_action_mutation api rq s =
     (if hqMethod rq \<noteq> ''POST'' then Some (not_allowed, s)
      else (case split_on (CHR ''/'') (trim_prefix (hqPath rq) ''/api/actions/'') of
              [i, operation] \<Rightarrow>
                if operation = ''approve'' then map_option action_reply (ca_approve api i s)
                else if operation = ''deny'' then map_option action_reply (ca_deny api i s)
                else Some (not_found, s)
            | _ \<Rightarrow> Some (not_found, s)))"

section \<open>Routing\<close>

text \<open>The patterns in the order in which \<^verbatim>\<open>New\<close> registers them.\<close>

definition routes :: "'s control_api \<Rightarrow> json_bodies \<Rightarrow> (string \<times> 's http_handler) list" where
  "routes api jb =
     [(''/health'', ct_health),
      (''/api/status'', ct_status api),
      (''/api/plugins'', ct_plugins api),
      (''/api/plugins/configure'', ct_configure_plugin api jb),
      (''/api/events'', ct_events_route api jb),
      (''/api/events/stream'', ct_stream EventsStream),
      (''/api/actions'', ct_actions api),
      (''/api/actions/stream'', ct_stream ActionsStream),
      (''/api/workflows'', ct_workflows api),
      (''/api/logs'', ct_logs api),
      (''/api/logs/stream'', ct_log_stream),
      (''/api/actions/'', ct_action_mutation api),
      (''/api/workflows/reload'', ct_reload_workflows api jb),
      (''/api/workflows/'', ct_workflow_mutation api)]"

text \<open>
  A pattern that ends in a slash matches every path below it, the others only themselves; the
  longest pattern wins, which here is the exact one, since no two of the patterns with a
  slash at the end match the same path.
\<close>

definition find_handler :: "(string \<times> 'h) list \<Rightarrow> string \<Rightarrow> 'h option" where
  "find_handler rs path =
     (case map_of rs path of
        Some h \<Rightarrow> Some h
      | None \<Rightarrow> map_option snd (find (\<lambda>(p, _). has_suffix p ''/'' \<and> has_prefix path p) rs))"

lemma has_suffix_last: "s \<noteq> [] \<Longrightarrow> has_suffix s [c] \<longleftrightarrow> last s = c"
  by (cases s rule: rev_cases) (auto simp: has_suffix_def)

definition clean_url :: "string \<Rightarrow> string" where
  "clean_url p =
     (let p1 = (if is_abs p then p else CHR ''/'' # p); np = clean p1
      in if has_suffix p1 ''/'' \<and> np \<noteq> ''/'' then np @ ''/'' else np)"

lemma clean_url_plain:
  assumes "cs \<noteq> []" "\<forall>c \<in> set cs. plain_element c"
  shows "clean_url (CHR ''/'' # joined ''/'' cs) = CHR ''/'' # joined ''/'' cs"
proof -
  have "clean (CHR ''/'' # joined ''/'' cs) = CHR ''/'' # joined ''/'' cs"
    using elements_rooted [OF assms(2)] by (simp add: clean_def is_abs_def has_prefix_def)
  moreover have "\<not> has_suffix (CHR ''/'' # joined ''/'' cs) ''/''"
    using joined_end [OF assms] by (simp add: has_suffix_last)
  ultimately show ?thesis by (simp add: clean_url_def is_abs_def has_prefix_def)
qed

definition mux :: "(string \<times> 's http_handler) list \<Rightarrow> 's http_handler" where
  "mux rs rq s =
     (if hqMethod rq \<noteq> ''CONNECT'' \<and> clean_url (hqPath rq) \<noteq> hqPath rq
      then Some (HRedirect (clean_url (hqPath rq)), s)
      else (case find_handler rs (hqPath rq) of
              None \<Rightarrow> Some (not_found, s)
            | Some h \<Rightarrow> h rq s))"

text \<open>The headers are set on every reply, before those of the handler.\<close>

definition cors_headers :: "(string \<times> string) list" where
  "cors_headers =
     [(''Access-Control-Allow-Origin'', ''*''), (''Access-Control-Allow-Methods'', ''GET,POST,OPTIONS''),
      (''Access-Control-Allow-Headers'', ''Content-Type'')]"

definition reply_headers :: "http_reply \<Rightarrow> (string \<times> string) list" where
  "reply_headers r =
     cors_headers @
     (case r of
        HJson _ \<Rightarrow> [(''Content-Type'', ''application/json'')]
      | HStream _ \<Rightarrow> [(''Content-Type'', ''text/event-stream''), (''Cache-Control'', ''no-cache''),
                       (''Connection'', ''keep-alive'')]
      | _ \<Rightarrow> [])"

definition with_cors :: "'s http_handler \<Rightarrow> 's http_handler" where
  "with_cors next rq s = (if hqMethod rq = ''OPTIONS'' then Some (HEmpty 204, s) else next rq s)"

definition serve :: "'s control_api \<Rightarrow> json_bodies \<Rightarrow> 's http_handler" where
  "serve api jb = with_cors (mux (routes api jb))"

text \<open>What \<^verbatim>\<open>New\<close> makes: the address to listen on and the handler.\<close>

definition new_control :: "string \<Rightarrow> 's control_api \<Rightarrow> json_bodies \<Rightarrow> string \<times> 's http_handler" where
  "new_control addr api jb = (if addr = [] then '':8090'' else addr, serve api jb)"

text \<open>
  \<^verbatim>\<open>Shutdown\<close> closes the listener and waits until every connection is idle. A handler that replies
  once comes to its end; the loop of a stream ends only when its client goes or its log cannot be
  read, \<open>leaves c\<close>. The open connections are given by their clients and replies.
\<close>

definition control_shutdown :: "(nat \<times> http_reply) list \<Rightarrow> (nat \<Rightarrow> bool) \<Rightarrow> error option option" where
  "control_shutdown conns leaves =
     (if list_all (\<lambda>(c, r). case r of HStream _ \<Rightarrow> leaves c | _ \<Rightarrow> True) conns then Some None else None)"

section \<open>Streams\<close>

text \<open>
  The loops of the streams, over what the runtime shows at each turn; after the last the client
  has gone. Between two turns there is a heartbeat.
\<close>

datatype chunk = Data payload | Failure string | Heartbeat

fun events_stream :: "string \<Rightarrow> event list list \<Rightarrow> chunk list" where
  "events_stream last_id [] = []"
| "events_stream last_id (es # turns) =
     (let sent = es \<noteq> [] \<and> evID (last es) \<noteq> last_id
      in (if sent then [Data (JEvents es)] else []) @
         (if turns = [] then []
          else Heartbeat # events_stream (if sent then evID (last es) else last_id) turns))"

fun actions_stream :: "nat \<Rightarrow> action list list \<Rightarrow> chunk list" where
  "actions_stream last_count [] = []"
| "actions_stream last_count (as # turns) =
     (let sent = length as \<noteq> last_count
      in (if sent then [Data (JActions as)] else []) @
         (if turns = [] then []
          else Heartbeat # actions_stream (if sent then length as else last_count) turns))"

definition one_line :: "string \<Rightarrow> string" where
  "one_line s = replace_all s [CHR 0x0A] '' ''"

fun log_stream :: "string \<Rightarrow> string res list \<Rightarrow> chunk list" where
  "log_stream last_content [] = []"
| "log_stream last_content (Inl e # turns) = [Failure (one_line (error_text e))]"
| "log_stream last_content (Inr content # turns) =
     (let sent = content \<noteq> last_content
      in (if sent then [Data (JText content)] else []) @
         (if turns = [] then []
          else Heartbeat # log_stream (if sent then content else last_content) turns))"

section \<open>The runtime behind the API\<close>

text \<open>\<open>pause\<close> is what other goroutines do while \<^verbatim>\<open>ConfigurePlugin\<close> sleeps.\<close>

definition rt_control ::
  "'d publisher \<Rightarrow> 'd ops \<Rightarrow> files \<Rightarrow> ('d runtime \<Rightarrow> 'd runtime) \<Rightarrow> (string \<Rightarrow> string res) \<Rightarrow> 'd runtime control_api" where
  "rt_control publish ops fl pause read_file =
     \<lparr>ca_statuses = (\<lambda>s. let (p, s1) = read_order s; (now, s2) = read_now s1 in (plugin_statuses p now s2, s2)),
      ca_configured = configured_plugins fl,
      ca_events = recent_events,
      ca_actions = (\<lambda>s. let (p, s1) = read_order s in (runtime_actions p s1, s1)),
      ca_pending = (\<lambda>s. let (p, s1) = read_order s in (pending_actions p s1, s1)),
      ca_workflows = (\<lambda>s. let (p, s1) = read_order s in (runtime_workflows p s1, s1)),
      ca_logs = runtime_logs read_file,
      ca_approve = approve_action publish ops,
      ca_deny = deny_action publish ops,
      ca_reload = reload_workflows ops,
      ca_enable = enable_workflow ops,
      ca_disable = disable_workflow ops,
      ca_emit = emit_event publish,
      ca_configure = configure_plugin publish fl pause\<rparr>"

section \<open>What serving keeps\<close>

text \<open>A predicate that reading keeps is kept by every request that is not a POST.\<close>

locale control_reads =
  fixes api :: "'s control_api" and P :: "'s \<Rightarrow> bool"
  assumes keeps_statuses: "P s \<Longrightarrow> ca_statuses api s = (x, s') \<Longrightarrow> P s'"
    and keeps_actions: "P s \<Longrightarrow> ca_actions api s = (as, s') \<Longrightarrow> P s'"
    and keeps_pending: "P s \<Longrightarrow> ca_pending api s = (as, s') \<Longrightarrow> P s'"
    and keeps_workflows: "P s \<Longrightarrow> ca_workflows api s = (ws, s') \<Longrightarrow> P s'"
begin

lemma status_keeps: "P s \<Longrightarrow> ct_status api rq s = Some (r, s') \<Longrightarrow> P s'"
  unfolding ct_status_def Let_def
  by (auto split: prod.splits) (metis keeps_statuses keeps_actions keeps_pending keeps_workflows)

text \<open>Handlers that only read, and the others when the method is not POST.\<close>

lemmas reading = keeps_statuses [rotated] keeps_actions [rotated] keeps_workflows [rotated] status_keeps [rotated]

lemmas handlers = ct_health_def ct_plugins_def ct_configure_plugin_def ct_events_route_def ct_actions_def
  ct_workflows_def ct_logs_def ct_stream_def ct_log_stream_def ct_workflow_mutation_def
  ct_reload_workflows_def ct_action_mutation_def

lemma handler_keeps:
  assumes "(p, h) \<in> set (routes api jb)" "h rq s = Some (r, s')" "hqMethod rq \<noteq> ''POST''" "P s"
  shows "P s'"
  using assms
  by (auto simp: routes_def handlers split: prod.splits option.splits sum.splits if_splits intro: reading)

end

lemma find_handler_in: "find_handler rs path = Some h \<Longrightarrow> \<exists>p. (p, h) \<in> set rs"
  by (auto simp: find_handler_def find_Some_iff split: option.splits dest: map_of_SomeD) (metis nth_mem)

lemma serve_cases:
  assumes "serve api jb rq s = Some (r, s')"
  shows "s' = s \<or> (\<exists>p h. (p, h) \<in> set (routes api jb) \<and> h rq s = Some (r, s'))"
  using assms
  by (auto simp: serve_def with_cors_def mux_def split: if_splits option.splits dest: find_handler_in)

context control_reads
begin

lemma get_keeps: "serve api jb rq s = Some (r, s') \<Longrightarrow> hqMethod rq \<noteq> ''POST'' \<Longrightarrow> P s \<Longrightarrow> P s'"
  using serve_cases [of api jb rq s r s'] handler_keeps [of _ _ jb rq s r s'] by blast

end

text \<open>A predicate that the whole interface keeps is kept by every request.\<close>

locale control_keeps = control_reads +
  assumes keeps_approve: "P s \<Longrightarrow> ca_approve api i s = Some (ar, s') \<Longrightarrow> P s'"
    and keeps_deny: "P s \<Longrightarrow> ca_deny api i s = Some (ar, s') \<Longrightarrow> P s'"
    and keeps_reload: "P s \<Longrightarrow> ca_reload api ws s = (er, s') \<Longrightarrow> P s'"
    and keeps_enable: "P s \<Longrightarrow> ca_enable api i s = (er, s') \<Longrightarrow> P s'"
    and keeps_disable: "P s \<Longrightarrow> ca_disable api i s = (er, s') \<Longrightarrow> P s'"
    and keeps_emit: "P s \<Longrightarrow> ca_emit api e s = Some (er, s') \<Longrightarrow> P s'"
    and keeps_configure: "P s \<Longrightarrow> ca_configure api i b env s = Some (er, s') \<Longrightarrow> P s'"
begin

lemma acknowledge_state: "acknowledge ok (er, s) = (r, s') \<Longrightarrow> s' = s"
  by (auto simp: acknowledge_def split: option.splits)

lemma action_reply_state: "action_reply (ar, s) = (r, s') \<Longrightarrow> s' = s"
  by (auto simp: action_reply_def split: sum.splits)

lemmas changing = keeps_approve [rotated] keeps_deny [rotated] keeps_reload [rotated] keeps_enable [rotated]
  keeps_disable [rotated] keeps_emit [rotated] keeps_configure [rotated]

lemma configure_plugin_keeps: "P s \<Longrightarrow> ct_configure_plugin api jb rq s = Some (r, s') \<Longrightarrow> P s'"
  by (auto simp: ct_configure_plugin_def split: if_splits sum.splits dest!: acknowledge_state intro: changing)

lemma events_route_keeps: "P s \<Longrightarrow> ct_events_route api jb rq s = Some (r, s') \<Longrightarrow> P s'"
  by (auto simp: ct_events_route_def split: if_splits sum.splits dest!: acknowledge_state intro: changing)

lemma reload_keeps: "P s \<Longrightarrow> ct_reload_workflows api jb rq s = Some (r, s') \<Longrightarrow> P s'"
proof -
  assume P: "P s" and r: "ct_reload_workflows api jb rq s = Some (r, s')"
  show ?thesis
  proof (cases "s' = s")
    case False
    with r obtain ws where "acknowledge JOk (ca_reload api ws s) = (r, s')"
      by (auto simp: ct_reload_workflows_def split: if_splits sum.splits)
    with P show ?thesis by (cases "ca_reload api ws s") (auto dest: acknowledge_state intro: changing)
  qed (use P in simp)
qed

lemma workflow_mutation_keeps: "P s \<Longrightarrow> ct_workflow_mutation api rq s = Some (r, s') \<Longrightarrow> P s'"
proof -
  assume P: "P s" and r: "ct_workflow_mutation api rq s = Some (r, s')"
  show ?thesis
  proof (cases "s' = s")
    case False
    with r obtain i where "acknowledge JOk (ca_enable api i s) = (r, s') \<or> acknowledge JOk (ca_disable api i s) = (r, s')"
      by (auto simp: ct_workflow_mutation_def split: if_splits list.splits)
    with P show ?thesis
      by (cases "ca_enable api i s"; cases "ca_disable api i s") (auto dest: acknowledge_state intro: changing)
  qed (use P in simp)
qed

lemma action_mutation_keeps: "P s \<Longrightarrow> ct_action_mutation api rq s = Some (r, s') \<Longrightarrow> P s'"
  by (auto simp: ct_action_mutation_def split: if_splits list.splits dest!: action_reply_state intro: changing)

lemma any_handler_keeps:
  assumes "(p, h) \<in> set (routes api jb)" "h rq s = Some (r, s')" "P s"
  shows "P s'"
proof (cases "hqMethod rq = ''POST''")
  case False
  with assms show ?thesis by (blast intro: handler_keeps)
next
  case True
  from assms show ?thesis
    by (auto simp: routes_def ct_health_def ct_plugins_def ct_actions_def ct_workflows_def ct_logs_def ct_stream_def ct_log_stream_def
        split: prod.splits option.splits sum.splits if_splits
        intro: reading configure_plugin_keeps [rotated] events_route_keeps [rotated] reload_keeps [rotated]
          workflow_mutation_keeps [rotated] action_mutation_keeps [rotated])
qed

lemma serve_keeps: "serve api jb rq s = Some (r, s') \<Longrightarrow> P s \<Longrightarrow> P s'"
  using serve_cases [of api jb rq s r s'] any_handler_keeps [of _ _ jb rq s r s'] by blast

end

end
