(* ===== verification/Commands.thy ===== *)
theory Commands
  imports Control TimeText
begin

text \<open>
  The logger (\<^verbatim>\<open>internal/logger/logger.go\<close>), the daemon (\<^verbatim>\<open>cmd/auxitalkd/main.go\<close>), the command
  line tool (\<^verbatim>\<open>cmd/auxitalkctl/main.go\<close>) and the saving of a configuration. What they print is
  a result; flags are parsed before, and the network and the file system are arguments.
\<close>

abbreviation line_end :: string where
  "line_end \<equiv> [CHR 0x0A]"

section \<open>The logger\<close>

text \<open>
  The file the logger holds, if any, and whether it writes to it besides standard output;
  \<open>lg_stdout\<close> and \<open>lg_content\<close> are what has been written to standard output and to files.
\<close>

record logger =
  lg_file :: "string option"
  lg_tee :: bool
  lg_stdout :: string
  lg_content :: "string gomap"

definition content_of :: "logger \<Rightarrow> string \<Rightarrow> string" where
  "content_of l path = (case map_of (lg_content l) path of None \<Rightarrow> [] | Some text \<Rightarrow> text)"

text \<open>Making the directory and opening the file for appending, each an error or not.\<close>

definition lg_init ::
  "(string \<Rightarrow> error option) \<Rightarrow> (string \<Rightarrow> error option) \<Rightarrow> string \<Rightarrow> logger \<Rightarrow> error option \<times> logger" where
  "lg_init mkdir_all open_append path l =
     (if path = [] then (None, l)
      else (case mkdir_all (dir path) of
              Some e \<Rightarrow> (Some e, l)
            | None \<Rightarrow>
                (case open_append path of
                   Some e \<Rightarrow> (Some e, l)
                 | None \<Rightarrow> (None, l\<lparr>lg_file := Some path, lg_tee := True\<rparr>))))"

definition lg_close :: "(string \<Rightarrow> error option) \<Rightarrow> logger \<Rightarrow> error option \<times> logger" where
  "lg_close close l =
     (case lg_file l of
        None \<Rightarrow> (None, l)
      | Some path \<Rightarrow> (close path, l\<lparr>lg_file := None, lg_tee := False\<rparr>))"

text \<open>The format \<^verbatim>\<open>2006-01-02 15:04:05\<close>.\<close>

definition log_stamp :: "gotime \<Rightarrow> string" where
  "log_stamp t =
     (let secs = t_ns t div 10 ^ 9 + t_off t; (y, m, d) = civil (secs div 86400); s = secs mod 86400
      in pad 4 y @ ''-'' @ pad 2 m @ ''-'' @ pad 2 d @ '' '' @
         pad 2 (s div 3600) @ '':'' @ pad 2 (s mod 3600 div 60) @ '':'' @ pad 2 (s mod 60))"

text \<open>\<open>message\<close> is the formatted text.\<close>

definition lg_printf :: "gotime \<Rightarrow> string \<Rightarrow> logger \<Rightarrow> logger" where
  "lg_printf now message l =
     (let text = log_stamp now @ '' '' @ message; l1 = l\<lparr>lg_stdout := lg_stdout l @ text\<rparr>
      in (case lg_file l of
            None \<Rightarrow> l1
          | Some path \<Rightarrow>
              if lg_tee l then l1\<lparr>lg_content := AList.update path (content_of l path @ text) (lg_content l)\<rparr>
              else l1))"

section \<open>Saving a configuration\<close>

text \<open>Files are a map; \<open>failure\<close> is the error of writing one.\<close>

definition save_config ::
  "(config \<Rightarrow> string res) \<Rightarrow> (string \<Rightarrow> error option) \<Rightarrow> config \<Rightarrow> string \<Rightarrow> string gomap \<Rightarrow> error option \<times> string gomap" where
  "save_config marshal failure c path fs =
     (case marshal c of
        Inl e \<Rightarrow> (Some (Wrap ''marshal config: '' e []), fs)
      | Inr data \<Rightarrow>
          (case failure path of
             Some e \<Rightarrow> (Some (Wrap ''write config: '' e []), fs)
           | None \<Rightarrow> (None, AList.update path data fs)))"

text \<open>
  The JSON of a duration is the JSON of its text. \<open>show\<close> is \<^verbatim>\<open>Duration.String\<close>, \<open>parse\<close> is
  \<^verbatim>\<open>time.ParseDuration\<close>, \<open>quoted\<close> is \<^verbatim>\<open>%q\<close>.
\<close>

definition duration_marshal :: "(string \<Rightarrow> string res) \<Rightarrow> (int \<Rightarrow> string) \<Rightarrow> int \<Rightarrow> string res" where
  "duration_marshal marshal show d = marshal (show d)"

definition duration_unmarshal ::
  "(string \<Rightarrow> string res) \<Rightarrow> (string \<Rightarrow> int res) \<Rightarrow> (string \<Rightarrow> string) \<Rightarrow> string \<Rightarrow> int res" where
  "duration_unmarshal unmarshal parse quoted data =
     (case unmarshal data of
        Inl e \<Rightarrow> Inl (Wrap ''duration must be a string: '' e [])
      | Inr text \<Rightarrow>
          (case parse text of
             Inl e \<Rightarrow> Inl (Wrap (''invalid duration '' @ quoted text @ '': '') e [])
           | Inr d \<Rightarrow> Inr d))"

section \<open>The daemon\<close>

text \<open>
  \<^verbatim>\<open>Run\<close> to its end: \<open>during\<close> is what happens from the start of the loops to the end of the
  context, the requests of the control server included. An error while starting ends it without
  a shutdown.
\<close>

definition runtime_run ::
  "'d publisher \<Rightarrow> (string \<Rightarrow> 'd res) \<Rightarrow> 'd ops \<Rightarrow> files \<Rightarrow> ('d runtime \<Rightarrow> 'd runtime) \<Rightarrow> (nat \<Rightarrow> nat) \<Rightarrow> nat \<Rightarrow>
     error option option \<Rightarrow> ('d \<Rightarrow> error option) \<Rightarrow> 'd runtime \<Rightarrow> (error option \<times> 'd runtime) option" where
  "runtime_run publish open_db ops fl during sched n close_http close_db s =
     (case run_start publish open_db ops fl s of
        None \<Rightarrow> None
      | Some (Some e, s1) \<Rightarrow> Some (Some e, s1)
      | Some (None, s1) \<Rightarrow> shutdown publish ops sched n close_http close_db (during s1))"

definition err_canceled :: error where
  "err_canceled = New ''context canceled''"

text \<open>What is written to standard error, and the exit code. A failed run does not close the logger.\<close>

definition daemon_main ::
  "config res \<Rightarrow> (string \<Rightarrow> logger \<Rightarrow> error option \<times> logger) \<Rightarrow> (logger \<Rightarrow> error option \<times> logger) \<Rightarrow>
     (config \<Rightarrow> logger \<Rightarrow> (error option \<times> logger) option) \<Rightarrow> logger \<Rightarrow> ((string \<times> nat) \<times> logger) option" where
  "daemon_main loaded init close run l =
     (case loaded of
        Inl e \<Rightarrow> Some ((''auxitalkd: '' @ error_text e @ line_end, 1), l)
      | Inr cfg \<Rightarrow>
          (case init (rcLogPath (cfRuntime cfg)) l of
             (Some e, l1) \<Rightarrow> Some ((''auxitalkd logger: '' @ error_text e @ line_end, 1), l1)
           | (None, l1) \<Rightarrow>
               (case run cfg l1 of
                  None \<Rightarrow> None
                | Some (er, l2) \<Rightarrow>
                    (case er of
                       Some e \<Rightarrow>
                         if e \<noteq> err_canceled then Some ((''auxitalkd: '' @ error_text e @ line_end, 1), l2)
                         else Some (([], 0), snd (close l2))
                     | None \<Rightarrow> Some (([], 0), snd (close l2))))))"

section \<open>The command line tool\<close>

text \<open>
  A request of the tool and its answer: an error, or a code, a status text and a body. \<open>None\<close> is
  a request that is never answered. \<open>xt_new\<close> is the error of building a request for a URL,
  \<open>xt_pretty\<close> prints a body as decoded JSON, \<open>xt_pretty_object\<close> as a decoded object, and
  \<open>xt_tail\<close> is what \<^verbatim>\<open>tail -f\<close> prints.
\<close>

datatype http_call = HGet string | HPost string string

record 'w outside =
  xt_http :: "http_call \<Rightarrow> 'w \<Rightarrow> ((nat \<times> string \<times> string) res \<times> 'w) option"
  xt_new :: "string \<Rightarrow> error option"
  xt_read :: "string \<Rightarrow> string res"
  xt_tail :: "string \<Rightarrow> string"
  xt_pretty :: "string \<Rightarrow> string"
  xt_pretty_object :: "string \<Rightarrow> string"

text \<open>What is printed, and the exit code.\<close>

type_synonym 'w command = "'w \<Rightarrow> ((string \<times> nat) \<times> 'w) option"

definition say_error :: "string \<Rightarrow> error \<Rightarrow> string \<times> nat" where
  "say_error what e = (what @ '': '' @ error_text e @ line_end, 1)"

definition ctl_fetch :: "'w outside \<Rightarrow> string \<Rightarrow> 'w command" where
  "ctl_fetch x url w =
     map_option (\<lambda>(r, w1).
       ((case r of
           Inl e \<Rightarrow> say_error ''error'' e
         | Inr (code, status, body) \<Rightarrow> (xt_pretty x body @ line_end, 0)), w1))
       (xt_http x (HGet url) w)"

definition ctl_post :: "'w outside \<Rightarrow> string \<Rightarrow> string \<Rightarrow> (string \<Rightarrow> string) \<Rightarrow> 'w command" where
  "ctl_post x url body done_text w =
     (case xt_new x url of
        Some e \<Rightarrow> Some (say_error ''error building request'' e, w)
      | None \<Rightarrow>
          map_option (\<lambda>(r, w1).
            ((case r of
                Inl e \<Rightarrow> say_error ''error'' e
              | Inr (code, status, answer) \<Rightarrow>
                  if code \<ge> 300 then (''error: server returned '' @ status @ line_end, 1)
                  else (done_text answer, 0)), w1))
            (xt_http x (HPost url body) w))"

definition ctl_reload :: "'w outside \<Rightarrow> string \<Rightarrow> string \<Rightarrow> 'w command" where
  "ctl_reload x base config_path w =
     (case xt_read x config_path of
        Inl e \<Rightarrow> Some (say_error ''error reading config'' e, w)
      | Inr data \<Rightarrow>
          ctl_post x (base @ ''/api/workflows/reload'') data (\<lambda>_. ''workflows reloaded'' @ line_end) w)"

definition ctl_mutate :: "'w outside \<Rightarrow> string \<Rightarrow> string \<Rightarrow> string \<Rightarrow> 'w command" where
  "ctl_mutate x base i operation w =
     ctl_post x (base @ ''/api/actions/'' @ i @ ''/'' @ operation) []
       (\<lambda>answer. operation @ '' action '' @ i @ '':'' @ line_end @ xt_pretty_object x answer @ line_end) w"

definition ctl_logs :: "'w outside \<Rightarrow> string \<Rightarrow> bool \<Rightarrow> 'w command" where
  "ctl_logs x path follow w =
     Some (if follow then (xt_tail x path, 0)
           else (case xt_read x path of
                   Inl e \<Rightarrow> say_error ''error reading logs'' e
                 | Inr data \<Rightarrow> (data, 0)), w)"

definition ctl_usage :: string where
  "ctl_usage =
     concat (map (\<lambda>s. s @ line_end)
       [''auxitalkctl 0.1.0-dev'', ''commands:'',
        ''  status            Show full core status'',
        ''  plugins           List plugins'',
        ''  actions           List actions'',
        ''  workflows         List workflows'',
        ''  reload <config>   Reload workflows from config file'',
        ''  logs [-f]         Print or tail core log file'',
        ''  approve <id>      Approve an action by ID'',
        ''  deny <id>         Deny an action by ID''])"

text \<open>\<open>base\<close> and \<open>log_path\<close> are the flags, \<open>args\<close> the arguments that remain.\<close>

definition ctl_main :: "'w outside \<Rightarrow> string \<Rightarrow> string \<Rightarrow> string list \<Rightarrow> 'w command" where
  "ctl_main x base log_path args w =
     (case args of
        [] \<Rightarrow> Some ((ctl_usage, 0), w)
      | cmd # rest \<Rightarrow>
          if cmd = ''status'' then ctl_fetch x (base @ ''/api/status'') w
          else if cmd = ''plugins'' then ctl_fetch x (base @ ''/api/plugins'') w
          else if cmd = ''actions'' then ctl_fetch x (base @ ''/api/actions'') w
          else if cmd = ''workflows'' then ctl_fetch x (base @ ''/api/workflows'') w
          else if cmd = ''reload'' then
            (case rest of
               [] \<Rightarrow> Some ((''missing config file path'' @ line_end, 1), w)
             | path # _ \<Rightarrow> ctl_reload x base path w)
          else if cmd = ''logs'' then ctl_logs x log_path (rest \<noteq> [] \<and> hd rest = ''-f'') w
          else if cmd = ''approve'' \<or> cmd = ''deny'' then
            (case rest of
               [] \<Rightarrow> Some ((''missing action id'' @ line_end, 1), w)
             | i # _ \<Rightarrow> ctl_mutate x base i cmd w)
          else Some ((''unknown command: '' @ cmd @ line_end, 1), w))"

section \<open>The tool against the server\<close>

text \<open>
  The transport to the control API of a runtime, for a URL in which nothing is escaped; \<open>show_body\<close>
  is the body that a reply is encoded to, \<open>status\<close> the text of a code. A redirect is an error
  here: the tool is not used on paths that lead to one.
\<close>

definition local_http ::
  "'s control_api \<Rightarrow> json_bodies \<Rightarrow> (http_reply \<Rightarrow> string) \<Rightarrow> (nat \<Rightarrow> string) \<Rightarrow> string \<Rightarrow> http_call \<Rightarrow> 's \<Rightarrow>
     ((nat \<times> string \<times> string) res \<times> 's) option" where
  "local_http api jb show_body status base call s =
     (let (method, url, body) = (case call of HGet url \<Rightarrow> (''GET'', url, []) | HPost url body \<Rightarrow> (''POST'', url, body))
      in map_option (\<lambda>(r, s1).
           (case r of HRedirect _ \<Rightarrow> Inl (New ''redirected'') | _ \<Rightarrow> Inr (reply_code r, status (reply_code r), show_body r), s1))
         (serve api jb \<lparr>hqMethod = method, hqPath = trim_prefix url base, hqLimit = [], hqBody = body, hqFlusher = True\<rparr> s))"

end
