(* ===== verification/RuntimeFacts.thy ===== *)
theory RuntimeFacts
  imports Pipeline
begin

text \<open>What executing, approving and tracking do to the state, case by case.\<close>

section \<open>Execution\<close>

text \<open>Performing an action touches the clock, the dry-run executor and the supervisor only.\<close>

definition performed :: "'d runtime \<Rightarrow> 'd runtime \<Rightarrow> bool" where
  "performed s t \<longleftrightarrow>
     rs_config t = rs_config s \<and> rs_bus t = rs_bus s \<and> rs_actions t = rs_actions s \<and>
     rs_registry t = rs_registry s \<and> rs_engine t = rs_engine s \<and> rs_sessions t = rs_sessions s \<and>
     rs_router t = rs_router s \<and> rs_storage t = rs_storage s \<and> rs_spawned t = rs_spawned s"

lemma performed_refl [simp]: "performed s s"
  by (simp add: performed_def)

lemma performed_trans: "performed s t \<Longrightarrow> performed t u \<Longrightarrow> performed s u"
  by (simp add: performed_def)

lemma performed_reads:
  "read_now s = (x, t) \<Longrightarrow> performed s t" "stamp pre s = (i, t) \<Longrightarrow> performed s t"
  "core_event pre ty se pl s = (e, t) \<Longrightarrow> performed s t"
  by (auto simp: performed_def core_event_def stamp_def reads)

lemma performed_call_plugin: "call_plugin h ps s = (r, t) \<Longrightarrow> performed s t"
  by (auto simp: call_plugin_def read_call_def performed_def Let_def split: prod.splits sum.splits)

lemma performed_router: "router_call call_plugin rt p c ps s = (r, t) \<Longrightarrow> performed s t"
  by (auto simp: router_call_def split: option.splits if_splits intro: performed_call_plugin)

lemma perform_frame:
  assumes "perform_action ops a s = (r, t)"
  shows "performed s t"
proof (cases "is_workflow_action_type (acType a)")
  case True
  with assms show ?thesis
    by (auto simp: perform_action_def engine_execute_action_def read_ctx_err_def performed_def Let_def
        split: prod.splits sum.splits)
next
  case False
  show ?thesis
  proof (cases "\<exists>p c. split_n2 (CHR ''.'') (acType a) = [p, c]")
    case True
    then obtain p c where pc: "split_n2 (CHR ''.'') (acType a) = [p, c]" by blast
    obtain y s1 where y: "router_call call_plugin (rs_router s) p c (VMap (acPayload a)) s = (y, s1)"
      by (meson surj_pair)
    obtain i s2 where i: "stamp (''exec-'' @ acID a) s1 = (i, s2)" by (meson surj_pair)
    obtain n s3 where n: "read_now s2 = (n, s3)" by (meson surj_pair)
    from False assms pc y i n have "\<exists>u. read_now s3 = (u, t)"
      by (auto simp: perform_action_def simp del: append.simps split: prod.splits)
    then have "performed s3 t" by (auto intro: performed_reads)
    with performed_router [OF y] performed_reads(2) [OF i] performed_reads(1) [OF n] show ?thesis
      by (blast intro: performed_trans)
  next
    case other: False
    with False assms show ?thesis by (auto simp: perform_action_def split: list.splits)
  qed
qed

text \<open>
  After the action has been performed its status is settled, and one event tells the outcome,
  with the trace and the depth of the action.
\<close>

definition outcome :: "error option \<Rightarrow> string" where
  "outcome er = (if er = None then ''executed'' else ''failed'')"

lemma persist_action_frame [simp]:
  "rs_actions (persist_action ops a s) = rs_actions s" "rs_bus (persist_action ops a s) = rs_bus s"
  "rs_spawned (persist_action ops a s) = rs_spawned s" "rs_sessions (persist_action ops a s) = rs_sessions s"
  "rs_engine (persist_action ops a s) = rs_engine s" "rs_config (persist_action ops a s) = rs_config s"
  by (simp_all add: persist_action_def split: option.split)

lemma settle_frame:
  "rs_bus (settle_action ops i st s) = rs_bus s" "rs_spawned (settle_action ops i st s) = rs_spawned s"
  "rs_actions (settle_action ops i st s) = snd (as_update_status i st (rs_actions s))"
  by (auto simp: settle_action_def Let_def split: prod.split sum.split)

lemma execute_publishes:
  assumes "as_wf (rs_actions s)" "perform_action ops a s = ((x, er), s1)"
  shows "\<exists>e s3. execute_action publish ops a s = publish_quietly publish e s3 \<and>
    evType e = ''action.executed'' \<and> evSource e = ''core.runtime'' \<and> evSessionID e = acSessionID a \<and>
    evTraceID e = acTraceID a \<and> evDepth e = acDepth a \<and>
    map_of (evPayload e) ''status'' = Some (VNamed (if er = None then ''completed'' else ''failed'')) \<and>
    rs_bus s3 = rs_bus s \<and> rs_spawned s3 = rs_spawned s \<and>
    (\<forall>j. as_get (rs_actions s3) j =
      (if j = acID a then map_option (\<lambda>b. b\<lparr>acStatus := outcome er\<rparr>) (as_get (rs_actions s) j)
       else as_get (rs_actions s) j))"
proof -
  define x1 where "x1 = (case er of Some e \<Rightarrow> x\<lparr>xcStatus := ''failed'', xcError := error_text e\<rparr>
      | None \<Rightarrow> x\<lparr>xcStatus := ''completed''\<rparr>)"
  let ?s2 = "settle_action ops (acID a) (outcome er) s1"
  obtain e s3 where e: "core_event ''action.executed'' ''action.executed'' (acSessionID a) (executed_payload a x1) ?s2 = (e, s3)"
    by (meson surj_pair)
  note frame = perform_frame [OF assms(2), unfolded performed_def] performed_reads(3) [OF e, unfolded performed_def]
  have "execute_action publish ops a s = publish_quietly publish (e\<lparr>evTraceID := acTraceID a, evDepth := acDepth a\<rparr>) s3"
    using assms(2) e by (simp add: execute_action_def outcome_def x1_def [symmetric] cong: option.case_cong)
  moreover have "evType e = ''action.executed''" "evSource e = ''core.runtime''" "evSessionID e = acSessionID a"
    "evPayload e = executed_payload a x1"
    using e by (auto simp: core_event_def Let_def split: prod.splits)
  moreover have "map_of (executed_payload a x1) ''status'' = Some (VNamed (if er = None then ''completed'' else ''failed''))"
    by (simp add: executed_payload_def x1_def split: option.split)
  moreover have "as_get (rs_actions s3) j =
      (if j = acID a then map_option (\<lambda>b. b\<lparr>acStatus := outcome er\<rparr>) (as_get (rs_actions s) j)
       else as_get (rs_actions s) j)" for j
    using frame assms(1) by (simp add: settle_frame as_get_update_status)
  moreover have "rs_bus s3 = rs_bus s" "rs_spawned s3 = rs_spawned s"
    using frame by (simp_all add: settle_frame)
  ultimately show ?thesis
    by (intro exI [of _ "e\<lparr>evTraceID := acTraceID a, evDepth := acDepth a\<rparr>"] exI [of _ s3]) simp
qed

text \<open>The event of an action that is nested too deeply reaches no handler.\<close>

lemma execute_too_deep:
  assumes "as_wf (rs_actions s)" "acDepth a > max_depth"
  shows "\<exists>t. execute_action (publish_event n ops) ops a s = Some t \<and> rs_bus t = rs_bus s \<and> rs_spawned t = rs_spawned s"
proof -
  obtain x er s1 where "perform_action ops a s = ((x, er), s1)" by (metis prod.exhaust)
  from execute_publishes [OF assms(1) this, of "publish_event n ops"] obtain e s3 where
    e: "execute_action (publish_event n ops) ops a s = publish_quietly (publish_event n ops) e s3"
      "evDepth e = acDepth a" "rs_bus s3 = rs_bus s" "rs_spawned s3 = rs_spawned s" by blast
  then show ?thesis using assms(2) by (simp add: publish_quietly_def publish_event_def bus_publish_def)
qed

section \<open>Approval\<close>

lemma approve_spawns:
  assumes "as_wf (rs_actions s)" "as_get (rs_actions s) i = Some a"
    and "approve_action (publish_event n ops) ops i s = Some (r, s')"
  shows "r = Inr (a\<lparr>acStatus := ''allowed''\<rparr>) \<and>
    (\<exists>more. rs_spawned s' = rs_spawned s @ more @ [a\<lparr>acStatus := ''allowed''\<rparr>])"
proof -
  let ?a = "a\<lparr>acStatus := ''allowed''\<rparr>"
  let ?s1 = "persist_action ops ?a (s\<lparr>rs_actions := as_save ?a (rs_actions s)\<rparr>)"
  have u: "as_update_status i ''allowed'' (rs_actions s) = (Inr ?a, as_save ?a (rs_actions s))"
    using assms(1,2) by (simp add: as_update_status_hit)
  from assms(3) u obtain s2 where
    s2: "publish_action_status (publish_event n ops) ''action.approved'' ?a ?s1 = Some s2"
    and r: "r = Inr ?a" "s' = execute_action_async ?a s2"
    by (auto simp: approve_action_def Let_def split: option.splits)
  have "spawned_since (rs_mode s) (rs_spawned s) ?s1"
    by (auto simp: spawned_since_def intro: exI [of _ "[]"])
  then have "rs_mode ?s1 = rs_mode s \<and> spawned_since (rs_mode s) (rs_spawned s) ?s1" by simp
  from spawning.status_keeps [OF this s2] r show ?thesis
    by (auto simp: spawned_since_def execute_action_async_def)
qed

lemma approve_returns:
  assumes "as_wf (rs_actions s)" "as_get (rs_actions s) i = Some a"
    and "\<forall>r \<in> set (en_rules (rs_engine s)). silent r"
  shows "approve_action (publish_event (Suc (Suc n)) ops) ops i s \<noteq> None"
proof -
  let ?a = "a\<lparr>acStatus := ''allowed''\<rparr>"
  let ?s1 = "persist_action ops ?a (s\<lparr>rs_actions := as_save ?a (rs_actions s)\<rparr>)"
  have u: "as_update_status i ''allowed'' (rs_actions s) = (Inr ?a, as_save ?a (rs_actions s))"
    using assms(1,2) by (simp add: as_update_status_hit)
  obtain e s2 where e: "core_event ''action.approved'' ''action.approved'' (acSessionID a) (status_payload ?a) ?s1 = (e, s2)"
    by (meson surj_pair)
  have "rs_engine s2 = rs_engine s"
    using performed_reads(3) [OF e] by (simp add: performed_def)
  with assms(3) publish_silent_returns [of s2 n ops e] u e show ?thesis
    by (auto simp: approve_action_def publish_action_status_def publish_quietly_def)
qed

section \<open>Sessions of events\<close>

definition tracked :: "event \<Rightarrow> session option \<Rightarrow> session \<Rightarrow> bool" where
  "tracked e old x \<longleftrightarrow>
     (case old of
        None \<Rightarrow> ssID x = evSessionID e \<and> ssChannel x = evSource e \<and> ssState x = ''active'' \<and>
          ssMessages x = [] \<and> ssParticipants x = [] \<and> ssMetadata x = []
      | Some y \<Rightarrow> (\<exists>t. x = y\<lparr>ssUpdatedAt := t\<rparr>))"

lemma save_session_frame [simp]:
  "rs_sessions (save_session ops x s) = rs_sessions s"
  "rs_storage (save_session ops x s) = map_option (\<lambda>d. snd (op_save_session ops x d)) (rs_storage s)"
  by (simp_all add: save_session_def split: option.split)

lemma session_tracking_effect:
  assumes wf: "sm_wf (rs_sessions s)" and id: "\<not> blank (evSessionID e)" and src: "\<not> blank (evSource e)"
    and clock: "\<And>n. \<not> is_zero (utc (wd_now (rs_world s) n))"
  shows "\<exists>x s'. handle_session_tracking ops e s = (None, s') \<and> tracked e (sm_look (rs_sessions s) (evSessionID e)) x \<and>
    (\<forall>j. sm_look (rs_sessions s') j = (if j = evSessionID e then Some x else sm_look (rs_sessions s) j)) \<and>
    rs_storage s' = map_option (\<lambda>d. snd (op_save_session ops x d)) (rs_storage s)"
proof -
  let ?i = "evSessionID e"
  have nonempty: "?i \<noteq> []" using id by auto
  have now: "\<not> is_zero (fst (read_now t))" if "wd_now (rs_world t) = wd_now (rs_world s)" for t :: "'a runtime"
    using that clock by (simp add: read_now_def)
  show ?thesis
  proof (cases "sm_look (rs_sessions s) ?i")
    case None
    define x where "x = \<lparr>ssID = ?i, ssChannel = evSource e, ssParticipants = [], ssMessages = [],
        ssState = ''active'', ssMetadata = [], ssCreatedAt = fst (read_now s),
        ssUpdatedAt = fst (read_now (tick s))\<rparr>"
    have "session_validate x = None"
      using id src now [of s] now [of "tick s"] by (simp add: x_def session_valid_iff tick_def)
    then obtain m where m: "sm_create x (rs_sessions s) = Inr m"
      using session_table.register_ok [of x "rs_sessions s"] None
      by (cases "sm_create x (rs_sessions s)") (auto simp: x_def)
    have look: "sm_look m j = (if j = ?i then Some x else sm_look (rs_sessions s) j)" for j
      using session_table.register_look [OF m, of j] by (simp add: x_def)
    have "handle_session_tracking ops e s = (None, save_session ops x ((tick (tick s))\<lparr>rs_sessions := m\<rparr>))"
      using nonempty None m by (simp add: handle_session_tracking_def sm_get_look read_now_def x_def)
    moreover have "tracked e (sm_look (rs_sessions s) ?i) x" by (simp add: None tracked_def x_def)
    ultimately show ?thesis using look by auto
  next
    case (Some y)
    define x where "x = y\<lparr>ssUpdatedAt := fst (read_now s)\<rparr>"
    have y: "ssID y = ?i" "session_validate y = None" using wf Some by (simp_all add: sm_wf_def)
    then have "session_validate x = None" using now [of s] by (simp add: x_def session_valid_iff)
    then obtain m where m: "sm_update x (rs_sessions s) = Inr m"
      using sm_update_ok [of x "rs_sessions s"] Some y
      by (cases "sm_update x (rs_sessions s)") (auto simp: x_def)
    have look: "sm_look m j = (if j = ?i then Some x else sm_look (rs_sessions s) j)" for j
      using sm_update_look [OF m, of j] y by (simp add: x_def)
    have "handle_session_tracking ops e s = (None, save_session ops x ((tick s)\<lparr>rs_sessions := m\<rparr>))"
      using nonempty Some m by (simp add: handle_session_tracking_def sm_get_look read_now_def x_def)
    moreover have "tracked e (sm_look (rs_sessions s) ?i) x" by (auto simp: Some tracked_def x_def)
    ultimately show ?thesis using look by auto
  qed
qed

end
