(* ===== verification/ControlProps.thy ===== *)
theory ControlProps
  imports Control RuntimeReach RuntimeFacts SampleRuntime
begin

text \<open>
  The properties of the control API: its requests are steps of the runtime, only POST changes
  anything, and what its routes, limits and streams do.
\<close>

section \<open>The API on the runtime\<close>

lemma rt_reachable_trans: "rt_reachable ops s t \<Longrightarrow> rt_reachable ops s0 s \<Longrightarrow> rt_reachable ops s0 t"
  by (induction rule: rt_reachable.induct) (auto intro: rt_reachable.step)

text \<open>What other goroutines do during a sleep: the state \<open>f\<close> names, when their steps lead there.\<close>

definition other_steps :: "'d ops \<Rightarrow> ('d runtime \<Rightarrow> 'd runtime) \<Rightarrow> 'd runtime \<Rightarrow> 'd runtime" where
  "other_steps ops f t = (if rt_reachable ops t (f t) then f t else t)"

lemma other_steps_reachable: "rt_reachable ops s0 t \<Longrightarrow> rt_reachable ops s0 (other_steps ops f t)"
  by (auto simp: other_steps_def intro: rt_reachable_trans)

lemma reachable_tick: "rt_reachable ops s0 s \<Longrightarrow> rt_reachable ops s0 (tick s)"
  by (rule rt_reachable.step [OF _ rt_step.observe])

lemma configure_reachable:
  assumes "rt_reachable ops s0 s"
    and "configure_plugin (publish_event n ops) fl (other_steps ops f) i b env s = Some (er, s')"
  shows "rt_reachable ops s0 s'"
proof -
  from assms(2) obtain r s1 where begins: "configure_begin (publish_event n ops) fl i b env s = Some (r, s1)"
    by (auto simp: configure_plugin_def split: option.splits)
  then have s1: "rt_reachable ops s0 s1"
    by (rule rt_reachable.step [OF assms(1) rt_step.configure])
  let ?t = "if sv_is_running i (rs_supervisor s) then other_steps ops f s1 else s1"
  have t: "rt_reachable ops s0 ?t" using s1 by (simp add: other_steps_reachable)
  show ?thesis
  proof (cases "r = Inr True")
    case False
    with assms(2) begins have "s' = s1"
      by (cases r) (auto simp: configure_plugin_def)
    with s1 show ?thesis by simp
  next
    case True
    with assms(2) begins have "configure_end (publish_event n ops) i ?t = Some s'"
      by (auto simp: configure_plugin_def)
    then show ?thesis by (rule rt_reachable.step [OF t rt_step.configured])
  qed
qed

interpretation control_steps:
  control_keeps "rt_control (publish_event n ops) ops fl (other_steps ops f) read_file" "rt_reachable ops s0"
  for n ops fl f read_file s0
  by unfold_locales
    (auto simp: rt_control_def read_order_def read_now_def Let_def enable_workflow_def disable_workflow_def
      intro: reachable_tick configure_reachable rt_reachable.step [OF _ rt_step.approve] rt_reachable.step [OF _ rt_step.deny]
        rt_reachable.step [OF _ rt_step.reload] rt_reachable.step [OF _ rt_step.toggle] rt_reachable.step [OF _ rt_step.emit])

text \<open>Only the clock has moved on.\<close>

definition only_ticked :: "'d runtime \<Rightarrow> 'd runtime \<Rightarrow> bool" where
  "only_ticked s s' \<longleftrightarrow> (\<exists>k. s' = s\<lparr>rs_world := (rs_world s)\<lparr>wd_tick := k\<rparr>\<rparr>)"

lemma only_ticked_refl: "only_ticked s s"
  unfolding only_ticked_def by (rule exI [of _ "wd_tick (rs_world s)"]) simp

lemma only_ticked_tick: "only_ticked s s' \<Longrightarrow> only_ticked s (tick s')"
  by (auto simp: only_ticked_def tick_def)

interpretation control_looks:
  control_reads "rt_control publish ops fl pause read_file" "only_ticked s0"
  for publish ops fl pause read_file s0
  by unfold_locales (auto simp: rt_control_def read_order_def read_now_def Let_def intro: only_ticked_tick)

section \<open>Samples\<close>

definition sample_bodies :: json_bodies where
  "sample_bodies =
     \<lparr>jbEvent = (\<lambda>_. Inr sample_event), jbConfigure = (\<lambda>_. Inl (New ''EOF'')), jbReload = (\<lambda>_. Inr [])\<rparr>"

definition sample_http :: "string \<Rightarrow> string \<Rightarrow> string \<Rightarrow> http_request" where
  "sample_http method path limit =
     \<lparr>hqMethod = method, hqPath = path, hqLimit = limit, hqBody = [], hqFlusher = True\<rparr>"

definition sample_fs :: files where
  "sample_fs =
     \<lparr>fl_read = (\<lambda>_. Inl (New ''no such file'')), fl_decode = (\<lambda>_. Inl (New ''EOF'')),
      fl_wd = Inr ''/srv'', fl_env = (\<lambda>_. None)\<rparr>"

section \<open>Requests as steps\<close>

text \<open>C3: Whatever is sent to the control API, the runtime only takes steps it can take by itself: a
  request that returns leads from a reachable state to a reachable one, so the invariant and the
  mode hold after it.\<close>
theorem requests_are_steps:
  assumes "rt_reachable ops s0 s"
    and "serve (rt_control (publish_event n ops) ops fl (other_steps ops f) read_file) jb rq s = Some (r, s')"
  shows "rt_reachable ops s0 s' \<and> (rt_inv s0 \<longrightarrow> rt_inv s' \<and> rs_mode s' = rs_mode s0)"
proof -
  have "rt_reachable ops s0 s'" by (rule control_steps.serve_keeps [OF assms(2,1)])
  with rt_reachable_inv show ?thesis by blast
qed

theorem requests_are_steps_witness:
  "\<exists>r s'. serve (rt_control (publish_event 2 sample_ops) sample_ops sample_fs (other_steps sample_ops (\<lambda>t. t)) (\<lambda>_. Inr []))
     sample_bodies (sample_http ''POST'' ''/api/workflows/reload'' []) (started mode_dev (sample_rule ''*'' ''low'')) = Some (r, s') \<and>
   rt_inv s'"
proof -
  let ?s = "started mode_dev (sample_rule ''*'' ''low'')"
  let ?api = "rt_control (publish_event 2 sample_ops) sample_ops sample_fs (other_steps sample_ops (\<lambda>t. t)) (\<lambda>_. Inr [])"
  have "clean_url ''/api/workflows/reload'' = ''/api/workflows/reload''" by code_simp
  then have "serve ?api sample_bodies (sample_http ''POST'' ''/api/workflows/reload'' []) ?s =
      Some (acknowledge JOk (reload_workflows sample_ops [] ?s))"
    by (simp add: serve_def with_cors_def mux_def find_handler_def routes_def sample_http_def
        ct_reload_workflows_def sample_bodies_def rt_control_def)
  then obtain r s' where r: "serve ?api sample_bodies (sample_http ''POST'' ''/api/workflows/reload'' []) ?s = Some (r, s')"
    by (metis surj_pair)
  from requests_are_steps [OF rt_reachable.start r] started_facts(1) r show ?thesis by blast
qed

text \<open>C6: A request whose method is not POST changes nothing: at most the clock has been read.\<close>
theorem only_post_changes:
  assumes "serve (rt_control publish ops fl pause read_file) jb rq s = Some (r, s')" "hqMethod rq \<noteq> ''POST''"
  shows "only_ticked s s'"
  by (rule control_looks.get_keeps [OF assms only_ticked_refl])

theorem only_post_changes_witness:
  "\<exists>r s'. serve (rt_control (publish_event 2 sample_ops) sample_ops sample_fs (\<lambda>t. t) (\<lambda>_. Inr []))
     sample_bodies (sample_http ''GET'' ''/api/actions'' []) (started mode_dev (sample_rule ''*'' ''low'')) = Some (r, s') \<and>
   only_ticked (started mode_dev (sample_rule ''*'' ''low'')) s'"
proof -
  let ?s = "started mode_dev (sample_rule ''*'' ''low'')"
  let ?api = "rt_control (publish_event 2 sample_ops) sample_ops sample_fs (\<lambda>t. t) (\<lambda>_. Inr [])"
  have "clean_url ''/api/actions'' = ''/api/actions''" by code_simp
  then have "serve ?api sample_bodies (sample_http ''GET'' ''/api/actions'' []) ?s =
      Some (HJson (JActions (fst (ca_actions ?api ?s))), snd (ca_actions ?api ?s))"
    by (simp add: serve_def with_cors_def mux_def find_handler_def routes_def sample_http_def ct_actions_def case_prod_beta)
  moreover have "hqMethod (sample_http ''GET'' ''/api/actions'' []) \<noteq> ''POST''" by (simp add: sample_http_def)
  ultimately show ?thesis using only_post_changes by blast
qed

section \<open>Decisions over the API\<close>

lemma find_handler_actions:
  assumes "CHR ''/'' \<in> set rest"
  shows "find_handler (routes api jb) (''/api/actions/'' @ rest) = Some (ct_action_mutation api)"
proof -
  have "rest \<noteq> []" "rest \<noteq> ''stream''" using assms by auto
  then show ?thesis by (simp add: find_handler_def routes_def has_suffix_def has_prefix_def)
qed

lemma decide_served:
  assumes "hqMethod rq = ''POST''" "hqPath rq = ''/api/actions/'' @ i @ CHR ''/'' # operation"
    and "\<forall>c \<in> set (split_on (CHR ''/'') i). plain_element c" "operation = ''approve'' \<or> operation = ''deny''"
  shows "serve api jb rq s =
    (if CHR ''/'' \<in> set i then Some (HError 404 ''404 page not found'', s)
     else case (if operation = ''approve'' then ca_approve api i s else ca_deny api i s) of
       None \<Rightarrow> None
     | Some (Inl e, s') \<Rightarrow> Some (HError 400 (error_text e), s')
     | Some (Inr a, s') \<Rightarrow> Some (HJson (JAction a), s'))"
proof -
  have op: "CHR ''/'' \<notin> set operation" "plain_element operation"
    using assms(4) by (auto simp: plain_element_def)
  let ?cs = "[''api'', ''actions''] @ split_on (CHR ''/'') i @ [operation]"
  have path: "hqPath rq = CHR ''/'' # joined ''/'' ?cs"
    unfolding assms(2) by (simp add: joined_Cons joined_append)
  have "plain_element ''api''" "plain_element ''actions''" by (simp_all add: plain_element_def)
  then have plain: "\<forall>c \<in> set ?cs. plain_element c" using assms(3) op(2) by auto
  have clean: "clean_url (hqPath rq) = hqPath rq"
    unfolding path by (rule clean_url_plain) (use plain in auto)
  have "find_handler (routes api jb) (hqPath rq) = Some (ct_action_mutation api)"
    unfolding assms(2) by (rule find_handler_actions) simp
  then have "serve api jb rq s = ct_action_mutation api rq s"
    using assms(1) clean by (simp add: serve_def with_cors_def mux_def)
  moreover have "trim_prefix (hqPath rq) ''/api/actions/'' = i @ CHR ''/'' # operation"
    unfolding assms(2) by (rule trim_prefix_append)
  ultimately have served: "serve api jb rq s =
      (case split_on (CHR ''/'') (i @ CHR ''/'' # operation) of
         [i, operation] \<Rightarrow>
           if operation = ''approve'' then map_option action_reply (ca_approve api i s)
           else if operation = ''deny'' then map_option action_reply (ca_deny api i s)
           else Some (not_found, s)
       | _ \<Rightarrow> Some (not_found, s))"
    using assms(1) by (simp only: ct_action_mutation_def) simp
  show ?thesis
  proof (cases "CHR ''/'' \<in> set i")
    case True
    then obtain a b where "i = a @ CHR ''/'' # b" "CHR ''/'' \<notin> set a" by (meson split_list_first)
    then have "length (split_on (CHR ''/'') (i @ CHR ''/'' # operation)) > 2"
      by (simp add: split_on_append length_split_on)
    then obtain x y z zs where "split_on (CHR ''/'') (i @ CHR ''/'' # operation) = x # y # z # zs"
      by (auto simp: numeral_2_eq_2 less_eq_Suc_le Suc_le_length_iff neq_Nil_conv)
    with served True show ?thesis by (simp add: not_found_def)
  next
    case False
    then have "split_on (CHR ''/'') (i @ CHR ''/'' # operation) = [i, operation]"
      using op(1) by (simp add: split_on_append split_on_absent)
    with served False assms(4) show ?thesis
      by (auto simp: action_reply_def bad_request_def split: option.splits sum.splits)
  qed
qed

text \<open>C16: Approving and denying over the API is exactly approving and denying in the runtime, with an
  unknown action as a bad request. But an action whose identifier contains a slash can be neither
  approved nor denied: the reply is that there is no such page, and nothing happens.\<close>
theorem decide_over_http:
  assumes "hqMethod rq = ''POST''" "hqPath rq = ''/api/actions/'' @ i @ CHR ''/'' # operation"
    and "\<forall>c \<in> set (split_on (CHR ''/'') i). plain_element c" "operation = ''approve'' \<or> operation = ''deny''"
  shows "serve api jb rq s =
    (if CHR ''/'' \<in> set i then Some (HError 404 ''404 page not found'', s)
     else case (if operation = ''approve'' then ca_approve api i s else ca_deny api i s) of
       None \<Rightarrow> None
     | Some (Inl e, s') \<Rightarrow> Some (HError 400 (error_text e), s')
     | Some (Inr a, s') \<Rightarrow> Some (HJson (JAction a), s'))"
  by (rule decide_served [OF assms])

theorem decide_over_http_witness:
  "\<exists>s'. serve (rt_control (publish_event 2 sample_ops) sample_ops sample_fs (\<lambda>t. t) (\<lambda>_. Inr []))
     sample_bodies (sample_http ''POST'' ''/api/actions/a1/approve'' [])
     ((started mode_strict (sample_rule ''text.received'' ''low''))\<lparr>rs_actions :=
        as_save (sample_action ''high'') new_action_store\<rparr>) =
     Some (HJson (JAction ((sample_action ''high'')\<lparr>acStatus := ''allowed''\<rparr>)), s')"
proof -
  let ?a = "sample_action ''high''"
  let ?s = "(started mode_strict (sample_rule ''text.received'' ''low''))\<lparr>rs_actions := as_save ?a new_action_store\<rparr>"
  have wf: "as_wf (rs_actions ?s)" by simp
  have get: "as_get (rs_actions ?s) ''a1'' = Some ?a" by simp
  have "\<forall>r \<in> set (en_rules (rs_engine ?s)). silent r"
    using sample_started(3) [of "''low''" "''text.received''" mode_strict] by simp
  from approve_returns [OF wf get this, of 0 sample_ops] obtain r s' where
    r: "approve_action (publish_event 2 sample_ops) sample_ops ''a1'' ?s = Some (r, s')"
    by (auto simp: numeral_2_eq_2)
  let ?api = "rt_control (publish_event 2 sample_ops) sample_ops sample_fs (\<lambda>t. t) (\<lambda>_. Inr [])"
  let ?rq = "sample_http ''POST'' ''/api/actions/a1/approve'' []"
  have approved: "ca_approve ?api ''a1'' ?s = Some (Inr (?a\<lparr>acStatus := ''allowed''\<rparr>), s')"
    using r approve_spawns [OF wf get r] by (simp add: rt_control_def)
  have rq: "hqMethod ?rq = ''POST''" "hqPath ?rq = ''/api/actions/'' @ ''a1'' @ CHR ''/'' # ''approve''"
    by (simp_all add: sample_http_def)
  have plain: "\<forall>c \<in> set (split_on (CHR ''/'') ''a1''). plain_element c" by (simp add: plain_element_def)
  show ?thesis
    by (rule exI [of _ s'], subst decide_over_http [OF rq plain disjI1 [OF refl]])
      (simp only: approved option.case sum.case prod.case if_True simp_thms, simp)
qed

section \<open>The log over the API\<close>

lemma serve_logs:
  assumes "hqPath rq = ''/api/logs''" "hqMethod rq = ''GET''"
  shows "serve api jb rq s = ct_logs api rq s"
proof -
  have "clean_url ''/api/logs'' = ''/api/logs''" by code_simp
  then show ?thesis using assms
    by (simp add: serve_def with_cors_def mux_def find_handler_def routes_def)
qed

lemma logs_served:
  assumes "hqPath rq = ''/api/logs''" "hqMethod rq = ''GET''" "hqLimit rq = itoa l" "in_int64 l"
    and "rcLogPath (cfRuntime (rs_config s)) \<noteq> []" "read_file (rcLogPath (cfRuntime (rs_config s))) = Inr content"
  shows "serve (rt_control publish ops fl pause read_file) jb rq s =
    Some (if l < 0 then HError 400 ''invalid limit''
          else HJson (JContent (drop (length content - nat (if l = 0 then 65536 else l)) content)), s)"
proof -
  have "itoa l \<noteq> []" by (simp add: itoa_def)
  then have "parse_log_limit (itoa l) = (if l < 0 then None else Some l)"
    using parse_int64_itoa [of l] assms(4) by (simp add: parse_log_limit_def in_int64_def)
  then have "ct_logs (rt_control publish ops fl pause read_file) rq s =
      (if l < 0 then Some (HError 400 ''invalid limit'', s)
       else case runtime_logs read_file l s of Inl e \<Rightarrow> Some (HError 500 (error_text e), s)
         | Inr content \<Rightarrow> Some (HJson (JContent content), s))"
    using assms(3) by (simp add: ct_logs_def rt_control_def)
  moreover have "runtime_logs read_file l s = Inr (drop (length content - nat (if l = 0 then 65536 else l)) content)" if "\<not> l < 0"
  proof -
    have "nat (if int (length content) - k < 0 then 0 else int (length content) - k) = length content - nat k" if "0 \<le> k" for k
      using that by auto
    with that assms(5,6) show ?thesis by (simp add: runtime_logs_def Let_def)
  qed
  ultimately show ?thesis unfolding serve_logs [OF assms(1,2)] by (cases "l < 0") simp_all
qed

text \<open>C23: Asking the API for the log with a limit returns that many bytes of the end of the file, and the
  last 64 KiB for the limit zero; a negative limit is refused. No limit that fits 64 bits is misread.\<close>
theorem log_over_http:
  assumes "hqPath rq = ''/api/logs''" "hqMethod rq = ''GET''" "hqLimit rq = itoa l" "in_int64 l"
    and "rcLogPath (cfRuntime (rs_config s)) \<noteq> []" "read_file (rcLogPath (cfRuntime (rs_config s))) = Inr content"
  shows "serve (rt_control publish ops fl pause read_file) jb rq s =
    Some (if l < 0 then HError 400 ''invalid limit''
          else HJson (JContent (drop (length content - nat (if l = 0 then 65536 else l)) content)), s)"
  by (rule logs_served [where read_file = read_file, OF assms])

theorem log_over_http_witness:
  "serve (rt_control (publish_event 2 sample_ops) sample_ops sample_fs (\<lambda>t. t) (\<lambda>_. Inr ''abcdef''))
     sample_bodies (sample_http ''GET'' ''/api/logs'' ''2'')
     ((created mode_dev (sample_rule ''*'' ''low''))\<lparr>rs_config :=
        default_config\<lparr>cfRuntime := (cfRuntime default_config)\<lparr>rcLogPath := ''log''\<rparr>\<rparr>\<rparr>) =
   Some (HJson (JContent ''ef''), (created mode_dev (sample_rule ''*'' ''low''))\<lparr>rs_config :=
        default_config\<lparr>cfRuntime := (cfRuntime default_config)\<lparr>rcLogPath := ''log''\<rparr>\<rparr>\<rparr>)"
proof -
  let ?s = "(created mode_dev (sample_rule ''*'' ''low''))\<lparr>rs_config :=
    default_config\<lparr>cfRuntime := (cfRuntime default_config)\<lparr>rcLogPath := ''log''\<rparr>\<rparr>\<rparr>"
  have two: "itoa 2 = ''2''" by code_simp
  show ?thesis
    using log_over_http [of "sample_http ''GET'' ''/api/logs'' ''2''" 2 ?s "\<lambda>_. Inr ''abcdef''" "''abcdef''"
        "publish_event 2 sample_ops" sample_ops sample_fs "\<lambda>t. t" sample_bodies] two
    by (simp add: sample_http_def in_int64_def)
qed

section \<open>Streams\<close>

text \<open>The stream of the log sends exactly the changes: the contents it shows, without repetitions and
  without the initial empty one.\<close>
theorem log_stream_shows_changes:
  "[c. Data (JText c) \<leftarrow> log_stream shown (map Inr contents)] = tl (remdups_adj (shown # contents))"
proof (induction contents arbitrary: shown)
  case (Cons c cs)
  then show ?case by (cases cs) (auto simp: Let_def)
qed simp



end
