(* ===== verification/CommandProps.thy ===== *)
theory CommandProps
  imports Commands ControlProps
begin

text \<open>The properties of the command line tool, of the logger and of a saved configuration.\<close>

section \<open>The tool against the runtime\<close>



definition sample_outside :: "action list runtime outside" where
  "sample_outside =
     \<lparr>xt_http = local_http (rt_control (publish_event 2 sample_ops) sample_ops sample_fs (\<lambda>t. t) (\<lambda>_. Inr []))
        sample_bodies (\<lambda>_. ''{}'') (\<lambda>_. ''status'') ''http://127.0.0.1:8090'',
      xt_new = (\<lambda>_. None), xt_read = (\<lambda>_. Inr []), xt_tail = (\<lambda>_. []), xt_pretty = (\<lambda>s. s),
      xt_pretty_object = (\<lambda>s. s)\<rparr>"


text \<open>C25: No other command of the tool changes the runtime: at most its clock has been read.\<close>
theorem ctl_only_reads:
  assumes "xt_http x = local_http (rt_control publish ops fl pause read_file) jb show_body status base"
    and "ctl_main x base log_path args s = Some (r, s')"
    and "args \<noteq> [] \<Longrightarrow> hd args \<notin> {''reload'', ''approve'', ''deny''}"
  shows "only_ticked s s'"
proof -
  have same: "only_ticked s s" by (rule only_ticked_refl)
  have fetched: "only_ticked s s'" if "ctl_fetch x url s = Some (r, s')" for url
  proof -
    from that assms(1) obtain r' where
      "serve (rt_control publish ops fl pause read_file) jb
         \<lparr>hqMethod = ''GET'', hqPath = trim_prefix url base, hqLimit = [], hqBody = [], hqFlusher = True\<rparr> s = Some (r', s')"
      by (auto simp: ctl_fetch_def local_http_def)
    then show ?thesis by (rule control_looks.get_keeps [OF _ _ same]) simp
  qed
  show ?thesis
  proof (cases args)
    case Nil
    with assms(2) same show ?thesis by (simp add: ctl_main_def)
  next
    case (Cons cmd rest)
    with assms(3) have "cmd \<noteq> ''reload''" "cmd \<noteq> ''approve''" "cmd \<noteq> ''deny''" by simp_all
    with assms(2) Cons have "(\<exists>url. ctl_fetch x url s = Some (r, s')) \<or> s' = s"
      by (auto simp: ctl_main_def ctl_logs_def split: if_splits)
    with fetched same show ?thesis by blast
  qed
qed

theorem ctl_only_reads_witness:
  "\<exists>r s'. ctl_main sample_outside ''http://127.0.0.1:8090'' ''log'' [''actions''] (created mode_dev (sample_rule ''*'' ''low'')) = Some (r, s') \<and>
     only_ticked (created mode_dev (sample_rule ''*'' ''low'')) s'"
proof -
  let ?s = "created mode_dev (sample_rule ''*'' ''low'')"
  let ?api = "rt_control (publish_event 2 sample_ops) sample_ops sample_fs (\<lambda>t. t) (\<lambda>_. Inr [])"
  have http: "xt_http sample_outside = local_http ?api sample_bodies (\<lambda>_. ''{}'') (\<lambda>_. ''status'') ''http://127.0.0.1:8090''"
    by (simp add: sample_outside_def)
  have "clean_url ''/api/actions'' = ''/api/actions''" "trim_prefix ''http://127.0.0.1:8090/api/actions'' ''http://127.0.0.1:8090'' = ''/api/actions''"
    by code_simp+
  then obtain r s' where r: "ctl_main sample_outside ''http://127.0.0.1:8090'' ''log'' [''actions''] ?s = Some (r, s')"
    using http
    by (simp add: ctl_main_def ctl_fetch_def local_http_def serve_def with_cors_def mux_def find_handler_def routes_def
        ct_actions_def case_prod_beta)
  from ctl_only_reads [OF http r] r show ?thesis by auto
qed

section \<open>A saved configuration\<close>



section \<open>The log\<close>

lemma content_of_update: "content_of (l\<lparr>lg_content := AList.update p t (lg_content l)\<rparr>) q = (if q = p then t else content_of l q)"
  by (simp add: content_of_def update_conv')





end
