(* ===== verification/ProcessIO.thy ===== *)
theory ProcessIO
  imports Process
begin

text \<open>
  The goroutines that read the output of a plugin, \<^verbatim>\<open>readStdout\<close> and \<^verbatim>\<open>readStderr\<close> of
  \<^verbatim>\<open>internal/plugins/supervisor/process.go\<close>, and its accessors. The text a plugin prints until its
  output is closed is an argument, as is the decoding of JSON.
\<close>

section \<open>Accessors\<close>

definition proc_is_running :: "proc \<Rightarrow> bool" where
  "proc_is_running p = pp_running p"

definition proc_last_error :: "proc \<Rightarrow> error option" where
  "proc_last_error p = pp_lastError p"

section \<open>Scanning lines\<close>

text \<open>
  \<^verbatim>\<open>bufio.Scanner\<close> with its default split function: lines without their end and without a
  carriage return before it. The scanner stops with an error, here \<open>True\<close>, when its buffer of
  \<open>lim\<close> bytes is full and holds no end of a line.
\<close>

definition drop_cr :: "string \<Rightarrow> string" where
  "drop_cr s = (if s \<noteq> [] \<and> last s = CHR 0x0D then butlast s else s)"

function scan_lines :: "nat \<Rightarrow> string \<Rightarrow> string list \<times> bool" where
  "scan_lines lim s =
     (if s = [] then ([], False)
      else if CHR 0x0A \<in> set (take lim s)
      then (let line = takeWhile (\<lambda>c. c \<noteq> CHR 0x0A) s;
                (lines, err) = scan_lines lim (drop (Suc (length line)) s)
            in (drop_cr line # lines, err))
      else if length s < lim then ([drop_cr s], False)
      else ([], True))"
  by pat_completeness auto
termination
  by (relation "measure (\<lambda>(lim, s). length s)") auto

declare scan_lines.simps [simp del]

text \<open>The buffer may grow to the larger of the limit and its first size.\<close>

definition stdout_limit :: "proc \<Rightarrow> nat" where
  "stdout_limit p = max (64 * 1024) (nat (poMaxPayloadSize (pp_opts p)))"

section \<open>The readers\<close>

fun handle_lines :: "(string \<Rightarrow> envelope option) \<Rightarrow> string list \<Rightarrow> proc \<Rightarrow> delivery list \<times> proc" where
  "handle_lines decode [] p = ([], p)"
| "handle_lines decode (line # lines) p =
     (let (d, p1) = handle_message (decode line) p; (ds, p2) = handle_lines decode lines p1 in (d # ds, p2))"

definition read_stdout :: "(string \<Rightarrow> envelope option) \<Rightarrow> string \<Rightarrow> proc \<Rightarrow> delivery list \<times> proc" where
  "read_stdout decode output p = handle_lines decode (fst (scan_lines (stdout_limit p) output)) p"

text \<open>Each line of standard error goes to \<^verbatim>\<open>OnLog\<close> with the identifier of the plugin.\<close>

definition read_stderr :: "string \<Rightarrow> proc \<Rightarrow> (string \<times> string) list" where
  "read_stderr output p = map (Pair (pp_id p)) (fst (scan_lines (64 * 1024) output))"

section \<open>Facts\<close>

lemma scan_lines_Nil [simp]: "scan_lines lim [] = ([], False)"
  by (simp add: scan_lines.simps)

lemma scan_lines_line:
  assumes "CHR 0x0A \<notin> set line" "length line < lim"
  shows "scan_lines lim (line @ CHR 0x0A # rest) =
    (drop_cr line # fst (scan_lines lim rest), snd (scan_lines lim rest))"
proof -
  have "takeWhile (\<lambda>c. c \<noteq> CHR 0x0A) (line @ CHR 0x0A # rest) = line"
    using assms(1) by (subst takeWhile_append2) auto
  moreover have "CHR 0x0A \<in> set (take lim (line @ CHR 0x0A # rest))"
    using assms(2) by (cases "lim - length line") auto
  ultimately show ?thesis by (subst scan_lines.simps) (simp add: case_prod_beta)
qed

lemma scan_lines_too_long:
  assumes "CHR 0x0A \<notin> set (take lim s)" "lim \<le> length s" "0 < lim"
  shows "scan_lines lim s = ([], True)"
  using assms by (subst scan_lines.simps) auto

text \<open>Lines that fit are read as they are, and then what follows.\<close>

lemma scan_lines_lines:
  "\<forall>line \<in> set lines. CHR 0x0A \<notin> set line \<and> length line < lim \<Longrightarrow>
     scan_lines lim (concat (map (\<lambda>line. line @ [CHR 0x0A]) lines) @ rest) =
       (map drop_cr lines @ fst (scan_lines lim rest), snd (scan_lines lim rest))"
proof (induction lines)
  case (Cons line lines)
  then show ?case using scan_lines_line [of line lim "concat (map (\<lambda>line. line @ [CHR 0x0A]) lines) @ rest"] by simp
qed simp

end
