(* ===== verification/ProcessProps.thy ===== *)
theory ProcessProps
  imports ProcessIO ComponentProps
begin

text \<open>The properties of the output of a plugin.\<close>

text \<open>C30: A line of a plugin that is longer than the limit ends the reading of its output for good: what was
  printed before is handled, and nothing of what follows, so every later response is lost while
  the plugin runs on.\<close>
theorem long_line_ends_reading:
  assumes "\<forall>line \<in> set lines. CHR 0x0A \<notin> set line \<and> length line < stdout_limit p"
    and "CHR 0x0A \<notin> set long" "stdout_limit p \<le> length long"
  shows "read_stdout decode (concat (map (\<lambda>line. line @ [CHR 0x0A]) lines) @ long @ rest) p =
    handle_lines decode (map drop_cr lines) p"
proof -
  have "CHR 0x0A \<notin> set (take (stdout_limit p) (long @ rest))"
    using assms(2,3) by (auto dest: in_set_takeD)
  then have "scan_lines (stdout_limit p) (long @ rest) = ([], True)"
    using assms(3) by (intro scan_lines_too_long) (auto simp: stdout_limit_def)
  with scan_lines_lines [OF assms(1), of "long @ rest"] show ?thesis by (simp add: read_stdout_def)
qed

theorem long_line_ends_reading_witness:
  "read_stdout (\<lambda>line. Some \<lparr>enID = line, enMethod = [], enParams = [], enResult = [], enError = None\<rparr>)
     (concat (map (\<lambda>line. line @ [CHR 0x0A]) [''p1-1'']) @ replicate 65536 (CHR ''x'') @ CHR 0x0A # ''p1-2'')
     (begin_call (new_proc sample_spec (sample_options\<lparr>poMaxPayloadSize := 1024\<rparr>))) =
   handle_lines (\<lambda>line. Some \<lparr>enID = line, enMethod = [], enParams = [], enResult = [], enError = None\<rparr>) [''p1-1'']
     (begin_call (new_proc sample_spec (sample_options\<lparr>poMaxPayloadSize := 1024\<rparr>)))"
proof -
  let ?p = "begin_call (new_proc sample_spec (sample_options\<lparr>poMaxPayloadSize := 1024\<rparr>))"
  have lim: "stdout_limit ?p = 65536"
    by (simp add: stdout_limit_def begin_call_def new_proc_def default_options_def)
  have "map drop_cr [''p1-1''] = [''p1-1'']" by (simp add: drop_cr_def)
  then show ?thesis
    using long_line_ends_reading [of "[''p1-1'']" ?p "replicate 65536 (CHR ''x'')"
        "\<lambda>line. Some \<lparr>enID = line, enMethod = [], enParams = [], enResult = [], enError = None\<rparr>" "CHR 0x0A # ''p1-2''"]
    unfolding lim by simp
qed

end
