(* ===== verification/Spec2Isabelle.thy ===== *)
theory Spec2Isabelle
  imports PluginProps StorageProps CodecProps CommandProps ProcessProps RuntimeFacts
begin

text \<open>
  A model of auxitalk, a local daemon that connects chat channels, plugins and workflows. All
  file names are relative to the root of the repository.

  Parts and theories.

  \<^item> \<^verbatim>\<open>Prelude\<close>, \<^verbatim>\<open>GoStrings\<close>, \<^verbatim>\<open>GoValues\<close>: what the code uses of Go and its standard library.
    Errors are a datatype with wrapping; a Go map is an association list with different keys whose
    range takes an arbitrary order (\<open>iter_order\<close>, a permutation for every length); strings are
    lists of bytes; a dynamic value is \<open>val\<close>, and its printing is that of \<^verbatim>\<open>fmt.Sprint\<close>.
    The interfaces \<open>once_registry\<close> and \<open>keyed_store\<close> are the contracts of the tables below.
  \<^item> \<^verbatim>\<open>Types\<close> (\<^verbatim>\<open>pkg/types\<close>): every type with its validation, and when a rule matches an event.
  \<^item> \<^verbatim>\<open>Gate\<close>, \<^verbatim>\<open>ActionStore\<close> (\<^verbatim>\<open>internal/actions\<close>), \<^verbatim>\<open>Sessions\<close> (\<^verbatim>\<open>internal/sessions\<close> and
    \<^verbatim>\<open>internal/context\<close>), \<^verbatim>\<open>Router\<close> (\<^verbatim>\<open>internal/capabilities\<close>), \<^verbatim>\<open>WfRegistry\<close>,
    \<^verbatim>\<open>Executor\<close>, \<^verbatim>\<open>Interpolation\<close>, \<^verbatim>\<open>Engine\<close> (\<^verbatim>\<open>internal/workflows\<close>), \<^verbatim>\<open>Bus\<close>
    (\<^verbatim>\<open>internal/events/bus.go\<close>), \<^verbatim>\<open>Config\<close> (\<^verbatim>\<open>internal/config\<close>), \<^verbatim>\<open>Process\<close> and \<^verbatim>\<open>Supervisor\<close>
    (\<^verbatim>\<open>internal/plugins/supervisor\<close>): one component each, its state a record with the fields of
    the Go struct, its operations functions on that state.
  \<^item> \<^verbatim>\<open>FilePath\<close>, \<^verbatim>\<open>TimeText\<close>: what the code uses of \<^verbatim>\<open>path/filepath\<close> and the text of an instant.
  \<^item> \<^verbatim>\<open>Plugins\<close> (\<^verbatim>\<open>internal/plugins\<close>): loading a manifest, the registry of plugins, and the older
    supervisor of one plugin. \<^verbatim>\<open>PluginLife\<close> is the part of the runtime that loads, configures and
    stops plugins; \<^verbatim>\<open>PluginFacts\<close> and \<^verbatim>\<open>PluginProps\<close> say what loading and configuring do.
  \<^item> \<^verbatim>\<open>ProcessIO\<close>: the goroutines that read the output of a plugin, with the limit of a line, and
    \<^verbatim>\<open>ProcessProps\<close> what a line that is too long does.
  \<^item> \<^verbatim>\<open>Storage\<close> (\<^verbatim>\<open>internal/storage/sqlite/store.go\<close>): every operation with its statement, over an
    engine \<open>sql\<close> that executes statements; \<open>sqlite_ops\<close> makes of it the parameter \<open>ops\<close> of the
    runtime. \<^verbatim>\<open>StorageFacts\<close> states the laws of the engine the results rest on (\<open>sql_ok\<close>),
    \<^verbatim>\<open>SampleDatabase\<close> is an engine that has them, \<^verbatim>\<open>StorageProps\<close> holds the results: what a restart
    keeps, and that replacing the workflows is atomic.
  \<^item> \<^verbatim>\<open>Codec\<close> (\<^verbatim>\<open>pkg/protocol\<close>, \<^verbatim>\<open>internal/rpc\<close>): JSON-RPC messages as lines with a limit;
    \<^verbatim>\<open>CodecProps\<close> has the round trip, the limits and what a cancelled read loses.
  \<^item> \<^verbatim>\<open>Control\<close> (\<^verbatim>\<open>internal/control/server.go\<close>): the HTTP API over its interface to the runtime
    (\<open>control_api\<close>), and \<open>rt_control\<close>, the runtime behind that interface. The locales
    \<open>control_reads\<close> and \<open>control_keeps\<close> lift what the interface keeps to every request;
    \<^verbatim>\<open>ControlProps\<close> interprets them for the reachable states of the runtime and for the states
    that differ in the clock only.
  \<^item> \<^verbatim>\<open>Commands\<close> (\<^verbatim>\<open>cmd\<close>, \<^verbatim>\<open>internal/logger\<close>): the daemon, the command line tool and the logger;
    \<^verbatim>\<open>CommandProps\<close> runs the tool against the server of a runtime.
  \<^item> \<^verbatim>\<open>Runtime\<close> and \<^verbatim>\<open>Startup\<close> (\<^verbatim>\<open>internal/runtime/runtime.go\<close>): the record \<open>runtime\<close> holds the
    states of the components; the handlers of the bus, the requests of plugins, approvals,
    executions, reloads and health rounds are functions on it. The database and the decoding of
    JSON are the parameter \<open>ops\<close>.
  \<^item> \<^verbatim>\<open>RuntimeInv\<close>, \<^verbatim>\<open>RuntimeLaws\<close>, \<^verbatim>\<open>RuntimeSteps\<close>, \<^verbatim>\<open>RuntimeReach\<close>: the locale \<open>runtime_keeps\<close>
    says what a predicate has to satisfy so that every operation of the runtime keeps it; it is
    interpreted for the invariant, for the fixed configuration, for what may be started and for
    the rules; \<open>rt_step\<close> is one step of the runtime and \<open>rt_reachable\<close> any sequence of them.
  \<^item> \<^verbatim>\<open>Pipeline\<close>, \<^verbatim>\<open>RuntimeFacts\<close>: the pure function \<open>event_requests\<close> that the workflow handler
    implements, and the effects of executions, approvals and session tracking.
  \<^item> \<^verbatim>\<open>Samples\<close>, \<^verbatim>\<open>SampleRuntime\<close>: concrete values, and a runtime created and started by the model.
  \<^item> \<^verbatim>\<open>ComponentProps\<close> and this theory: the properties of the components and of the whole.

  State and concurrency. Every operation of a component runs under that component's lock, so it
  is one function. The goroutines are explicit: an execution that was started waits in
  \<open>rs_spawned\<close> until a step runs it; the monitors, sleeping restarts and health loops of a plugin
  are counted in \<open>proc\<close>. What the program cannot determine (the clock, the order of a map, which
  case of a select is ready, what a call to a plugin sees) is read from \<open>world\<close>, whose functions
  are arbitrary, so a theorem holds for all of them. One order per call is used for all ranges
  over maps within one event.

  Non-termination and fuel. Publishing an event calls handlers that may publish again.
  \<open>run_handler\<close> has fuel for the depth of this nesting and \<open>None\<close> is a chain that has not
  returned; \<open>publish_event_mono\<close> shows that more fuel never changes a result. Fuel 2 is enough when
  no rule reacts to status events (\<open>publish_terminates\<close>); with one that does no fuel is enough
  (\<open>echoing_rule_loops\<close>). A handler that outlives its timeout is not stopped by the bus and still
  has its effects; the model places them before the return of the publication, so a handler that
  never finishes makes the publication \<open>None\<close> although the timeout would let the caller go on.

  Arguments of the model. JSON, the SQL engine, the file system, the operating system and the
  network are parameters: encoders and decoders, \<open>sql\<close>, \<open>files\<close>, \<open>world\<close>, \<open>http_call\<close>. What a
  result needs of them is a hypothesis of it: \<open>sql_ok\<close> for the database, that decoding gives back
  what was encoded for the codec, the configuration and the sessions.

  Not modelled. The parsing of command line flags and signals; the listening socket of the control
  server and the escaping of URLs; the settings of the database connection pool; what is only
  printed. Memory races are not modelled: a data race, such as that of two goroutines in
  one buffered reader, is not shown; reads and writes of whole lines are single steps. The start
  and the shutdown of the control server are not part of \<open>run_start\<close> and \<open>shutdown\<close>; its requests
  are calls of \<open>serve\<close>.
\<close>

section \<open>The runtime as a whole\<close>

text \<open>C1: Whatever the control API, the plugins, the goroutines and the health loop do after New and Run
  have set the runtime up and loaded its plugins, in any order: every table is well formed and holds
  valid entries under their own keys, the history stays within its limit, the engine runs only valid
  rules, and every execution that waits to run is of an action with the status allowed.\<close>
theorem runtime_invariant:
  assumes "new_runtime clock mock_clock w c = Some s0" "valid_order (wd_order w (wd_tick w))"
    and "run_start (publish_event n ops) open_db ops fl s0 = Some (None, s1)" "rt_reachable ops s1 s"
  shows "rt_inv s \<and> rs_mode s = cfMode c"
proof -
  note fresh = new_runtime_fresh [OF assms(1)]
  from fresh have "fresh_bus (rs_bus s0)" by simp
  note started = run_start_started [OF assms(3) new_runtime_inv [OF assms(1,2)] this]
  from rt_reachable_inv [OF assms(4)] started fresh show ?thesis by simp
qed

theorem runtime_invariant_witness: "rt_inv (started mode_dev (sample_rule ''*'' ''low''))"
proof -
  have "cfPlugins (rs_config (started mode_dev (sample_rule ''*'' ''low''))) = []"
    using started_facts(3) [of mode_dev "sample_rule ''*'' ''low''"] created_facts(3) [of mode_dev "sample_rule ''*'' ''low''"]
    by (simp add: sample_config_def default_config_def)
  then have "run_start (publish_event 0 sample_ops) (\<lambda>_. Inr []) sample_ops sample_files
      (created mode_dev (sample_rule ''*'' ''low'')) = Some (None, started mode_dev (sample_rule ''*'' ''low''))"
    by (simp add: run_start_def started_run)
  from runtime_invariant [OF created_new sample_orders this rt_reachable.start] show ?thesis by simp
qed

section \<open>A sample run\<close>

definition sample_request :: plugin_request where
  "sample_request = \<lparr>prPluginID = ''p1'', prMethod = ''action.request'', prParams = []\<rparr>"

text \<open>The plugin of the sample asks for an action of low risk, and a rule listens to another event.\<close>

lemma sample_requested:
  assumes "m \<in> {mode_dev, mode_local, mode_strict}" "log_keeps sample_ops Q" "Q []"
  shows "\<exists>t. handle_plugin_request (publish_event 1 sample_ops) sample_ops sample_request
      (started m (sample_rule ''text.received'' ''low'')) = Some (RespAction (decided m (sample_action ''low'')), t) \<and>
    requested_core [sample_action ''low''] (started m (sample_rule ''text.received'' ''low'')) t \<and> stored Q t"
proof -
  let ?s = "started m (sample_rule ''text.received'' ''low'')"
  note f = sample_started [of "''low''" "''text.received''" m]
  have c: "complete_action (prPluginID sample_request) (prPluginID sample_request @ ''-action'') (sample_action ''low'') ?s =
      (sample_action ''low'', ?s)"
    by (rule complete_action_id) (simp_all add: sample_action_def)
  have "stored Q ?s" using started_shape [OF f(1,2), of m] assms by (simp add: stored_def)
  with plugin_action_silent [where ops = sample_ops and n = 0 and s = ?s and rq = sample_request and Q = Q, OF _ _ _ _ c] f assms
  show ?thesis by (auto simp: sample_ops_def handle_plugin_request_def sample_request_def)
qed

section \<open>Who may execute\<close>

text \<open>C2: Except for an approval, no step of the runtime starts the execution of an action unless the
  action is valid and the policy allows its risk outright in the mode of the runtime.\<close>
theorem executions_follow_policy:
  assumes "rt_step ops s l s'" "\<nexists>i. l = LApprove i"
    and "a \<in> set (rs_spawned s')" "a \<notin> set (rs_spawned s)"
  shows "action_validate a = None \<and> policy (rs_mode s) (acRisk a) = 2"
proof -
  from rt_step_spawns [OF assms(1,2)] assms(3,4) have allowed: "fst (gate_decide (rs_mode s) a) = ''allowed''"
    by (auto simp: new_allowed_def)
  then have valid: "action_validate a = None" by (rule gate_allowed_valid)
  from allowed have "fst (gate_decide (rs_mode s) a) \<noteq> []" by simp
  then have "rs_mode s \<in> {mode_dev, mode_local, mode_strict}" by (simp add: gate_undecided)
  from gate_policy [OF valid this] allowed valid show ?thesis by (simp add: permission_def)
qed

theorem executions_follow_policy_witness:
  "\<exists>t. rt_step sample_ops (started mode_dev (sample_rule ''text.received'' ''low'')) LPlugin t \<and>
     decided mode_dev (sample_action ''low'') \<in> set (rs_spawned t) \<and>
     policy mode_dev (acRisk (decided mode_dev (sample_action ''low''))) = 2"
proof -
  let ?s = "started mode_dev (sample_rule ''text.received'' ''low'')"
  note f = sample_started [of "''low''" "''text.received''" mode_dev]
  obtain t where t: "handle_plugin_request (publish_event 1 sample_ops) sample_ops sample_request ?s =
      Some (RespAction (decided mode_dev (sample_action ''low'')), t)"
    and core: "requested_core [sample_action ''low''] ?s t"
    using sample_requested [of mode_dev "\<lambda>_. True"] by auto
  from t have step: "rt_step sample_ops ?s LPlugin t" by (rule rt_step.plugin)
  have "granted mode_dev [sample_action ''low''] = [decided mode_dev (sample_action ''low'')]"
    by (simp add: granted_def decided_def gate_defs)
  then have "rs_spawned t = [decided mode_dev (sample_action ''low'')]" "rs_spawned ?s = []"
    using core f by (simp_all add: requested_core_def same_core_def)
  with executions_follow_policy [OF step] step f show ?thesis by auto
qed

text \<open>In strict mode only an approval starts an execution.\<close>
theorem strict_needs_approval:
  assumes "rt_step ops s l s'" "\<nexists>i. l = LApprove i" "rs_mode s = mode_strict"
  shows "set (rs_spawned s') \<subseteq> set (rs_spawned s)"
  using rt_step_spawns [OF assms(1,2)] gate_strict_not_allowed
  unfolding new_allowed_def assms(3) by blast

theorem strict_needs_approval_witness:
  "\<exists>t. rt_step sample_ops (started mode_strict (sample_rule ''text.received'' ''low'')) LPlugin t \<and> rs_spawned t = []"
proof -
  let ?s = "started mode_strict (sample_rule ''text.received'' ''low'')"
  note f = sample_started [of "''low''" "''text.received''" mode_strict]
  obtain t where "handle_plugin_request (publish_event 1 sample_ops) sample_ops sample_request ?s =
      Some (RespAction (decided mode_strict (sample_action ''low'')), t)"
    using sample_requested [of mode_strict "\<lambda>_. True"] by auto
  then have step: "rt_step sample_ops ?s LPlugin t" by (rule rt_step.plugin)
  from strict_needs_approval [OF step] f step show ?thesis by auto
qed

section \<open>From an event to its actions\<close>



section \<open>When publishing returns\<close>

text \<open>C5: When no rule reacts to the status events of requests, publishing any event returns, and what
  it returns and leaves behind does not depend on the fuel.\<close>
theorem publish_terminates:
  assumes "\<forall>r \<in> set (en_rules (rs_engine s)). silent r"
  shows "\<exists>er s'. \<forall>n \<ge> 2. publish_event n ops e s = Some (er, s')"
proof -
  obtain er s' where "publish_event (Suc (Suc 0)) ops e s = Some (er, s')"
    using publish_silent_returns [OF assms, of 0 ops e] by auto
  then show ?thesis using publish_event_mono [of "Suc (Suc 0)" ops e s "(er, s')"] by auto
qed

theorem publish_terminates_witness:
  "\<exists>er s'. publish_event 2 sample_ops sample_event (started mode_dev (sample_rule ''text.received'' ''low'')) = Some (er, s')"
  using publish_terminates [of "started mode_dev (sample_rule ''text.received'' ''low'')" sample_ops sample_event]
    sample_started(3) [of "''low''" "''text.received''" mode_dev]
  by auto



section \<open>Approval and execution\<close>

text \<open>C14: An approval starts the execution of any stored action, whatever its status: one that was denied,
  or one that has been executed before.\<close>
theorem approval_of_anything:
  assumes "as_wf (rs_actions s)" "as_get (rs_actions s) i = Some a"
    and "approve_action (publish_event n ops) ops i s = Some (r, s')"
  shows "r = Inr (a\<lparr>acStatus := ''allowed''\<rparr>) \<and> a\<lparr>acStatus := ''allowed''\<rparr> \<in> set (rs_spawned s') \<and>
    length (rs_spawned s') > length (rs_spawned s)"
  using approve_spawns [OF assms] by auto

theorem approval_of_anything_witness:
  "\<exists>s'. approve_action (publish_event 2 sample_ops) sample_ops ''a1''
     ((started mode_strict (sample_rule ''text.received'' ''low''))\<lparr>rs_actions :=
        as_save ((sample_action ''high'')\<lparr>acStatus := ''executed''\<rparr>) new_action_store\<rparr>) =
     Some (Inr ((sample_action ''high'')\<lparr>acStatus := ''allowed''\<rparr>), s') \<and>
   (sample_action ''high'')\<lparr>acStatus := ''allowed''\<rparr> \<in> set (rs_spawned s')"
proof -
  let ?a = "(sample_action ''high'')\<lparr>acStatus := ''executed''\<rparr>"
  let ?s = "(started mode_strict (sample_rule ''text.received'' ''low''))\<lparr>rs_actions := as_save ?a new_action_store\<rparr>"
  have wf: "as_wf (rs_actions ?s)" by simp
  have get: "as_get (rs_actions ?s) ''a1'' = Some ?a" by simp
  have "\<forall>r \<in> set (en_rules (rs_engine ?s)). silent r"
    using sample_started(3) [of "''low''" "''text.received''" mode_strict] by simp
  from approve_returns [OF wf get this, of 0 sample_ops] obtain r s' where
    r: "approve_action (publish_event 2 sample_ops) sample_ops ''a1'' ?s = Some (r, s')"
    by (auto simp: numeral_2_eq_2)
  with approval_of_anything [OF wf get r] show ?thesis by auto
qed

text \<open>C9: The goroutine that executes an action settles that action as executed or failed, touches no
  other action, and then publishes one event with the outcome, the session, the trace and the
  depth of the action.\<close>
theorem execution_settles:
  assumes "as_wf (rs_actions s)" "perform_action ops a s = ((x, er), s1)"
  shows "\<exists>e s3. execute_action publish ops a s = publish_quietly publish e s3 \<and>
    evType e = ''action.executed'' \<and> evSessionID e = acSessionID a \<and> evTraceID e = acTraceID a \<and> evDepth e = acDepth a \<and>
    map_of (evPayload e) ''status'' = Some (VNamed (if er = None then ''completed'' else ''failed'')) \<and>
    (\<forall>j. as_get (rs_actions s3) j =
      (if j = acID a
       then map_option (\<lambda>b. b\<lparr>acStatus := (if er = None then ''executed'' else ''failed'')\<rparr>) (as_get (rs_actions s) j)
       else as_get (rs_actions s) j))"
  using execute_publishes [OF assms, of publish] unfolding outcome_def by blast

theorem execution_settles_witness:
  "\<exists>e s3. execute_action (\<lambda>e s. Some (None, s)) sample_ops (sample_action ''low'')
       (started mode_dev (sample_rule ''text.received'' ''low'')) = publish_quietly (\<lambda>e s. Some (None, s)) e s3 \<and>
     evType e = ''action.executed''"
proof -
  let ?s = "started mode_dev (sample_rule ''text.received'' ''low'')"
  obtain x er s1 where p: "perform_action sample_ops (sample_action ''low'') ?s = ((x, er), s1)" by (metis prod.exhaust)
  have "as_wf (rs_actions ?s)" using sample_started(7) [of "''low''" "''text.received''" mode_dev] by simp
  from execution_settles [OF this p, of "\<lambda>e s. Some (None, s)"] show ?thesis by blast
qed





section \<open>Workflows at run time\<close>





section \<open>Sessions\<close>

text \<open>C21: Tracking an event that names a session always succeeds: a session that is not known is created
  from the event, a known one only gets a new time of its last update; the other sessions are as
  before and the database is given the session that is now in memory.\<close>
theorem session_tracking_total:
  assumes "sm_wf (rs_sessions s)" "\<not> blank (evSessionID e)" "event_validate e = None"
    and "\<And>n. \<not> is_zero (utc (wd_now (rs_world s) n))"
  shows "\<exists>x s'. handle_session_tracking ops e s = (None, s') \<and>
    (case sm_look (rs_sessions s) (evSessionID e) of
       None \<Rightarrow> ssID x = evSessionID e \<and> ssChannel x = evSource e \<and> ssState x = ''active'' \<and> ssMessages x = []
     | Some y \<Rightarrow> (\<exists>t. x = y\<lparr>ssUpdatedAt := t\<rparr>)) \<and>
    (\<forall>j. sm_look (rs_sessions s') j = (if j = evSessionID e then Some x else sm_look (rs_sessions s) j)) \<and>
    rs_storage s' = map_option (\<lambda>d. snd (op_save_session ops x d)) (rs_storage s)"
proof -
  have "\<not> blank (evSource e)" using assms(3) by (simp add: event_valid_iff)
  from session_tracking_effect [OF assms(1,2) this assms(4), of ops] obtain x s' where
    "handle_session_tracking ops e s = (None, s')" "tracked e (sm_look (rs_sessions s) (evSessionID e)) x"
    "\<forall>j. sm_look (rs_sessions s') j = (if j = evSessionID e then Some x else sm_look (rs_sessions s) j)"
    "rs_storage s' = map_option (\<lambda>d. snd (op_save_session ops x d)) (rs_storage s)" by blast
  then show ?thesis by (intro exI [of _ x] exI [of _ s']) (auto simp: tracked_def split: option.splits)
qed

theorem session_tracking_total_witness:
  "\<exists>x s'. handle_session_tracking sample_ops (sample_event\<lparr>evSessionID := ''s1''\<rparr>)
     (started mode_dev (sample_rule ''*'' ''high'')) = (None, s') \<and> sm_look (rs_sessions s') ''s1'' = Some x"
proof -
  let ?s = "started mode_dev (sample_rule ''*'' ''high'')" and ?e = "sample_event\<lparr>evSessionID := ''s1''\<rparr>"
  note f = sample_started [of "''high''" "''*''" mode_dev]
  have "event_validate ?e = None" using sample_event_valid by (simp only: event_valid_iff) simp
  moreover have "wd_now (rs_world ?s) n = 1" for n
    using started_shape [OF f(1,2), of mode_dev] by (auto simp: sample_world_def)
  ultimately show ?thesis
    using session_tracking_total [of ?s ?e sample_ops] f(5) by fastforce
qed

end
